(* ===== verification/Prelude.thy ===== *)
theory Prelude
  imports Main "HOL-Library.Word"
begin

section \<open>Shared vocabulary of the development\<close>

text \<open>
  What every component theory uses: the C integer types as machine words, the
  outcomes of C that are not values (\<open>c_fault\<close>), the sequencing of fallible
  computations, reads through byte pointers, writes into fixed-size arrays, the
  two-byte big-endian fields of MPEG-2/DVB sections, and the collections of
  rewrite rules the component proofs are built on.
\<close>

unbundle bit_operations_syntax

subsection \<open>Integer types and rule collections\<close>

type_synonym u8 = "8 word"
type_synonym u16 = "16 word"
type_synonym u32 = "32 word"
type_synonym u64 = "64 word"

text \<open>Signed C integers are words of the same width, read with \<open>sint\<close>.\<close>

type_synonym i16 = "16 word"
type_synonym i32 = "32 word"
type_synonym i64 = "64 word"

named_theorems c_simps \<open>sequencing, reads and writes of the C layer\<close>
named_theorems field_simps_be \<open>big-endian fields and their masks\<close>

subsection \<open>Faults and sequencing\<close>

text \<open>
  C code that leaves the defined part of the language has no result. Such an outcome
  is a value \<open>Inl f\<close> here: a dereference of \<open>NULL\<close>, a read or a write outside an
  object, an access to freed memory, a use of an indeterminate value, an overflow of a
  signed conversion, or a loop whose state no longer changes. A call that ends the program
  is the last one.
\<close>

datatype c_fault =
    Null_Dereference
  | Read_Out_Of_Bounds
  | Write_Out_Of_Bounds
  | Dangling_Pointer
  | Indeterminate_Value
  | Signed_Overflow
  | Endless_Loop
  | Program_Exit

type_synonym 'a c_res = "c_fault + 'a"

definition c_bind :: "'a c_res \<Rightarrow> ('a \<Rightarrow> 'b c_res) \<Rightarrow> 'b c_res" where
  "c_bind m f = (case m of Inl e \<Rightarrow> Inl e | Inr x \<Rightarrow> f x)"

lemma c_bind_simps [simp, c_simps]:
  "c_bind (Inl e) f = Inl e"
  "c_bind (Inr x) f = f x"
  by (simp_all add: c_bind_def)

lemma c_bind_cong [fundef_cong]:
  assumes "m = m'" and "\<And>x. m' = Inr x \<Longrightarrow> f x = f' x"
  shows "c_bind m f = c_bind m' f'"
  using assms by (cases m') (simp_all add: c_bind_def)

lemma c_bind_eq_Inr:
  "c_bind m f = Inr y \<longleftrightarrow> (\<exists>x. m = Inr x \<and> f x = Inr y)"
  by (cases m) simp_all

lemma c_bind_eq_Inl:
  "c_bind m f = Inl e \<longleftrightarrow> m = Inl e \<or> (\<exists>x. m = Inr x \<and> f x = Inl e)"
  by (cases m) auto

lemma c_bind_assoc [c_simps]:
  "c_bind (c_bind m f) g = c_bind m (\<lambda>x. c_bind (f x) g)"
  by (cases m) simp_all

definition no_fault :: "'a c_res \<Rightarrow> bool" where
  "no_fault r = (case r of Inl _ \<Rightarrow> False | Inr _ \<Rightarrow> True)"

lemma no_fault_simps [simp]: "no_fault (Inr x)" "\<not> no_fault (Inl e)"
  by (simp_all add: no_fault_def)

lemma no_fault_iff: "no_fault r \<longleftrightarrow> (\<exists>x. r = Inr x)"
  by (cases r) simp_all

subsection \<open>Byte pointers and arrays\<close>

text \<open>
  A \<open>const uint8_t *\<close> is an object (its bytes) and an offset into it; \<open>NULL\<close> is
  \<open>None\<close>. \<open>deref p i\<close> is \<open>*(p + i)\<close>.
\<close>

type_synonym byte_ptr = "u8 list \<times> nat"

definition deref :: "byte_ptr \<Rightarrow> nat \<Rightarrow> u8 c_res" where
  "deref p i = (if snd p + i < length (fst p) then Inr (fst p ! (snd p + i))
                else Inl Read_Out_Of_Bounds)"

definition ptr_add :: "byte_ptr \<Rightarrow> nat \<Rightarrow> byte_ptr" where
  "ptr_add p n = (fst p, snd p + n)"

lemma ptr_add_sel [simp]: "fst (ptr_add p n) = fst p" "snd (ptr_add p n) = snd p + n"
  by (simp_all add: ptr_add_def)

lemma deref_in [simp, c_simps]:
  "o' + i < length bs \<Longrightarrow> deref (bs, o') i = Inr (bs ! (o' + i))"
  by (simp add: deref_def)

lemma deref_out [c_simps]:
  "length bs \<le> o' + i \<Longrightarrow> deref (bs, o') i = Inl Read_Out_Of_Bounds"
  by (simp add: deref_def)

text \<open>Element access of a C array, which is a list of its declared length.\<close>

definition array_get :: "'a list \<Rightarrow> nat \<Rightarrow> 'a c_res" where
  "array_get xs i = (if i < length xs then Inr (xs ! i) else Inl Read_Out_Of_Bounds)"

definition array_set :: "'a list \<Rightarrow> nat \<Rightarrow> 'a \<Rightarrow> 'a list c_res" where
  "array_set xs i x = (if i < length xs then Inr (xs[i := x]) else Inl Write_Out_Of_Bounds)"

text \<open>A computation that returns or stops at a memory access, and neither loops nor exits.\<close>

definition memory_only :: "'a c_res \<Rightarrow> bool" where
  "memory_only r = (case r of Inl e \<Rightarrow> e \<in> {Null_Dereference, Read_Out_Of_Bounds, Write_Out_Of_Bounds} | Inr _ \<Rightarrow> True)"

lemma memory_only_simps [simp]:
  "memory_only (Inr x)" "memory_only (Inl Null_Dereference)" "memory_only (Inl Read_Out_Of_Bounds)"
  "memory_only (Inl Write_Out_Of_Bounds)"
  "memory_only (deref p i)" "memory_only (array_get xs k)" "memory_only (array_set xs k x)"
  by (simp_all add: memory_only_def deref_def array_get_def array_set_def)

lemma memory_only_bind: "memory_only m \<Longrightarrow> (\<And>x. m = Inr x \<Longrightarrow> memory_only (f x)) \<Longrightarrow> memory_only (c_bind m f)"
  by (cases m) (simp_all add: memory_only_def)

lemma array_get_in [simp, c_simps]: "i < length xs \<Longrightarrow> array_get xs i = Inr (xs ! i)"
  by (simp add: array_get_def)

lemma array_set_in [simp, c_simps]: "i < length xs \<Longrightarrow> array_set xs i x = Inr (xs[i := x])"
  by (simp add: array_set_def)

lemma array_set_length: "array_set xs i x = Inr ys \<Longrightarrow> length ys = length xs"
  by (auto simp: array_set_def split: if_splits)

subsection \<open>Two-byte big-endian fields\<close>

text \<open>
  \<open>(uint16_t) ((higher8Bits << 8) + lower8Bits)\<close>: the sum is formed in \<open>int\<close> and is
  below \<open>2 ^ 16\<close>, so forming it in 16 bits gives the same value.
\<close>

definition be16 :: "u8 \<Rightarrow> u8 \<Rightarrow> u16" where
  "be16 higher8Bits lower8Bits = push_bit 8 (ucast higher8Bits) + ucast lower8Bits"

text \<open>The two bytes a section holds for a 16-bit field, in the order of transmission.\<close>

definition hi8 :: "u16 \<Rightarrow> u8" where
  "hi8 w = ucast (drop_bit 8 w)"

definition lo8 :: "u16 \<Rightarrow> u8" where
  "lo8 w = ucast w"

lemma unat_u8_less: "unat (b :: u8) < 256"
  using unsigned_less [of b, where ?'a = nat] by simp

lemma unat_u16_less: "unat (w :: u16) < 65536"
  using unsigned_less [of w, where ?'a = nat] by simp

lemma unat_u32_less: "unat (w :: u32) < 4294967296"
  using unsigned_less [of w, where ?'a = nat] by simp

lemma unat_ucast_u8_u16 [simp]: "unat (ucast (b :: u8) :: u16) = unat b"
  using unat_u8_less [of b] by (simp add: unsigned_ucast_eq take_bit_eq_mod)

lemma unat_ucast_u16_u32 [simp]: "unat (ucast (b :: u16) :: u32) = unat b"
  using unat_u16_less [of b] by (simp add: unsigned_ucast_eq take_bit_eq_mod)

lemma unat_ucast_u8_u32 [simp]: "unat (ucast (b :: u8) :: u32) = unat b"
  using unat_u8_less [of b] by (simp add: unsigned_ucast_eq take_bit_eq_mod)

lemma unat_be16: "unat (be16 h l) = 256 * unat h + unat l"
proof -
  have "unat (push_bit 8 (ucast h :: u16)) = 256 * unat h"
    using unat_u8_less [of h]
    by (simp only: unsigned_push_bit_eq unat_ucast_u8_u16)
      (simp add: take_bit_eq_mod push_bit_eq_mult)
  moreover have "256 * unat h + unat l < 65536"
    using unat_u8_less [of h] unat_u8_less [of l] by linarith
  ultimately show ?thesis
    by (simp add: be16_def unat_word_ariths)
qed

lemma unat_hi8: "unat (hi8 w) = unat w div 256"
  using unat_u16_less [of w]
  by (simp only: hi8_def unsigned_ucast_eq unat_drop_bit_eq)
    (simp add: drop_bit_eq_div take_bit_eq_mod)

lemma unat_lo8: "unat (lo8 w) = unat w mod 256"
  by (simp add: lo8_def unsigned_ucast_eq take_bit_eq_mod)

lemma be16_hi8_lo8 [simp, field_simps_be]: "be16 (hi8 w) (lo8 w) = w"
  by (rule word_unat_eq_iff [THEN iffD2]) (simp add: unat_be16 unat_hi8 unat_lo8)

lemma hi8_be16 [simp, field_simps_be]: "hi8 (be16 h l) = h"
  using unat_u8_less [of l] by (simp add: word_unat_eq_iff unat_hi8 unat_be16)

lemma lo8_be16 [simp, field_simps_be]: "lo8 (be16 h l) = l"
  using unat_u8_less [of l] by (simp add: word_unat_eq_iff unat_lo8 unat_be16)

declare unat_u8_less [simp] unat_u16_less [simp]

text \<open>The masks the parsers apply keep the low 12, 13 or 16 bits.\<close>

lemma mask12_eq: "(w :: u16) AND 0x0FFF = take_bit 12 w"
  by (simp add: take_bit_eq_mask mask_eq_exp_minus_1)

lemma mask13_eq: "(w :: u16) AND 0x1FFF = take_bit 13 w"
  by (simp add: take_bit_eq_mask mask_eq_exp_minus_1)

lemma mask16_eq [simp, field_simps_be]: "(w :: u16) AND 0xFFFF = w"
proof -
  have "w AND 0xFFFF = take_bit 16 w"
    by (simp add: take_bit_eq_mask mask_eq_exp_minus_1)
  then show ?thesis by (simp add: take_bit_word_eq_self)
qed

lemma mask8_eq [simp, field_simps_be]: "(b :: u8) AND 0xFF = b"
proof -
  have "b AND 0xFF = take_bit 8 b"
    by (simp add: take_bit_eq_mask mask_eq_exp_minus_1)
  then show ?thesis by (simp add: take_bit_word_eq_self)
qed

lemma unat_mask12: "unat ((w :: u16) AND 0x0FFF) = unat w mod 4096"
  by (simp only: mask12_eq unsigned_take_bit_eq) (simp add: take_bit_eq_mod)

lemma unat_mask13: "unat ((w :: u16) AND 0x1FFF) = unat w mod 8192"
  by (simp only: mask13_eq unsigned_take_bit_eq) (simp add: take_bit_eq_mod)

lemma mask12_less [simp]: "unat ((w :: u16) AND 0x0FFF) < 4096"
  by (simp add: unat_mask12)

lemma mask13_less [simp]: "unat ((w :: u16) AND 0x1FFF) < 8192"
  by (simp add: unat_mask13)

lemma mask12_id [simp, field_simps_be]: "unat w < 4096 \<Longrightarrow> (w :: u16) AND 0x0FFF = w"
  by (simp add: word_unat_eq_iff unat_mask12)

lemma mask13_id [simp, field_simps_be]: "unat w < 8192 \<Longrightarrow> (w :: u16) AND 0x1FFF = w"
  by (simp add: word_unat_eq_iff unat_mask13)

text \<open>Bit fields inside one byte.\<close>

lemma unat_shr_u8 [field_simps_be]: "unat (drop_bit k (b :: u8)) = unat b div 2 ^ k"
  by (simp only: unat_drop_bit_eq) (simp add: drop_bit_eq_div)

lemma mask1_eq: "(b :: u8) AND 0x01 = take_bit 1 b"
  by (simp add: take_bit_eq_mask mask_eq_exp_minus_1)

lemma unat_mask1 [field_simps_be]: "unat ((b :: u8) AND 0x01) = unat b mod 2"
  by (simp only: mask1_eq unsigned_take_bit_eq) (simp add: take_bit_eq_mod)

lemma mask4_eq: "(b :: u8) AND 0x0F = take_bit 4 b"
  by (simp add: take_bit_eq_mask mask_eq_exp_minus_1)

lemma unat_mask4 [field_simps_be]: "unat ((b :: u8) AND 0x0F) = unat b mod 16"
  by (simp only: mask4_eq unsigned_take_bit_eq) (simp add: take_bit_eq_mod)

lemma mask5_eq: "(b :: u8) AND 0x1F = take_bit 5 b"
  by (simp add: take_bit_eq_mask mask_eq_exp_minus_1)

lemma unat_mask5 [field_simps_be]: "unat ((b :: u8) AND 0x1F) = unat b mod 32"
  by (simp only: mask5_eq unsigned_take_bit_eq) (simp add: take_bit_eq_mod)

lemma unat_of_nat_u8: "k < 256 \<Longrightarrow> unat (of_nat k :: u8) = k"
  by (simp add: unsigned_of_nat take_bit_eq_mod)

lemma unat_of_nat_u16: "k < 65536 \<Longrightarrow> unat (of_nat k :: u16) = k"
  by (simp add: unsigned_of_nat take_bit_eq_mod)

lemma unat_of_nat_u32: "k < 4294967296 \<Longrightarrow> unat (of_nat k :: u32) = k"
  by (simp add: unsigned_of_nat take_bit_eq_mod)

lemma unat_Suc_u8: "unat b < 255 \<Longrightarrow> unat (b + 1 :: u8) = Suc (unat b)"
  by (simp add: unat_word_ariths)

text \<open>Progress of a loop \<open>for (i = ...; i < n; i++)\<close> over a \<open>uint8_t\<close>.\<close>

lemma u8_loop_measure: "(i :: u8) < n \<Longrightarrow> unat n - unat (i + 1) < unat n - unat i"
proof -
  assume "i < n"
  then have lt: "unat i < unat n" by (simp add: word_less_nat_alt)
  then have "unat i < 255" using unat_u8_less [of n] by linarith
  then show ?thesis using lt by (simp add: unat_Suc_u8)
qed

lemma mod_offset: "c = k * m \<Longrightarrow> r < m \<Longrightarrow> (c + r) mod m = r" for r :: nat
  by simp

lemma nth_concat_fixed:
  assumes "\<And>x. x \<in> set xs \<Longrightarrow> length (f x) = w" and "i < length xs" and "j < w"
  shows "concat (map f xs) ! (i * w + j) = f (xs ! i) ! j"
  using assms
proof (induction xs arbitrary: i)
  case (Cons x xs)
  show ?case
  proof (cases i)
    case 0
    then show ?thesis using Cons.prems by (simp add: nth_append)
  next
    case (Suc k)
    have "concat (map f (x # xs)) ! (i * w + j) = concat (map f xs) ! (k * w + j)"
      using Cons.prems(1) [of x] by (simp add: Suc nth_append ac_simps)
    then show ?thesis using Cons.IH [of k] Cons.prems Suc by simp
  qed
qed simp

end
