(* ===== verification/Heap_Ptr.thy ===== *)
theory Heap_Ptr
  imports Prelude
begin

section \<open>Pointers to allocated structures\<close>

text \<open>
  A pointer that is \<open>NULL\<close>, points to a live structure, or points to one that has been
  freed. Reading through it, passing it to a parser and freeing it fault where C leaves
  the behaviour undefined. The tables of the stream controller are never aliased, so the
  structure is kept with the pointer.
\<close>

datatype 'a heap_ptr = Null | Freed | Ptr 'a

definition ptr_read :: "'a heap_ptr \<Rightarrow> 'a c_res" where
  "ptr_read p = (case p of Null \<Rightarrow> Inl Null_Dereference | Freed \<Rightarrow> Inl Dangling_Pointer | Ptr x \<Rightarrow> Inr x)"

text \<open>A pointer argument that the callee tests against \<open>NULL\<close>.\<close>

definition ptr_arg :: "'a heap_ptr \<Rightarrow> 'a option c_res" where
  "ptr_arg p = (case p of Null \<Rightarrow> Inr None | Freed \<Rightarrow> Inl Dangling_Pointer | Ptr x \<Rightarrow> Inr (Some x))"

definition ptr_back :: "'a option \<Rightarrow> 'a heap_ptr" where
  "ptr_back r = (case r of None \<Rightarrow> Null | Some x \<Rightarrow> Ptr x)"

definition ptr_free :: "'a heap_ptr \<Rightarrow> 'a heap_ptr c_res" where
  "ptr_free p = (case p of Null \<Rightarrow> Inr Null | Freed \<Rightarrow> Inl Dangling_Pointer | Ptr x \<Rightarrow> Inr Freed)"

lemma ptr_simps [simp, c_simps]:
  "ptr_read (Ptr x) = Inr x" "ptr_read Null = Inl Null_Dereference" "ptr_read Freed = Inl Dangling_Pointer"
  "ptr_arg (Ptr x) = Inr (Some x)" "ptr_arg Null = Inr None" "ptr_arg Freed = Inl Dangling_Pointer"
  "ptr_back None = Null" "ptr_back (Some x) = Ptr x"
  "ptr_free (Ptr x) = Inr Freed" "ptr_free Null = Inr Null" "ptr_free Freed = Inl Dangling_Pointer"
  by (simp_all add: ptr_read_def ptr_arg_def ptr_back_def ptr_free_def)

end
