(* ===== verification/C_String.thy ===== *)
theory C_String
  imports Prelude
begin

section \<open>C strings in a line buffer\<close>

text \<open>
  The functions of the C library that the configuration loader uses on its line buffer:
  \<open>fgets\<close>, \<open>strtok\<close> with its saved position, \<open>strcmp\<close> and \<open>atoi\<close>. A buffer is the
  list of its characters including the terminating \<open>NUL\<close>; a \<open>char *\<close> is an index into it.
\<close>

abbreviation NUL :: char where "NUL \<equiv> CHR 0x00"
abbreviation NEWLINE :: char where "NEWLINE \<equiv> CHR 0x0A"
abbreviation BLANK :: char where "BLANK \<equiv> CHR 0x20"

text \<open>The string that starts at an index.\<close>

definition c_str :: "char list \<Rightarrow> nat \<Rightarrow> string" where
  "c_str buf i = takeWhile (\<lambda>c. c \<noteq> NUL) (drop i buf)"

text \<open>
  \<open>fgets (line, n, f)\<close>: at most \<open>n - 1\<close> characters, up to and including a newline;
  \<open>None\<close> at the end of the file. The second component is the rest of the file.
\<close>

fun line_split :: "nat \<Rightarrow> char list \<Rightarrow> char list \<times> char list" where
  "line_split 0 cs = ([], cs)"
| "line_split (Suc n) [] = ([], [])"
| "line_split (Suc n) (c # cs) =
     (if c = NEWLINE then ([c], cs) else (c # fst (line_split n cs), snd (line_split n cs)))"

definition c_fgets :: "nat \<Rightarrow> char list \<Rightarrow> (char list \<times> char list) option" where
  "c_fgets n cs = (if cs = [] then None else Some (line_split (n - 1) cs))"

lemma line_split_append: "fst (line_split n cs) @ snd (line_split n cs) = cs"
  by (induction n cs rule: line_split.induct) auto

lemma line_split_shorter: "cs \<noteq> [] \<Longrightarrow> length (snd (line_split (Suc n) cs)) < length cs"
proof (cases cs)
  case (Cons c ds)
  have "length (snd (line_split n ds)) \<le> length ds"
    using arg_cong [OF line_split_append [of n ds], of length] by simp
  then show ?thesis by (simp add: Cons)
qed simp

lemma line_split_line:
  "NEWLINE \<notin> set l \<Longrightarrow> length l < n \<Longrightarrow> line_split n (l @ NEWLINE # cs) = (l @ [NEWLINE], cs)"
proof (induction l arbitrary: n)
  case Nil
  then show ?case by (cases n) simp_all
next
  case (Cons c l)
  then show ?case by (cases n) auto
qed

lemma line_split_all: "NEWLINE \<notin> set l \<Longrightarrow> length l \<le> n \<Longrightarrow> line_split n l = (l, [])"
  by (induction n l rule: line_split.induct) auto

text \<open>
  \<open>strtok\<close> with a one-character delimiter, started at an index or continued at the saved
  one: the index of the token (or \<open>NULL\<close>), the buffer with the delimiter behind the token
  overwritten, the index saved for the next call.
\<close>

definition c_strtok :: "char \<Rightarrow> char list \<Rightarrow> nat \<Rightarrow> nat option \<times> char list \<times> nat" where
  "c_strtok d buf pos =
    (let start = pos + length (takeWhile (\<lambda>c. c = d) (drop pos buf)) in
     if length buf \<le> start \<or> buf ! start = NUL then (None, buf, start)
     else let stop = start + length (takeWhile (\<lambda>c. c \<noteq> d \<and> c \<noteq> NUL) (drop start buf)) in
          if stop < length buf \<and> buf ! stop = d then (Some start, buf[stop := NUL], Suc stop)
          else (Some start, buf, stop))"

text \<open>\<open>atoi\<close>: white space, an optional sign, digits; a value outside \<open>int\<close> is undefined.\<close>

definition is_space :: "char \<Rightarrow> bool" where
  "is_space c \<longleftrightarrow> c \<in> {CHR 0x20, CHR 0x09, CHR 0x0A, CHR 0x0B, CHR 0x0C, CHR 0x0D}"

definition is_digit :: "char \<Rightarrow> bool" where
  "is_digit c \<longleftrightarrow> 48 \<le> (of_char c :: nat) \<and> (of_char c :: nat) \<le> 57"

definition digit_value :: "char \<Rightarrow> int" where
  "digit_value c = of_char c - 48"

definition digits_value :: "char list \<Rightarrow> int" where
  "digits_value ds = foldl (\<lambda>v c. 10 * v + digit_value c) 0 ds"

definition c_atoi :: "string \<Rightarrow> int c_res" where
  "c_atoi s =
    (let s = dropWhile is_space s;
         negative = (s \<noteq> [] \<and> hd s = CHR ''-'');
         s = (if s \<noteq> [] \<and> (hd s = CHR ''-'' \<or> hd s = CHR ''+'') then tl s else s);
         v = digits_value (takeWhile is_digit s);
         v = (if negative then - v else v)
     in if - (2 ^ 31) \<le> v \<and> v < 2 ^ 31 then Inr v else Inl Signed_Overflow)"

lemma digits_value_append1: "digits_value (ds @ [c]) = 10 * digits_value ds + digit_value c"
  by (simp add: digits_value_def)

lemma digits_value_nonneg: "list_all is_digit ds \<Longrightarrow> 0 \<le> digits_value ds"
proof (induction ds rule: rev_induct)
  case (snoc c ds)
  have "(48 :: nat) \<le> of_char c" using snoc.prems by (simp add: is_digit_def)
  then have "(48 :: int) \<le> of_char c" by (simp add: flip: of_nat_of_char [where ?'a = int])
  then show ?case using snoc by (simp add: digits_value_append1 digit_value_def)
qed (simp add: digits_value_def)

lemma is_digit_not_space: "is_digit c \<Longrightarrow> \<not> is_space c"
  by (auto simp: is_digit_def is_space_def)

lemma is_digit_facts:
  assumes "is_digit c"
  shows "c \<noteq> CHR ''-''" "c \<noteq> CHR ''+''" "c \<noteq> NUL" "c \<noteq> BLANK" "c \<noteq> NEWLINE"
  using assms by (auto simp: is_digit_def)

lemma c_atoi_digits:
  assumes "list_all is_digit ds" and "ds \<noteq> []" and "rest = [] \<or> \<not> is_digit (hd rest)"
    and "digits_value ds < 2 ^ 31"
  shows "c_atoi (ds @ rest) = Inr (digits_value ds)"
proof -
  obtain c cs where ds: "ds = c # cs" using assms(2) by (cases ds) auto
  have c: "is_digit c" using assms(1) ds by simp
  have "takeWhile is_digit (ds @ rest) = ds"
    using assms(1,3) by (cases rest) (simp_all add: list_all_iff takeWhile_append1 takeWhile_append2)
  moreover have "dropWhile is_space (ds @ rest) = ds @ rest"
    using is_digit_not_space [OF c] by (simp add: ds)
  moreover have "0 \<le> digits_value ds" using assms(1) by (rule digits_value_nonneg)
  ultimately show ?thesis
    using is_digit_facts [OF c] assms(4) by (simp add: c_atoi_def Let_def ds)
qed

end
