(* ===== verification/Config_Loader.thy ===== *)
theory Config_Loader
  imports C_String
begin

section \<open>Loading the configuration file (stream\_controller.c)\<close>

text \<open>
  \<open>removeWhiteSpaces\<close>, which edits a word of the line buffer in place, and
  \<open>loadConfigFile\<close>, which reads the file line by line. The enumeration \<open>t_Module\<close> belongs
  to the tuner library: its type is a type variable and its value \<open>DVB_T\<close> a parameter.
\<close>

datatype StreamControllerError = SC_NO_ERROR | SC_ERROR | SC_THREAD_ERROR

record 'm InitialInfo =
  tuneFrequency :: u32
  tuneBandwidth :: u32
  info_programNumber :: u32
  tuneModule :: 'm

definition LINE_LENGTH :: nat where
  "LINE_LENGTH = 100"

subsection \<open>Removing blanks\<close>

text \<open>An access \<open>word[k]\<close> with a possibly negative \<open>k\<close>, \<open>word\<close> being an index of the buffer.\<close>

definition char_get :: "char list \<Rightarrow> int \<Rightarrow> char c_res" where
  "char_get buf i = (if 0 \<le> i \<and> i < int (length buf) then Inr (buf ! nat i) else Inl Read_Out_Of_Bounds)"

definition char_set :: "char list \<Rightarrow> int \<Rightarrow> char \<Rightarrow> char list c_res" where
  "char_set buf i c =
     (if 0 \<le> i \<and> i < int (length buf) then Inr (buf[nat i := c]) else Inl Write_Out_Of_Bounds)"

text \<open>The two scanning loops: \<open>i\<close> goes up over blanks, \<open>k\<close> goes down over blanks.\<close>

definition blanks_from :: "char list \<Rightarrow> nat \<Rightarrow> nat" where
  "blanks_from buf word = length (takeWhile (\<lambda>c. c = BLANK) (drop word buf))"

function last_non_blank :: "char list \<Rightarrow> nat \<Rightarrow> int \<Rightarrow> int c_res" where
  "last_non_blank buf word k =
     (if int word + k < 0 then Inl Read_Out_Of_Bounds
      else c_bind (char_get buf (int word + k)) (\<lambda>c.
           if c = BLANK \<and> c \<noteq> NUL then last_non_blank buf word (k - 1) else Inr k))"
  by pat_completeness auto
termination
  by (relation "measure (\<lambda>(buf, word, k). nat (int word + k + 1))") auto

declare last_non_blank.simps [simp del]

text \<open>The copying loop \<open>for (j = 0; j < (k - i); j++) word[j] = startString[j + i]\<close>.\<close>

function shift_word :: "char list \<Rightarrow> nat \<Rightarrow> int \<Rightarrow> int \<Rightarrow> int \<Rightarrow> char list c_res" where
  "shift_word buf word i k j =
     (if j < k - i then
        c_bind (char_get buf (int word + j + i)) (\<lambda>c.
        c_bind (char_set buf (int word + j) c) (\<lambda>buf.
        shift_word buf word i k (j + 1)))
      else Inr buf)"
  by pat_completeness auto
termination
  by (relation "measure (\<lambda>(buf, word, i, k, j). nat (k - i - j))") auto

declare shift_word.simps [simp del]

definition removeWhiteSpaces :: "char list \<Rightarrow> nat option \<Rightarrow> char list c_res" where
  "removeWhiteSpaces buf p =
    (case p of
       None \<Rightarrow> Inl Null_Dereference
     | Some word \<Rightarrow>
         let stringLen = length (c_str buf word);
             i = int (blanks_from buf word) in
         c_bind (last_non_blank buf word (int stringLen - 1)) (\<lambda>k.
         c_bind (shift_word buf word i k 0) (\<lambda>buf.
         char_set buf (int word + k - i + 1) NUL)))"

subsection \<open>One line and the whole file\<close>

datatype 'm line_result = Next_Line "'m InitialInfo" | Not_Supported "'m InitialInfo"

text \<open>The value behind the dash: \<open>strtok (NULL, "-")\<close> and \<open>removeWhiteSpaces\<close>.\<close>

definition config_value :: "char list \<Rightarrow> nat \<Rightarrow> string c_res" where
  "config_value buf save =
    (case c_strtok CHR ''-'' buf save of
       (p, buf, _) \<Rightarrow> c_bind (removeWhiteSpaces buf p) (\<lambda>buf. Inr (c_str buf (the p))))"

definition loadConfigLine :: "'m \<Rightarrow> char list \<Rightarrow> 'm InitialInfo \<Rightarrow> 'm line_result c_res" where
  "loadConfigLine DVB_T singleLine configInfo =
    (case c_strtok CHR ''-'' (singleLine @ [NUL]) 0 of
       (p, buf, save) \<Rightarrow>
         c_bind (removeWhiteSpaces buf p) (\<lambda>buf.
         let singleWord = c_str buf (the p) in
         if singleWord = ''frequency'' then
           c_bind (config_value buf save) (\<lambda>v. c_bind (c_atoi v) (\<lambda>n.
           Inr (Next_Line (configInfo\<lparr>tuneFrequency := of_int n\<rparr>))))
         else if singleWord = ''bandwidth'' then
           c_bind (config_value buf save) (\<lambda>v. c_bind (c_atoi v) (\<lambda>n.
           Inr (Next_Line (configInfo\<lparr>tuneBandwidth := of_int n\<rparr>))))
         else if singleWord = ''module'' then
           c_bind (config_value buf save) (\<lambda>v.
           if v \<noteq> ''DVB_T'' then Inr (Next_Line (configInfo\<lparr>tuneModule := DVB_T\<rparr>))
           else Inr (Not_Supported configInfo))
         else if singleWord = ''program_number'' then
           c_bind (config_value buf save) (\<lambda>v. c_bind (c_atoi v) (\<lambda>n.
           Inr (Next_Line (configInfo\<lparr>info_programNumber := of_int n\<rparr>))))
         else Inr (Next_Line configInfo)))"

text \<open>
  The loop over the lines. The third component of the result counts the files left open.
\<close>

function loadConfigLines ::
  "'m \<Rightarrow> char list \<Rightarrow> 'm InitialInfo \<Rightarrow> (StreamControllerError \<times> 'm InitialInfo \<times> nat) c_res" where
  "loadConfigLines DVB_T contents configInfo =
    (case c_fgets LINE_LENGTH contents of
       None \<Rightarrow> Inr (SC_NO_ERROR, configInfo, 0)
     | Some (singleLine, rest) \<Rightarrow>
         c_bind (loadConfigLine DVB_T singleLine configInfo) (\<lambda>r.
         case r of
           Next_Line configInfo \<Rightarrow> loadConfigLines DVB_T rest configInfo
         | Not_Supported configInfo \<Rightarrow> Inr (SC_ERROR, configInfo, 1)))"
  by pat_completeness auto
termination
proof (relation "measure (\<lambda>(m, cs, c). length cs)", goal_cases)
  case (2 m cs info r line rest res info')
  then show ?case
    using line_split_shorter [of cs 98]
    by (auto simp: c_fgets_def LINE_LENGTH_def split: if_splits)
qed simp

declare loadConfigLines.simps [simp del]

definition loadConfigFile ::
  "'m \<Rightarrow> char list option \<Rightarrow> 'm InitialInfo \<Rightarrow> (StreamControllerError \<times> 'm InitialInfo \<times> nat) c_res" where
  "loadConfigFile DVB_T inputFile configInfo =
    (case inputFile of
       None \<Rightarrow> Inr (SC_ERROR, configInfo, 0)
     | Some contents \<Rightarrow> loadConfigLines DVB_T contents configInfo)"


subsection \<open>What the trimming does\<close>

lemma c_str_append:
  "NUL \<notin> set s \<Longrightarrow> length pre = i \<Longrightarrow> c_str (pre @ s @ NUL # post) i = s"
  by (induction s arbitrary: pre) (auto simp: c_str_def)

lemma last_non_blank_skip:
  assumes "int word + k = int j" and "j < length buf" and "t \<le> j" and "buf ! (j - t) \<noteq> BLANK"
    and "\<And>m. j - t < m \<Longrightarrow> m \<le> j \<Longrightarrow> buf ! m = BLANK"
  shows "last_non_blank buf word k = Inr (k - int t)"
  using assms
proof (induction t arbitrary: k j)
  case 0
  then show ?case by (simp add: last_non_blank.simps [of buf word k] char_get_def)
next
  case (Suc t)
  have "last_non_blank buf word (k - 1) = Inr (k - 1 - int t)"
    using Suc.prems by (intro Suc.IH [of _ "j - 1"]) auto
  moreover have "buf ! j = BLANK" using Suc.prems by simp
  ultimately show ?case
    using Suc.prems by (simp add: last_non_blank.simps [of buf word k] char_get_def algebra_simps)
qed

text \<open>The copying loop, front to back, leaves what a simultaneous copy would leave.\<close>

lemma shift_word_copy:
  assumes "k - int i = int n" and "word + n + i \<le> length buf" and "j \<le> n"
  shows "shift_word buf word (int i) k (int j) =
    Inr (map (\<lambda>p. if word + j \<le> p \<and> p < word + n then buf ! (p + i) else buf ! p) [0..<length buf])"
  using assms
proof (induction "n - j" arbitrary: j buf)
  case 0
  then show ?case
    by (auto simp: shift_word.simps [of buf] intro!: nth_equalityI)
next
  case (Suc m)
  let ?b = "buf[word + j := buf ! (word + j + i)]"
  have j: "j < n" using Suc.hyps by simp
  have "shift_word buf word (int i) k (int j) = shift_word ?b word (int i) k (int (Suc j))"
    using Suc.prems j
    by (simp add: shift_word.simps [of buf] char_get_def char_set_def nat_add_distrib flip: of_nat_add)
      (simp add: add.commute)
  also have "\<dots> = Inr (map (\<lambda>p. if word + Suc j \<le> p \<and> p < word + n then ?b ! (p + i) else ?b ! p)
      [0..<length ?b])"
    using Suc.hyps Suc.prems j by (intro Suc.hyps(1)) simp_all
  also have "\<dots> = Inr (map (\<lambda>p. if word + j \<le> p \<and> p < word + n then buf ! (p + i) else buf ! p)
      [0..<length buf])"
    using Suc.prems j by (auto simp: nth_list_update)
  finally show ?case .
qed

text \<open>The character left in the last position of the trimmed word.\<close>

definition stale_char :: "nat \<Rightarrow> string \<Rightarrow> char" where
  "stale_char i w = (replicate i BLANK @ w) ! (length w - 1)"

definition trimmed :: "nat \<Rightarrow> string \<Rightarrow> string" where
  "trimmed i w = butlast w @ [stale_char i w]"

lemma trimmed_0: "w \<noteq> [] \<Longrightarrow> trimmed 0 w = w"
  by (cases w rule: rev_cases) (simp_all add: trimmed_def stale_char_def)

lemma length_trimmed: "w \<noteq> [] \<Longrightarrow> length (trimmed i w) = length w"
  by (cases w rule: rev_cases) (simp_all add: trimmed_def)

lemma trimmed_nth:
  assumes "p < length w"
  shows "trimmed i w ! p = (if p < length w - 1 then w ! p else (replicate i BLANK @ w) ! p)"
proof (cases "p < length w - 1")
  case False
  then have "p = length w - 1" using assms by simp
  then show ?thesis by (simp add: trimmed_def stale_char_def nth_append)
qed (simp add: trimmed_def nth_append nth_butlast)

lemma NUL_notin_trimmed:
  assumes "NUL \<notin> set w" and "w \<noteq> []"
  shows "NUL \<notin> set (trimmed i w)"
proof -
  have "stale_char i w \<in> set (replicate i BLANK @ w)"
    unfolding stale_char_def using assms(2) by (intro nth_mem) (cases w, simp_all)
  then have "stale_char i w \<noteq> NUL" using assms(1) by auto
  then show ?thesis using assms(1) by (auto simp: trimmed_def dest: in_set_butlastD)
qed

lemma shifted_buffer:
  assumes pre: "length pre = word" and n: "n < length body" "length tr = n"
    and tr: "\<And>q. q < n \<Longrightarrow> tr ! q = (if q < n - 1 then body ! (q + i) else body ! q)"
  shows "(map (\<lambda>p. if word + 0 \<le> p \<and> p < word + (n - 1) then (pre @ body) ! (p + i) else (pre @ body) ! p)
      [0..<length (pre @ body)])[word + n := NUL] = pre @ tr @ NUL # drop (Suc n) body"
    (is "?l = ?r")
proof (rule nth_equalityI)
  show "length ?l = length ?r" using pre n by simp
  show "?l ! p = ?r ! p" if "p < length ?l" for p
  proof -
    have l: "?l ! p = (if p = word + n then NUL
        else if word \<le> p \<and> p < word + (n - 1) then (pre @ body) ! (p + i) else (pre @ body) ! p)"
      using that n pre by (simp add: nth_list_update del: upt_Suc)
    consider "p < word" | "word \<le> p" "p - word < n" | "p = word + n" | "word + n < p"
      by linarith
    then show ?thesis
    proof cases
      case 2
      then obtain q where q: "p = word + q" "q < n" by (metis le_add_diff_inverse)
      then show ?thesis
        using n unfolding l by (auto simp: tr nth_append simp flip: pre)
    next
      case 4
      then obtain q where "p = word + Suc (n + q)" by (metis less_imp_Suc_add add_Suc_right add.assoc)
      then show ?thesis using that n unfolding l by (auto simp: nth_append simp flip: pre)
    qed (use that n pre in \<open>simp_all add: l nth_append\<close>)
  qed
qed

lemma removeWhiteSpaces_buffer:
  assumes w: "w \<noteq> []" "hd w \<noteq> BLANK" "last w \<noteq> BLANK" "NUL \<notin> set w" and word: "length pre = word"
  shows "removeWhiteSpaces (pre @ replicate i BLANK @ w @ replicate t BLANK @ NUL # post) (Some word)
    = Inr (pre @ trimmed i w @ NUL #
           drop (Suc (length w)) (replicate i BLANK @ w @ replicate t BLANK @ NUL # post))"
proof -
  let ?s = "replicate i BLANK @ w @ replicate t BLANK"
  let ?body = "?s @ NUL # post"
  let ?b = "pre @ ?body"
  have len: "c_str ?b word = ?s"
    using c_str_append [of ?s pre word post] w(4) word by auto
  have i: "blanks_from ?b word = i"
    using w(1,2) word by (induction i) (auto simp: blanks_from_def neq_Nil_conv)
  have k: "last_non_blank ?b word (int (length ?s) - 1) = Inr (int (length ?s) - 1 - int t)"
  proof (rule last_non_blank_skip [where j = "word + length ?s - 1"])
    have "?b ! (word + length ?s - 1 - t) = last w"
      using w(1) word by (cases w rule: rev_cases) (simp_all add: nth_append)
    then show "?b ! (word + length ?s - 1 - t) \<noteq> BLANK" using w(3) by simp
    show "?b ! m = BLANK" if "word + length ?s - 1 - t < m" "m \<le> word + length ?s - 1" for m
      using that w(1) word by (auto simp: nth_append Suc_le_eq)
  qed (use w(1) word in \<open>cases w; simp\<close>)+
  let ?copy = "map (\<lambda>p. if word + 0 \<le> p \<and> p < word + (length w - 1) then ?b ! (p + i) else ?b ! p)
     [0..<length ?b]"
  have copy: "shift_word ?b word (int i) (int (length ?s) - 1 - int t) (int 0) = Inr ?copy"
    using w(1) word by (intro shift_word_copy) (auto simp: Suc_le_eq of_nat_diff)
  have "char_set ?copy (int (word + length w)) NUL = Inr (?copy[word + length w := NUL])"
    using word by (simp add: char_set_def nat_add_distrib del: upt_Suc)
  moreover have "?copy[word + length w := NUL] = pre @ trimmed i w @ NUL # drop (Suc (length w)) ?body"
  proof (rule shifted_buffer)
    show "trimmed i w ! q = (if q < length w - 1 then ?body ! (q + i) else ?body ! q)"
      if "q < length w" for q
      using that by (auto simp: trimmed_nth nth_append)
  qed (use w(1) word in \<open>simp_all add: length_trimmed\<close>)
  moreover have "int word + (int (length ?s) - 1 - int t) - int i + 1 = int (word + length w)"
    by simp
  ultimately show ?thesis
    using len i k copy by (simp add: removeWhiteSpaces_def Let_def del: upt_Suc)
qed

text \<open>
  \<open>removeWhiteSpaces\<close> on a word \<open>w\<close> with \<open>i\<close> blanks before and \<open>t\<close> blanks behind it: it
  returns, leaves the buffer before the word alone, and the word then reads \<open>w\<close> without
  the surrounding blanks except that its last character is the one the buffer held there
  before. The word is exactly \<open>w\<close> if there was no leading blank, and otherwise only if that
  older character happens to be the same.
\<close>

theorem removeWhiteSpaces_trims:
  assumes "w \<noteq> []" and "hd w \<noteq> BLANK" and "last w \<noteq> BLANK" and "NUL \<notin> set w"
    and buf_def: "buf = pre @ replicate i BLANK @ w @ replicate t BLANK @ NUL # post"
  shows "\<exists>buf'. removeWhiteSpaces buf (Some (length pre)) = Inr buf'
    \<and> length buf' = length buf \<and> take (length pre) buf' = pre
    \<and> c_str buf' (length pre) = butlast w @ [(replicate i BLANK @ w) ! (length w - 1)]
    \<and> (c_str buf' (length pre) = w \<longleftrightarrow> (replicate i BLANK @ w) ! (length w - 1) = last w)"
proof -
  define tail where
    "tail = drop (Suc (length w)) (replicate i BLANK @ w @ replicate t BLANK @ NUL # post)"
  let ?buf' = "pre @ trimmed i w @ NUL # tail"
  have "removeWhiteSpaces buf (Some (length pre)) = Inr ?buf'"
    unfolding buf_def tail_def using assms(1-4) by (intro removeWhiteSpaces_buffer) simp_all
  moreover have "length ?buf' = length buf" "take (length pre) ?buf' = pre"
    using assms(1) by (simp_all add: buf_def tail_def length_trimmed)
  moreover have str: "c_str ?buf' (length pre) = trimmed i w"
    using assms by (intro c_str_append NUL_notin_trimmed) simp_all
  moreover have "trimmed i w = w \<longleftrightarrow> stale_char i w = last w"
    using assms(1) by (cases w rule: rev_cases) (simp_all add: trimmed_def)
  ultimately show ?thesis
    by (intro exI [of _ ?buf']) (simp add: trimmed_def stale_char_def)
qed

theorem removeWhiteSpaces_trims_witness:
  "\<exists>buf'. removeWhiteSpaces ('' 82 '' @ [NUL]) (Some 0) = Inr buf' \<and> c_str buf' 0 = ''88''"
  using removeWhiteSpaces_trims [of "''82''" "'' 82 '' @ [NUL]" "[]" 1 1 "[]"] by (auto simp: numeral_2_eq_2)

subsection \<open>One configuration line\<close>

text \<open>A line \<open>key   -   value\<close>: \<open>a\<close> blanks behind the key, \<open>b\<close> blanks before the value.\<close>

definition config_line :: "string \<Rightarrow> nat \<Rightarrow> nat \<Rightarrow> string \<Rightarrow> char list" where
  "config_line key a b v = key @ replicate a BLANK @ CHR ''-'' # replicate b BLANK @ v"

definition plain_word :: "string \<Rightarrow> bool" where
  "plain_word w \<longleftrightarrow> w \<noteq> [] \<and> hd w \<noteq> BLANK \<and> last w \<noteq> BLANK \<and> NUL \<notin> set w \<and> CHR ''-'' \<notin> set w"

lemma strtok_key:
  assumes "plain_word key"
  shows "c_strtok CHR ''-'' (config_line key a b v @ [NUL]) 0 =
    (Some 0, key @ replicate a BLANK @ NUL # replicate b BLANK @ v @ [NUL], Suc (length key + a))"
proof -
  let ?k = "key @ replicate a BLANK"
  obtain c cs where key: "key = c # cs" "c \<noteq> CHR ''-''"
    using assms by (cases key) (auto simp: plain_word_def)
  have "takeWhile (\<lambda>c. c = CHR ''-'') (?k @ rest) = []" for rest
    using key by simp
  moreover have "takeWhile (\<lambda>c. c \<noteq> CHR ''-'' \<and> c \<noteq> NUL) (?k @ CHR ''-'' # rest) = ?k" for rest
    using assms by (subst takeWhile_append2) (auto simp: plain_word_def)
  moreover have "hd key \<noteq> NUL" using assms by (metis plain_word_def hd_in_set)
  ultimately show ?thesis
    using key by (simp add: c_strtok_def config_line_def Let_def nth_append list_update_append)
qed

lemma strtok_value:
  assumes "plain_word v" and "length pre = pos"
  shows "c_strtok CHR ''-'' (pre @ replicate b BLANK @ v @ [NUL]) pos =
    (Some pos, pre @ replicate b BLANK @ v @ [NUL], pos + b + length v)"
proof -
  let ?k = "replicate b BLANK @ v"
  have k: "?k \<noteq> []" "hd ?k \<noteq> CHR ''-''" "hd ?k \<noteq> NUL"
    using assms(1) by (cases b; cases v; auto simp: plain_word_def)+
  have "takeWhile (\<lambda>c. c = CHR ''-'') (?k @ [NUL]) = []"
    using k(1,2) by (cases ?k) simp_all
  moreover have "takeWhile (\<lambda>c. c \<noteq> CHR ''-'' \<and> c \<noteq> NUL) (?k @ [NUL]) = ?k"
    using assms by (subst takeWhile_append2) (auto simp: plain_word_def)
  moreover have "(pre @ ?k @ [NUL]) ! pos = hd ?k"
    using assms by (auto simp: nth_append hd_conv_nth hd_append plain_word_def)
  ultimately show ?thesis
    using k assms(2) by (simp add: c_strtok_def Let_def nth_append)
qed

text \<open>Reading a line comes down to the trimmed value.\<close>

lemma config_value_trimmed:
  assumes "plain_word v" and "length pre = pos"
  shows "config_value (pre @ replicate b BLANK @ v @ [NUL]) pos = Inr (trimmed b v)"
proof -
  have v: "v \<noteq> []" "hd v \<noteq> BLANK" "last v \<noteq> BLANK" "NUL \<notin> set v"
    using assms(1) by (simp_all add: plain_word_def)
  show ?thesis
    using removeWhiteSpaces_buffer [OF v assms(2), of b 0 "[]"]
      c_str_append [OF NUL_notin_trimmed [OF v(4,1)] assms(2)]
    by (simp add: config_value_def strtok_value [OF assms])
qed

lemma config_line_words:
  assumes "plain_word key" and "plain_word v"
  shows "\<exists>buf save. c_strtok CHR ''-'' (config_line key a b v @ [NUL]) 0 = (Some 0, buf, save)
    \<and> (\<exists>buf'. removeWhiteSpaces buf (Some 0) = Inr buf' \<and> c_str buf' 0 = key
         \<and> config_value buf' save = Inr (trimmed b v))"
proof -
  let ?rest = "replicate b BLANK @ v @ [NUL]"
  have key: "key \<noteq> []" "hd key \<noteq> BLANK" "last key \<noteq> BLANK" "NUL \<notin> set key"
    using assms(1) by (simp_all add: plain_word_def)
  let ?buf' = "key @ NUL # drop 1 (replicate a BLANK @ NUL # ?rest)"
  have "removeWhiteSpaces (key @ replicate a BLANK @ NUL # ?rest) (Some 0) = Inr ?buf'"
    using removeWhiteSpaces_buffer [OF key, of "[]" 0 0 a ?rest] key(1) by (simp add: trimmed_0)
  moreover have "c_str ?buf' 0 = key"
    using c_str_append [of key "[]"] key(4) by simp
  moreover obtain pre where pre: "?buf' = pre @ ?rest" "length pre = Suc (length key + a)"
    by (cases a) (auto intro: that [of "key @ NUL # replicate (a - 1) BLANK @ [NUL]"] that [of "key @ [NUL]"])
  then have "config_value ?buf' (Suc (length key + a)) = Inr (trimmed b v)"
    using config_value_trimmed [OF assms(2) pre(2), of b] by (simp only: pre(1))
  ultimately show ?thesis
    using strtok_key [OF assms(1), of a b v] by blast
qed

text \<open>The numeric keys and the field each one sets.\<close>

definition store_number :: "string \<Rightarrow> int \<Rightarrow> 'm InitialInfo \<Rightarrow> 'm InitialInfo" where
  "store_number key n info =
    (if key = ''frequency'' then info\<lparr>tuneFrequency := of_int n\<rparr>
     else if key = ''bandwidth'' then info\<lparr>tuneBandwidth := of_int n\<rparr>
     else info\<lparr>info_programNumber := of_int n\<rparr>)"

definition numeric_key :: "string \<Rightarrow> bool" where
  "numeric_key key \<longleftrightarrow> key \<in> {''frequency'', ''bandwidth'', ''program_number''}"

lemma loadConfigLine_number:
  assumes "numeric_key key" and "plain_word v" and "c_atoi (trimmed b v) = Inr n"
  shows "loadConfigLine m (config_line key a b v) info = Inr (Next_Line (store_number key n info))"
proof -
  have "plain_word key" using assms(1) by (auto simp: numeric_key_def plain_word_def)
  from config_line_words [OF this assms(2), of a b]
  obtain buf save buf' where "c_strtok CHR ''-'' (config_line key a b v @ [NUL]) 0 = (Some 0, buf, save)"
    "removeWhiteSpaces buf (Some 0) = Inr buf'" "c_str buf' 0 = key"
    "config_value buf' save = Inr (trimmed b v)"
    by blast
  then show ?thesis
    using assms(1,3) by (auto simp: loadConfigLine_def Let_def numeric_key_def store_number_def)
qed

lemma loadConfigLine_module:
  assumes "plain_word v"
  shows "loadConfigLine m (config_line ''module'' a b v) info =
    Inr (if trimmed b v = ''DVB_T'' then Not_Supported info else Next_Line (info\<lparr>tuneModule := m\<rparr>))"
proof -
  have "plain_word ''module''" by (simp add: plain_word_def)
  from config_line_words [OF this assms, of a b]
  obtain buf save buf' where "c_strtok CHR ''-'' (config_line ''module'' a b v @ [NUL]) 0 = (Some 0, buf, save)"
    "removeWhiteSpaces buf (Some 0) = Inr buf'" "c_str buf' 0 = ''module''"
    "config_value buf' save = Inr (trimmed b v)"
    by blast
  then show ?thesis by (simp add: loadConfigLine_def Let_def)
qed

text \<open>The number read from digits, \<open>t\<close> blanks and a newline, with \<open>b\<close> blanks in front.\<close>

definition number_read :: "nat \<Rightarrow> string \<Rightarrow> nat \<Rightarrow> int" where
  "number_read b ds t =
    (if t = 0 \<and> 0 < b \<and> b \<le> length ds then 10 * digits_value ds + digit_value (ds ! (length ds - b))
     else digits_value ds)"

lemma digits_plain:
  assumes "list_all is_digit ds" and "ds \<noteq> []"
  shows "plain_word (ds @ replicate t BLANK @ [NEWLINE])"
proof -
  have "is_digit (hd ds)" using assms by (cases ds) simp_all
  moreover have "NUL \<notin> set ds" "CHR ''-'' \<notin> set ds"
    using assms(1) is_digit_facts by (fastforce simp: list_all_iff)+
  ultimately show ?thesis
    using assms(2) is_digit_facts [of "hd ds"] by (auto simp: plain_word_def)
qed

lemma trimmed_digits:
  assumes "ds \<noteq> []"
  shows "trimmed b (ds @ replicate t BLANK @ [NEWLINE]) =
    (if t = 0 then ds @ [if b = 0 then NEWLINE else if b \<le> length ds then ds ! (length ds - b) else BLANK]
     else ds @ BLANK # replicate (t - 1) BLANK @ [stale_char b (ds @ replicate t BLANK @ [NEWLINE])])"
proof (cases t)
  case 0
  then show ?thesis by (auto simp: trimmed_def stale_char_def nth_append)
next
  case (Suc n)
  then show ?thesis by (simp add: trimmed_def butlast_append)
qed

lemma c_atoi_trimmed:
  assumes "list_all is_digit ds" and "ds \<noteq> []" and "number_read b ds t < 2 ^ 31"
  shows "c_atoi (trimmed b (ds @ replicate t BLANK @ [NEWLINE])) = Inr (number_read b ds t)"
proof (cases "t = 0 \<and> 0 < b \<and> b \<le> length ds")
  case True
  let ?c = "ds ! (length ds - b)"
  have "list_all is_digit (ds @ [?c])" using assms(1,2) True by (auto simp: list_all_iff)
  then show ?thesis
    using c_atoi_digits [of "ds @ [?c]" "[]"] assms(2,3) True
    by (simp add: trimmed_digits [of ds b 0, simplified] number_read_def digits_value_append1)
next
  case False
  have "\<not> is_digit BLANK" "\<not> is_digit NEWLINE" by (simp_all add: is_digit_def)
  then show ?thesis
    using c_atoi_digits [OF assms(1,2)] assms(2,3) False
    by (auto simp: trimmed_digits number_read_def)
qed

subsection \<open>The whole file\<close>

text \<open>
  The lines the loader is written for: a numeric key with its digits, or the module with
  a name, each followed by \<open>t\<close> blanks and a newline.
\<close>

datatype config_entry =
    Number_Line string nat nat string nat
  | Module_Line nat nat string nat

fun entry_line :: "config_entry \<Rightarrow> char list" where
  "entry_line (Number_Line key a b ds t) = config_line key a b (ds @ replicate t BLANK @ [NEWLINE])"
| "entry_line (Module_Line a b name t) = config_line ''module'' a b (name @ replicate t BLANK @ [NEWLINE])"

fun entry_ok :: "config_entry \<Rightarrow> bool" where
  "entry_ok (Number_Line key a b ds t) \<longleftrightarrow> numeric_key key \<and> list_all is_digit ds \<and> ds \<noteq> []
     \<and> number_read b ds t < 2 ^ 31"
| "entry_ok (Module_Line a b name t) \<longleftrightarrow> plain_word name \<and> NEWLINE \<notin> set name \<and> 0 < t"

fun store_entry :: "'m \<Rightarrow> 'm InitialInfo \<Rightarrow> config_entry \<Rightarrow> 'm InitialInfo" where
  "store_entry m info (Number_Line key a b ds t) = store_number key (number_read b ds t) info"
| "store_entry m info (Module_Line a b name t) = info\<lparr>tuneModule := m\<rparr>"

lemma plain_word_newline: "plain_word name \<Longrightarrow> plain_word (name @ replicate t BLANK @ [NEWLINE])"
  by (auto simp: plain_word_def)

lemma loadConfigLine_entry:
  assumes "entry_ok e"
  shows "loadConfigLine m (entry_line e) info = Inr (Next_Line (store_entry m info e))"
proof (cases e)
  case (Number_Line key a b ds t)
  then show ?thesis
    using assms by (simp add: loadConfigLine_number digits_plain c_atoi_trimmed)
next
  case (Module_Line a b name t)
  have "BLANK \<in> set (trimmed b (name @ replicate t BLANK @ [NEWLINE]))"
    using assms Module_Line by (simp add: trimmed_def butlast_append)
  then have "trimmed b (name @ replicate t BLANK @ [NEWLINE]) \<noteq> ''DVB_T''" by auto
  then show ?thesis
    using assms Module_Line by (simp add: loadConfigLine_module plain_word_newline)
qed

lemma entry_line_newline:
  assumes "entry_ok e"
  obtains l where "entry_line e = l @ [NEWLINE]" "NEWLINE \<notin> set l"
proof (cases e)
  case (Number_Line key a b ds t)
  have "NEWLINE \<notin> set ds" using assms Number_Line is_digit_facts by (fastforce simp: list_all_iff)
  then show ?thesis
    using assms Number_Line that [of "key @ replicate a BLANK @ CHR ''-'' # replicate b BLANK @ ds @ replicate t BLANK"]
    by (auto simp: config_line_def numeric_key_def)
next
  case (Module_Line a b name t)
  then show ?thesis
    using assms that [of "''module'' @ replicate a BLANK @ CHR ''-'' # replicate b BLANK @ name @ replicate t BLANK"]
    by (auto simp: config_line_def)
qed

lemma fgets_entry:
  assumes "entry_ok e" and "length (entry_line e) < LINE_LENGTH"
  shows "c_fgets LINE_LENGTH (entry_line e @ rest) = Some (entry_line e, rest)"
proof -
  obtain l where l: "entry_line e = l @ [NEWLINE]" "NEWLINE \<notin> set l"
    using entry_line_newline [OF assms(1)] .
  then show ?thesis
    using line_split_line [OF l(2), of 99 rest] assms(2) by (simp add: c_fgets_def LINE_LENGTH_def)
qed

lemma loadConfigLines_entries:
  assumes "\<forall>e \<in> set es. entry_ok e \<and> length (entry_line e) < LINE_LENGTH"
  shows "loadConfigLines m (concat (map entry_line es) @ rest) info =
    loadConfigLines m rest (foldl (store_entry m) info es)"
  using assms
proof (induction es arbitrary: info)
  case (Cons e es)
  then show ?case
    by (simp add: loadConfigLines.simps [of m "entry_line e @ _"] fgets_entry loadConfigLine_entry)
qed simp

text \<open>
  C25. A configuration file made of such lines, each shorter than the line buffer, is
  loaded without a fault: \<open>SC_NO_ERROR\<close>, the file closed, every field holding the last
  value given for it. A number is read exactly when at least one blank stands between its
  last digit and the newline or none between the dash and its first digit; with \<open>b\<close> blanks
  in front and none behind, the \<open>b\<close>-th digit from the end is appended to it. Every module
  name is accepted as DVB-T.
\<close>

theorem loadConfigFile_entries:
  assumes "\<forall>e \<in> set es. entry_ok e \<and> length (entry_line e) < LINE_LENGTH"
  shows "loadConfigFile m (Some (concat (map entry_line es))) info =
    Inr (SC_NO_ERROR, foldl (store_entry m) info es, 0)"
  using loadConfigLines_entries [OF assms, of m "[]"]
  by (simp add: loadConfigFile_def loadConfigLines.simps [of m "[]"] c_fgets_def)

definition config_ini :: "config_entry list" where
  "config_ini = [Number_Line ''frequency'' 7 1 ''754000000'' 3, Number_Line ''bandwidth'' 7 1 ''8'' 3,
     Module_Line 10 1 ''DVB_T'' 3, Number_Line ''program_number'' 2 1 ''2'' 3]"

lemma config_ini_ok:
  "\<forall>e \<in> set config_ini. entry_ok e \<and> length (entry_line e) < LINE_LENGTH"
  by (auto simp: config_ini_def config_line_def LINE_LENGTH_def numeric_key_def number_read_def
      is_digit_def digits_value_def digit_value_def plain_word_def)

text \<open>The file config.ini of the repository.\<close>

theorem loadConfigFile_entries_witness:
  "loadConfigFile (7 :: nat) (Some (
     ''frequency       - 754000000   '' @ [NEWLINE] @ ''bandwidth       - 8   '' @ [NEWLINE] @
     ''module          - DVB_T   '' @ [NEWLINE] @ ''program_number  - 2   '' @ [NEWLINE]))
     \<lparr>tuneFrequency = 0, tuneBandwidth = 0, info_programNumber = 0, tuneModule = 0\<rparr> =
   Inr (SC_NO_ERROR,
     \<lparr>tuneFrequency = 754000000, tuneBandwidth = 8, info_programNumber = 2, tuneModule = 7\<rparr>, 0)"
  using loadConfigFile_entries [OF config_ini_ok, of "7 :: nat"
      "\<lparr>tuneFrequency = 0, tuneBandwidth = 0, info_programNumber = 0, tuneModule = 0\<rparr>"]
  by (simp add: config_ini_def config_line_def store_number_def number_read_def digits_value_def
      digit_value_def eval_nat_numeral)

text \<open>
  The test of the module name is inverted: the exact word \<open>DVB_T\<close> directly behind the
  dash, at the end of the file, is answered with \<open>SC_ERROR\<close>, and the file stays open.
  The fields of the lines before it have been stored.
\<close>

theorem loadConfigFile_refuses_exact_DVB_T:
  assumes "\<forall>e \<in> set es. entry_ok e \<and> length (entry_line e) < LINE_LENGTH" and "a \<le> 80"
  shows "loadConfigFile m (Some (concat (map entry_line es) @ config_line ''module'' a 0 ''DVB_T'')) info =
    Inr (SC_ERROR, foldl (store_entry m) info es, 1)"
proof -
  let ?l = "config_line ''module'' a 0 ''DVB_T''"
  have "line_split 99 ?l = (?l, [])"
    using line_split_all [of ?l 99] assms(2) by (simp add: config_line_def)
  then have "c_fgets LINE_LENGTH ?l = Some (?l, [])"
    by (simp add: c_fgets_def LINE_LENGTH_def) (simp add: config_line_def)
  moreover have "plain_word ''DVB_T''" by (simp add: plain_word_def)
  ultimately show ?thesis
    using loadConfigLines_entries [OF assms(1), of m ?l]
    by (simp add: loadConfigFile_def loadConfigLines.simps [of m ?l] loadConfigLine_module trimmed_0)
qed

theorem loadConfigFile_refuses_exact_DVB_T_witness:
  "loadConfigFile (7 :: nat) (Some ''module-DVB_T'')
     \<lparr>tuneFrequency = 0, tuneBandwidth = 0, info_programNumber = 0, tuneModule = 0\<rparr> =
   Inr (SC_ERROR, \<lparr>tuneFrequency = 0, tuneBandwidth = 0, info_programNumber = 0, tuneModule = 0\<rparr>, 1)"
  using loadConfigFile_refuses_exact_DVB_T [of "[]" 0 "7 :: nat"] by (simp add: config_line_def)

end
