(* ===== verification/Table_Loop.thy ===== *)
theory Table_Loop
  imports Prelude
begin

section \<open>The contract of a section's entry loop\<close>

text \<open>
  PAT and PMT sections are parsed by the same kind of loop: entries are read at a moving
  position while the parsed length is below the section length, and the loop gives up
  when the table's array is full. This theory holds the result codes of the table
  parsers and the interface \<open>table_loop\<close> of such a loop. What the loop
  does (safety, capacity, round trip, agreement with a list-based reference) is proved
  once here and instantiated by the theories of the PAT and the PMT.
\<close>

datatype ParseErrorCode = TABLES_PARSE_ERROR | TABLES_PARSE_OK

text \<open>
  The parameters of the contract: \<open>loop\<close> is the loop itself (position, parsed
  length, table), \<open>entry\<close> reads one entry, which covers \<open>esize\<close> bytes of the section
  and of which at most \<open>width\<close> bytes are read; \<open>push\<close> appends an entry to the table,
  \<open>limit\<close> is the section length it records, \<open>count\<close> the number of entries stored,
  \<open>cap\<close> the capacity of the array.
\<close>

locale table_loop =
  fixes loop :: "byte_ptr \<Rightarrow> u32 \<Rightarrow> 't \<Rightarrow> (ParseErrorCode \<times> 't) c_res"
    and entry :: "byte_ptr \<Rightarrow> 'e c_res"
    and esize :: "'e \<Rightarrow> nat"
    and width :: nat
    and push :: "'t \<Rightarrow> 'e \<Rightarrow> 't"
    and limit :: "'t \<Rightarrow> u16"
    and count :: "'t \<Rightarrow> nat"
    and cap :: nat
    and wf :: "'t \<Rightarrow> bool"
  assumes loop_unfold: "wf t \<Longrightarrow> loop p n t =
      (if n < ucast (limit t) then
         if cap \<le> count t then Inr (TABLES_PARSE_ERROR, t)
         else c_bind (entry p)
                (\<lambda>e. loop (ptr_add p (esize e)) (n + of_nat (esize e)) (push t e))
       else Inr (TABLES_PARSE_OK, t))"
    and wf_push: "wf t \<Longrightarrow> count t < cap \<Longrightarrow> wf (push t e)"
    and limit_push: "limit (push t e) = limit t"
    and count_push: "wf t \<Longrightarrow> count t < cap \<Longrightarrow> count (push t e) = Suc (count t)"
    and wf_count: "wf t \<Longrightarrow> count t \<le> cap"
    and esize_small: "entry p = Inr e \<Longrightarrow> esize e < 65536"
    and entry_in: "o' + width \<le> length bs \<Longrightarrow> no_fault (entry (bs, o'))"
    and width_le: "width \<le> 5"
begin

text \<open>The parsed length never wraps around: it is below the section length when it grows.\<close>

lemma advance_unat:
  assumes "n < ucast (limit t)" and "k < 65536"
  shows "unat (n + of_nat k :: u32) = unat n + k"
proof -
  have "unat n < 65536"
    using assms(1) less_trans [OF _ unat_u16_less] by (simp add: word_less_nat_alt)
  then show ?thesis
    using assms(2) by (simp add: unat_word_ariths unsigned_of_nat take_bit_eq_mod)
qed

lemma in_section: "n < ucast (limit t) \<longleftrightarrow> unat n < unat (limit t)" for n :: u32
  by (simp add: word_less_nat_alt)

text \<open>Induction along the loop: each round uses up one slot of the array.\<close>

lemma loop_induct:
  assumes stop: "\<And>p n t. wf t \<Longrightarrow> unat (limit t) \<le> unat n \<Longrightarrow> P p n t"
    and full: "\<And>p n t. wf t \<Longrightarrow> unat n < unat (limit t) \<Longrightarrow> count t = cap \<Longrightarrow> P p n t"
    and step: "\<And>p n t. \<lbrakk>wf t; unat n < unat (limit t); count t < cap;
        \<And>e. entry p = Inr e \<Longrightarrow> P (ptr_add p (esize e)) (n + of_nat (esize e)) (push t e)\<rbrakk>
        \<Longrightarrow> P p n t"
    and t: "wf t"
  shows "P p n t"
  using t
proof (induction "cap - count t" arbitrary: p n t rule: less_induct)
  case less
  show ?case
  proof (cases "unat n < unat (limit t) \<and> count t < cap")
    case True
    then have "P (ptr_add p (esize e)) (n + of_nat (esize e)) (push t e)" for e
      using less.prems by (intro less.hyps) (auto simp: count_push wf_push)
    then show ?thesis using True less.prems step by blast
  next
    case False
    then show ?thesis
      using stop full wf_count less.prems by (metis le_neq_implies_less not_le)
  qed
qed

text \<open>
  Safety: entered at the position that matches the parsed length, the loop reads only
  bytes of the section, so a buffer that holds the whole section is never overrun.
\<close>

lemma loop_safe:
  assumes "wf t" and "snd p + 1 = unat n" and "3 + unat (limit t) \<le> length (fst p)"
  shows "\<exists>rc t'. loop p n t = Inr (rc, t') \<and> wf t' \<and> limit t' = limit t"
  using assms
proof (induction p n t rule: loop_induct)
  case (1 p n t)
  then show ?case by (simp add: loop_unfold in_section)
next
  case (2 p n t)
  then show ?case by (simp add: loop_unfold in_section)
next
  case (3 p n t)
  have "snd p + width \<le> length (fst p)"
    using 3 width_le by linarith
  then obtain e where e: "entry p = Inr e"
    using entry_in [of "snd p" "fst p"] by (auto simp: no_fault_iff)
  have n': "unat (n + of_nat (esize e)) = unat n + esize e"
    using 3 esize_small [OF e] by (intro advance_unat) (simp_all add: in_section)
  have "\<exists>rc t'. loop (ptr_add p (esize e)) (n + of_nat (esize e)) (push t e) = Inr (rc, t')
      \<and> wf t' \<and> limit t' = limit (push t e)"
    using 3 e n' by (intro "3"(4)) (simp_all add: limit_push wf_push)
  then show ?case
    using 3 e by (simp add: loop_unfold [of t p n] in_section limit_push)
qed (use assms in simp)

text \<open>
  The reference: the table that results from appending a list of entries, and what the
  loop does on a section that carries them. An \<open>'x\<close> is an entry as transmitted, \<open>enc\<close>
  its bytes and \<open>dec\<close> the part of it that the table keeps.
\<close>

lemma loop_roundtrip:
  assumes "wf t"
    and dec: "\<And>x pre suf. x \<in> set xs \<Longrightarrow> entry (pre @ enc x @ suf, length pre) = Inr (dec x)"
    and size: "\<And>x. x \<in> set xs \<Longrightarrow> length (enc x) = esize (dec x) \<and> 0 < esize (dec x)"
    and "unat n + (\<Sum>x\<leftarrow>xs. esize (dec x)) = unat (limit t)"
  shows "loop (pre @ concat (map enc xs) @ suf, length pre) n t =
     Inr (if count t + length xs \<le> cap then TABLES_PARSE_OK else TABLES_PARSE_ERROR,
          foldl push t (take (cap - count t) (map dec xs)))"
  using assms
proof (induction xs arbitrary: pre n t)
  case Nil
  then show ?case using wf_count [of t] by (simp add: loop_unfold in_section)
next
  case (Cons x xs)
  have more: "unat n < unat (limit t)"
    using Cons.prems(3) [of x] Cons.prems(4) by simp
  show ?case
  proof (cases "count t < cap")
    case False
    then have "count t = cap" using wf_count [OF Cons.prems(1)] by simp
    then show ?thesis
      using Cons.prems(1) more by (simp add: loop_unfold in_section)
  next
    case True
    define e where "e = dec x"
    have x: "length (enc x) = esize e" and
      ent: "entry (pre @ enc x @ (concat (map enc xs) @ suf), length pre) = Inr e"
      using Cons.prems(2,3) by (simp_all add: e_def)
    have n': "unat (n + of_nat (esize e)) = unat n + esize e"
      using more esize_small [OF ent] by (intro advance_unat) (simp_all add: in_section)
    have "loop ((pre @ enc x) @ concat (map enc xs) @ suf, length (pre @ enc x))
        (n + of_nat (esize e)) (push t e) =
      Inr (if count (push t e) + length xs \<le> cap then TABLES_PARSE_OK else TABLES_PARSE_ERROR,
           foldl push (push t e) (take (cap - count (push t e)) (map dec xs)))"
      using Cons.prems True n' e_def
      by (intro Cons.IH) (simp_all add: wf_push limit_push)
    moreover have "cap - count t = Suc (cap - Suc (count t))"
      using True by simp
    ultimately show ?thesis
      using Cons.prems(1) more True ent x
      by (simp add: loop_unfold [of t] in_section count_push ptr_add_def e_def [symmetric])
  qed
qed

text \<open>
  Whatever the bytes are, a run that returns has appended at most \<open>cap\<close> entries, and it
  reports success exactly when it has passed the section length.
\<close>

lemma loop_result:
  assumes "wf t" and "loop p n t = Inr (rc, t')"
  shows "wf t' \<and> limit t' = limit t \<and> count t \<le> count t' \<and> (rc = TABLES_PARSE_ERROR \<longrightarrow> count t' = cap)"
  using assms(2,1)
proof (induction p n t rule: loop_induct)
  case (1 p n t)
  then show ?case by (auto simp: loop_unfold in_section)
next
  case (2 p n t)
  then show ?case by (auto simp: loop_unfold in_section)
next
  case (3 p n t)
  from 3 obtain e where e: "entry p = Inr e"
    and l: "loop (ptr_add p (esize e)) (n + of_nat (esize e)) (push t e) = Inr (rc, t')"
    by (auto simp: loop_unfold [of t p n] in_section c_bind_eq_Inr)
  show ?case
    using "3"(4) [OF e l] 3 by (simp add: wf_push limit_push count_push)
qed (use assms in simp)

text \<open>
  A property of the table that storing an entry read from the buffer keeps holds of the table
  the loop leaves behind, whether it reports success or not.
\<close>

lemma loop_keeps:
  assumes "wf t" and "loop p n t = Inr (rc, t')" and "I t"
    and step: "\<And>p e t. wf t \<Longrightarrow> count t < cap \<Longrightarrow> entry p = Inr e \<Longrightarrow> I t \<Longrightarrow> I (push t e)"
  shows "I t'"
  using assms(2,3,1)
proof (induction p n t rule: loop_induct)
  case (1 p n t)
  then show ?case by (auto simp: loop_unfold in_section)
next
  case (2 p n t)
  then show ?case by (auto simp: loop_unfold in_section)
next
  case (3 p n t)
  from 3 obtain e where e: "entry p = Inr e"
    and l: "loop (ptr_add p (esize e)) (n + of_nat (esize e)) (push t e) = Inr (rc, t')"
    by (auto simp: loop_unfold [of t p n] in_section c_bind_eq_Inr)
  show ?case
    using "3"(4) [OF e l] 3 step [OF _ _ e] by (simp add: wf_push)
qed (use assms in simp)

end

text \<open>
  Appending to a fixed-size array with an element count: \<open>put a c t\<close> is the table \<open>t\<close>
  with its array and its count replaced.
\<close>

locale array_push =
  fixes push :: "'t \<Rightarrow> 'e \<Rightarrow> 't"
    and arr :: "'t \<Rightarrow> 'e list"
    and cnt :: "'t \<Rightarrow> u8"
    and put :: "'e list \<Rightarrow> u8 \<Rightarrow> 't \<Rightarrow> 't"
    and cap :: nat
  assumes push_put: "push t e = put ((arr t)[unat (cnt t) := e]) (cnt t + 1) t"
    and arr_put: "arr (put a c t) = a"
    and cnt_put: "cnt (put a c t) = c"
    and put_put: "put a c (put a' c' t) = put a c t"
    and put_same: "put (arr t) (cnt t) t = t"
    and cap_u8: "cap < 256"
begin

lemma foldl_push:
  assumes "length (arr t) = cap" and "unat (cnt t) + length es \<le> cap"
  shows "foldl push t es = put (take (unat (cnt t)) (arr t) @ es @ drop (unat (cnt t) + length es) (arr t))
           (cnt t + of_nat (length es)) t"
  using assms
proof (induction es arbitrary: t)
  case Nil
  then show ?case by (simp add: put_same)
next
  case (Cons e es)
  let ?c = "unat (cnt t)"
  have c: "?c < length (arr t)" and c': "unat (cnt t + 1) = Suc ?c"
    using Cons.prems cap_u8 by (simp_all add: unat_Suc_u8)
  have "foldl push (push t e) es =
      put (take (Suc ?c) ((arr t)[?c := e]) @ es @ drop (Suc (?c + length es)) ((arr t)[?c := e]))
        (cnt t + 1 + of_nat (length es)) t"
    using Cons.prems Cons.IH [of "push t e"] c'
    by (simp add: push_put [of t e] arr_put cnt_put put_put)
  then show ?case
    using c by (simp add: take_Suc_conv_app_nth ac_simps)
qed

lemma foldl_push_fresh:
  assumes "length (arr t) = cap" and "cnt t = 0"
  shows "foldl push t (take cap es) =
    put (take cap es @ drop (length es) (arr t)) (of_nat (min cap (length es))) t"
  using assms foldl_push [of t "take cap es"]
  by (cases "length es \<le> cap") (simp_all add: min_def)

end

end
