(* ===== verification/Section_Codec.thy ===== *)
theory Section_Codec
  imports Prelude
begin

section \<open>Bit layout shared by the sections\<close>

text \<open>
  The bytes that ISO/IEC 13818-1 and EN 300 468 prescribe for the fields PAT, PMT, TDT and
  TOT sections have in common, with their marker bits, and the proof that the
  shifts and masks of the parsers recover each field. Sections built from these are
  what the round-trip properties of the parsers quantify over.
\<close>

text \<open>\<open>section_syntax_indicator\<close> (1 bit), a zero bit, two reserved bits, 12 bits of length.\<close>

definition section_word :: "u8 \<Rightarrow> u16 \<Rightarrow> u16" where
  "section_word syntax len = of_nat (32768 * unat syntax + 0x3000 + unat len)"

definition section_start :: "u8 \<Rightarrow> u8 \<Rightarrow> u16 \<Rightarrow> u8 list" where
  "section_start tableId syntax len =
     [tableId, hi8 (section_word syntax len), lo8 (section_word syntax len)]"

text \<open>Two reserved bits, five bits of version, \<open>current_next_indicator\<close>.\<close>

definition version_byte :: "u8 \<Rightarrow> u8 \<Rightarrow> u8" where
  "version_byte version current_next = of_nat (0xC0 + 2 * unat version + unat current_next)"

text \<open>Three reserved bits and a 13-bit PID; four reserved bits and a 12-bit length.\<close>

definition pid_word :: "u16 \<Rightarrow> u16" where
  "pid_word pid = of_nat (0xE000 + unat pid)"

definition length_word :: "u16 \<Rightarrow> u16" where
  "length_word len = of_nat (0xF000 + unat len)"

lemma unat_section_word:
  assumes "unat syn < 2" and "unat len < 4096"
  shows "unat (section_word syn len) = 32768 * unat syn + 0x3000 + unat len"
  using assms unfolding section_word_def by (intro unat_of_nat_u16) linarith

lemma section_word_syntax [simp, field_simps_be]:
  assumes "unat syn < 2" and "unat len < 4096"
  shows "drop_bit 7 (hi8 (section_word syn len)) AND 0x01 = syn"
proof -
  have "unat syn = 0 \<or> unat syn = 1"
    using assms(1) by linarith
  then have "unat (drop_bit 7 (hi8 (section_word syn len)) AND 0x01) = unat syn"
    using assms(2)
    by (simp only: field_simps_be unat_hi8 unat_section_word [OF assms]) auto
  then show ?thesis by (simp add: word_unat_eq_iff)
qed

lemma section_word_length [simp, field_simps_be]:
  assumes "unat syn < 2" and "unat len < 4096"
  shows "section_word syn len AND 0x0FFF = len"
  using assms mod_mult_self3 [of "8 * unat syn + 3" 4096 "unat len"]
  by (simp add: word_unat_eq_iff unat_mask12 unat_section_word)

lemma unat_version_byte:
  assumes "unat v < 32" and "unat c < 2"
  shows "unat (version_byte v c) = 0xC0 + 2 * unat v + unat c"
  using assms unfolding version_byte_def by (intro unat_of_nat_u8) linarith

lemma version_byte_version [simp, field_simps_be]:
  assumes "unat v < 32" and "unat c < 2"
  shows "drop_bit (Suc 0) (version_byte v c) AND 0x1F = v"
proof -
  have "(0xC0 + 2 * unat v + unat c) div 2 = 32 * 3 + unat v"
    using assms(2) by linarith
  then have "unat (drop_bit 1 (version_byte v c) AND 0x1F) = (32 * 3 + unat v) mod 32"
    by (simp only: field_simps_be unat_version_byte [OF assms] power_one_right)
  then show ?thesis
    using assms(1) mod_offset [of 96 3 32 "unat v"] by (simp add: word_unat_eq_iff)
qed

lemma version_byte_current_next [simp, field_simps_be]:
  assumes "unat v < 32" and "unat c < 2"
  shows "version_byte v c AND 0x01 = c"
proof -
  have "unat (version_byte v c AND 0x01) = (0xC0 + 2 * unat v + unat c) mod 2"
    by (simp only: field_simps_be unat_version_byte [OF assms])
  then show ?thesis
    using assms(2) by (simp add: word_unat_eq_iff) presburger
qed

lemma pid_word_pid [simp, field_simps_be]:
  assumes "unat pid < 8192"
  shows "pid_word pid AND 0x1FFF = pid"
proof -
  have "unat (pid_word pid) = 57344 + unat pid"
    using assms unfolding pid_word_def by (subst unat_of_nat_u16) simp_all
  then show ?thesis
    using assms mod_offset [of 57344 7 8192 "unat pid"] by (simp add: word_unat_eq_iff unat_mask13)
qed

lemma length_word_length [simp, field_simps_be]:
  assumes "unat len < 4096"
  shows "length_word len AND 0x0FFF = len"
proof -
  have "unat (length_word len) = 61440 + unat len"
    using assms unfolding length_word_def by (subst unat_of_nat_u16) simp_all
  then show ?thesis
    using assms mod_offset [of 61440 15 4096 "unat len"] by (simp add: word_unat_eq_iff unat_mask12)
qed

end
