(* ===== verification/Tables_Pat.thy ===== *)
theory Tables_Pat
  imports Table_Loop Section_Codec
begin

section \<open>The Program Association Table (tables.h, tables\_parser.c)\<close>

text \<open>
  The structures of a PAT, the parsers of its header, of one service entry and of the whole
  section, and their correctness: the loop meets the contract \<open>table_loop\<close>; a
  section buffer that holds the announced section is never read out of bounds; parsing
  the bytes of a section gives back the fields they were built from, up to the
  capacity of the table.
\<close>

subsection \<open>Structures\<close>

definition TABLES_MAX_NUMBER_OF_PIDS_IN_PAT :: nat where
  "TABLES_MAX_NUMBER_OF_PIDS_IN_PAT = 20"

record PatHeader =
  pat_tableId :: u8
  pat_sectionSyntaxIndicator :: u8
  pat_sectionLength :: u16
  pat_transportStreamId :: u16
  pat_versionNumber :: u8
  pat_currentNextIndicator :: u8
  pat_sectionNumber :: u8
  pat_lastSectionNumber :: u8

record PatServiceInfo =
  pat_programNumber :: u16
  pat_pid :: u16

record PatTable =
  patHeader :: PatHeader
  patServiceInfoArray :: "PatServiceInfo list"
  serviceInfoCount :: u8

subsection \<open>Parsers\<close>

text \<open>
  An out-parameter \<open>T *p\<close> is \<open>None\<close> for \<open>NULL\<close> and \<open>Some x\<close> for a pointer to a
  structure that holds \<open>x\<close> before the call; the result carries what it holds after it.
\<close>

definition parsePatHeader ::
  "byte_ptr option \<Rightarrow> PatHeader option \<Rightarrow> (ParseErrorCode \<times> PatHeader option) c_res" where
  "parsePatHeader patHeaderBuffer header =
    (case (patHeaderBuffer, header) of
       (Some buf, Some h) \<Rightarrow>
         c_bind (deref buf 0) (\<lambda>b0.
         let h = h\<lparr>pat_tableId := b0\<rparr> in
         if pat_tableId h \<noteq> 0x00 then Inr (TABLES_PARSE_ERROR, Some h)
         else
         c_bind (deref buf 1) (\<lambda>b1.
         let h = h\<lparr>pat_sectionSyntaxIndicator := drop_bit 7 b1 AND 0x01\<rparr> in
         c_bind (deref buf 2) (\<lambda>b2.
         let h = h\<lparr>pat_sectionLength := be16 b1 b2 AND 0x0FFF\<rparr> in
         c_bind (deref buf 3) (\<lambda>b3.
         c_bind (deref buf 4) (\<lambda>b4.
         let h = h\<lparr>pat_transportStreamId := be16 b3 b4 AND 0xFFFF\<rparr> in
         c_bind (deref buf 5) (\<lambda>b5.
         let h = h\<lparr>pat_versionNumber := drop_bit 1 b5 AND 0x1F\<rparr> in
         let h = h\<lparr>pat_currentNextIndicator := b5 AND 0x01\<rparr> in
         c_bind (deref buf 6) (\<lambda>b6.
         let h = h\<lparr>pat_sectionNumber := b6 AND 0xFF\<rparr> in
         c_bind (deref buf 7) (\<lambda>b7.
         let h = h\<lparr>pat_lastSectionNumber := b7 AND 0xFF\<rparr> in
         Inr (TABLES_PARSE_OK, Some h)))))))))
     | _ \<Rightarrow> Inr (TABLES_PARSE_ERROR, header))"

definition parsePatServiceInfo ::
  "byte_ptr option \<Rightarrow> PatServiceInfo option \<Rightarrow> (ParseErrorCode \<times> PatServiceInfo option) c_res" where
  "parsePatServiceInfo patServiceInfoBuffer patServiceInfo =
    (case (patServiceInfoBuffer, patServiceInfo) of
       (Some buf, Some s) \<Rightarrow>
         c_bind (deref buf 0) (\<lambda>b0.
         c_bind (deref buf 1) (\<lambda>b1.
         let s = s\<lparr>pat_programNumber := be16 b0 b1 AND 0xFFFF\<rparr> in
         c_bind (deref buf 2) (\<lambda>b2.
         c_bind (deref buf 3) (\<lambda>b3.
         let s = s\<lparr>pat_pid := be16 b2 b3 AND 0x1FFF\<rparr> in
         Inr (TABLES_PARSE_OK, Some s)))))
     | _ \<Rightarrow> Inr (TABLES_PARSE_ERROR, patServiceInfo))"

text \<open>
  The loop of \<open>parsePatTable\<close>. The slot \<open>&patServiceInfoArray[serviceInfoCount]\<close> is
  read, handed to the entry parser and written back. If that parser failed, the loop would
  repeat the same round for ever.
\<close>

function parsePatTable_loop ::
  "byte_ptr \<Rightarrow> u32 \<Rightarrow> PatTable \<Rightarrow> (ParseErrorCode \<times> PatTable) c_res" where
  "parsePatTable_loop currentBufferPosition parsedLength patTable =
    (if parsedLength < ucast (pat_sectionLength (patHeader patTable)) then
       if unat (serviceInfoCount patTable) > TABLES_MAX_NUMBER_OF_PIDS_IN_PAT - 1
       then Inr (TABLES_PARSE_ERROR, patTable)
       else
         c_bind (array_get (patServiceInfoArray patTable) (unat (serviceInfoCount patTable))) (\<lambda>slot.
         c_bind (parsePatServiceInfo (Some currentBufferPosition) (Some slot)) (\<lambda>(rc, info).
         c_bind (array_set (patServiceInfoArray patTable) (unat (serviceInfoCount patTable))
                   (case info of Some s \<Rightarrow> s | None \<Rightarrow> slot)) (\<lambda>arr.
         if rc = TABLES_PARSE_OK
         then parsePatTable_loop (ptr_add currentBufferPosition 4) (parsedLength + 4)
                (patTable\<lparr>patServiceInfoArray := arr,
                          serviceInfoCount := serviceInfoCount patTable + 1\<rparr>)
         else Inl Endless_Loop)))
     else Inr (TABLES_PARSE_OK, patTable))"
  by pat_completeness auto
termination
  by (relation "measure (\<lambda>(p, n, t). 256 - unat (serviceInfoCount t))")
    (auto simp: TABLES_MAX_NUMBER_OF_PIDS_IN_PAT_def unat_Suc_u8)

declare parsePatTable_loop.simps [simp del]

definition parsePatTable ::
  "byte_ptr option \<Rightarrow> PatTable option \<Rightarrow> (ParseErrorCode \<times> PatTable option) c_res" where
  "parsePatTable patSectionBuffer patTable =
    (case (patSectionBuffer, patTable) of
       (Some buf, Some t) \<Rightarrow>
         c_bind (parsePatHeader (Some buf) (Some (patHeader t))) (\<lambda>(rc, h).
         let t = (case h of Some h \<Rightarrow> t\<lparr>patHeader := h\<rparr> | None \<Rightarrow> t) in
         if rc \<noteq> TABLES_PARSE_OK then Inr (TABLES_PARSE_ERROR, Some t)
         else
           c_bind (parsePatTable_loop (ptr_add buf 8) (12 - 3) (t\<lparr>serviceInfoCount := 0\<rparr>))
             (\<lambda>(rc, t). Inr (rc, Some t)))
     | _ \<Rightarrow> Inr (TABLES_PARSE_ERROR, patTable))"

subsection \<open>The loop meets its contract\<close>

definition wf_pat :: "PatTable \<Rightarrow> bool" where
  "wf_pat t \<longleftrightarrow> length (patServiceInfoArray t) = TABLES_MAX_NUMBER_OF_PIDS_IN_PAT
     \<and> unat (serviceInfoCount t) \<le> TABLES_MAX_NUMBER_OF_PIDS_IN_PAT"

text \<open>What one entry contributes, whatever the slot held before, and the table after it.\<close>

definition pat_entry :: "byte_ptr \<Rightarrow> PatServiceInfo c_res" where
  "pat_entry p =
     c_bind (deref p 0) (\<lambda>b0. c_bind (deref p 1) (\<lambda>b1.
     c_bind (deref p 2) (\<lambda>b2. c_bind (deref p 3) (\<lambda>b3.
     Inr \<lparr>pat_programNumber = be16 b0 b1, pat_pid = be16 b2 b3 AND 0x1FFF\<rparr>))))"

definition pat_push :: "PatTable \<Rightarrow> PatServiceInfo \<Rightarrow> PatTable" where
  "pat_push t e = t\<lparr>patServiceInfoArray := (patServiceInfoArray t)[unat (serviceInfoCount t) := e],
                    serviceInfoCount := serviceInfoCount t + 1\<rparr>"

lemma pat_push_simps [simp]:
  "patHeader (pat_push t e) = patHeader t"
  "patServiceInfoArray (pat_push t e) = (patServiceInfoArray t)[unat (serviceInfoCount t) := e]"
  "serviceInfoCount (pat_push t e) = serviceInfoCount t + 1"
  by (simp_all add: pat_push_def)

lemma parsePatServiceInfo_entry:
  "parsePatServiceInfo (Some p) (Some s) = c_bind (pat_entry p) (\<lambda>e. Inr (TABLES_PARSE_OK, Some e))"
  by (cases s) (simp add: parsePatServiceInfo_def pat_entry_def c_bind_assoc Let_def)

text \<open>The entry parser never fails on the arguments the loop hands it, so the loop ends.\<close>

lemma parsePatTable_loop_ends: "memory_only (parsePatTable_loop p n t)"
proof (induction p n t rule: parsePatTable_loop.induct)
  case (1 p n t)
  have "memory_only (pat_entry p)" by (auto simp: pat_entry_def intro!: memory_only_bind)
  then show ?case
    using 1 by (subst parsePatTable_loop.simps)
      (auto simp: parsePatServiceInfo_entry c_bind_assoc intro!: memory_only_bind)
qed

lemma parsePatTable_ends: "memory_only (parsePatTable p t)"
proof -
  have "memory_only (parsePatHeader q h)" for q h
    by (auto simp: parsePatHeader_def Let_def split: option.splits intro!: memory_only_bind)
  then show ?thesis
    by (auto simp: parsePatTable_def Let_def parsePatTable_loop_ends split: option.splits intro!: memory_only_bind)
qed

lemma parsePatTable_loop_unfold:
  assumes "wf_pat t"
  shows "parsePatTable_loop p n t =
    (if n < ucast (pat_sectionLength (patHeader t)) then
       if TABLES_MAX_NUMBER_OF_PIDS_IN_PAT \<le> unat (serviceInfoCount t) then Inr (TABLES_PARSE_ERROR, t)
       else c_bind (pat_entry p) (\<lambda>e. parsePatTable_loop (ptr_add p 4) (n + 4) (pat_push t e))
     else Inr (TABLES_PARSE_OK, t))"
proof -
  have "unat (serviceInfoCount t) > TABLES_MAX_NUMBER_OF_PIDS_IN_PAT - 1
      \<longleftrightarrow> TABLES_MAX_NUMBER_OF_PIDS_IN_PAT \<le> unat (serviceInfoCount t)"
    by (auto simp: TABLES_MAX_NUMBER_OF_PIDS_IN_PAT_def)
  then show ?thesis
    using assms
    by (simp add: parsePatTable_loop.simps [of p n t] parsePatServiceInfo_entry c_bind_assoc
        wf_pat_def pat_push_def)
qed

interpretation pat: table_loop parsePatTable_loop pat_entry "\<lambda>_. 4" 4 pat_push
  "\<lambda>t. pat_sectionLength (patHeader t)" "\<lambda>t. unat (serviceInfoCount t)"
  TABLES_MAX_NUMBER_OF_PIDS_IN_PAT wf_pat
proof unfold_locales
  fix t p n
  assume "wf_pat t"
  then show "parsePatTable_loop p n t =
    (if n < ucast (pat_sectionLength (patHeader t)) then
       if TABLES_MAX_NUMBER_OF_PIDS_IN_PAT \<le> unat (serviceInfoCount t) then Inr (TABLES_PARSE_ERROR, t)
       else c_bind (pat_entry p)
              (\<lambda>e. parsePatTable_loop (ptr_add p 4) (n + of_nat 4) (pat_push t e))
     else Inr (TABLES_PARSE_OK, t))"
    by (simp add: parsePatTable_loop_unfold)
qed (simp_all add: wf_pat_def pat_push_def TABLES_MAX_NUMBER_OF_PIDS_IN_PAT_def unat_Suc_u8
    pat_entry_def)

subsection \<open>The section as transmitted\<close>

text \<open>
  The bytes of a PAT section (ISO/IEC 13818-1): the fixed header with its marker bits,
  one four-byte entry per program, four CRC bytes.
\<close>

definition pat_entry_bytes :: "PatServiceInfo \<Rightarrow> u8 list" where
  "pat_entry_bytes s =
     [hi8 (pat_programNumber s), lo8 (pat_programNumber s),
      hi8 (pid_word (pat_pid s)), lo8 (pid_word (pat_pid s))]"

definition pat_section :: "PatHeader \<Rightarrow> PatServiceInfo list \<Rightarrow> u8 list \<Rightarrow> u8 list" where
  "pat_section h ss crc =
     section_start (pat_tableId h) (pat_sectionSyntaxIndicator h) (pat_sectionLength h) @
     [hi8 (pat_transportStreamId h), lo8 (pat_transportStreamId h),
      version_byte (pat_versionNumber h) (pat_currentNextIndicator h),
      pat_sectionNumber h, pat_lastSectionNumber h] @
     concat (map pat_entry_bytes ss) @ crc"

text \<open>The values a section can carry: every field fits its width, the length is the real one.\<close>

definition valid_pat_header :: "PatHeader \<Rightarrow> bool" where
  "valid_pat_header h \<longleftrightarrow> pat_tableId h = 0 \<and> unat (pat_sectionSyntaxIndicator h) < 2
     \<and> unat (pat_sectionLength h) < 4096 \<and> unat (pat_versionNumber h) < 32
     \<and> unat (pat_currentNextIndicator h) < 2"

definition valid_pat :: "PatHeader \<Rightarrow> PatServiceInfo list \<Rightarrow> bool" where
  "valid_pat h ss \<longleftrightarrow> valid_pat_header h \<and> list_all (\<lambda>s. unat (pat_pid s) < 8192) ss
     \<and> unat (pat_sectionLength h) = 9 + 4 * length ss"

lemma length_pat_entry_bytes [simp]: "length (pat_entry_bytes s) = 4"
  by (simp add: pat_entry_bytes_def)

lemma pat_entry_bytes_decode:
  assumes "unat (pat_pid s) < 8192"
  shows "pat_entry (pre @ pat_entry_bytes s @ suf, length pre) = Inr s"
  using assms by (cases s) (simp add: pat_entry_def pat_entry_bytes_def nth_append)

lemma pat_section_header:
  assumes "valid_pat_header h"
  shows "parsePatHeader (Some (pat_section h ss crc, 0)) (Some h0) = Inr (TABLES_PARSE_OK, Some h)"
  using assms
  by (cases h) (simp add: parsePatHeader_def pat_section_def section_start_def Let_def
      valid_pat_header_def)

lemma parsePatHeader_sectionLength:
  assumes "parsePatHeader (Some (bs, 0)) (Some h0) = Inr (TABLES_PARSE_OK, Some h)"
  shows "pat_sectionLength h = be16 (bs ! 1) (bs ! 2) AND 0x0FFF"
  using assms
  by (auto simp: parsePatHeader_def deref_def Let_def numeral_2_eq_2 split: if_splits)

lemma parsePatHeader_safe:
  assumes "8 \<le> length bs"
  shows "\<exists>rc h. parsePatHeader (Some (bs, 0)) (Some h0) = Inr (rc, Some h)"
proof -
  have "bs \<noteq> []" using assms by auto
  then show ?thesis using assms by (simp add: parsePatHeader_def Let_def)
qed

interpretation pat_array: array_push pat_push patServiceInfoArray serviceInfoCount
  "\<lambda>a c t. t\<lparr>patServiceInfoArray := a, serviceInfoCount := c\<rparr>" TABLES_MAX_NUMBER_OF_PIDS_IN_PAT
  by unfold_locales (simp_all add: pat_push_def TABLES_MAX_NUMBER_OF_PIDS_IN_PAT_def)

subsection \<open>Properties\<close>

text \<open>
  The announced length of a section, read from its first bytes, and a buffer that holds
  the section completely: what the demultiplexer hands to the section callback.
\<close>

definition announced_length :: "u8 list \<Rightarrow> nat" where
  "announced_length bs = unat (be16 (bs ! 1) (bs ! 2) AND 0x0FFF)"

definition whole_section :: "nat \<Rightarrow> u8 list \<Rightarrow> bool" where
  "whole_section hdr bs \<longleftrightarrow> hdr \<le> length bs \<and> 3 + announced_length bs \<le> length bs"

lemma parsePatTable_bytes:
  assumes "whole_section 8 bs" and "wf_pat t"
  shows "\<exists>rc t'. parsePatTable (Some (bs, 0)) (Some t) = Inr (rc, Some t') \<and> wf_pat t'"
proof -
  obtain rc h where h: "parsePatHeader (Some (bs, 0)) (Some (patHeader t)) = Inr (rc, Some h)"
    using parsePatHeader_safe assms(1) unfolding whole_section_def by blast
  show ?thesis
  proof (cases rc)
    case TABLES_PARSE_ERROR
    then show ?thesis using h assms(2) by (simp add: parsePatTable_def wf_pat_def)
  next
    case TABLES_PARSE_OK
    define t0 where "t0 = t\<lparr>patHeader := h, serviceInfoCount := 0\<rparr>"
    have "pat_sectionLength h = be16 (bs ! 1) (bs ! 2) AND 0x0FFF"
      using h TABLES_PARSE_OK parsePatHeader_sectionLength by simp
    then have "3 + unat (pat_sectionLength (patHeader t0)) \<le> length bs"
      using assms(1) by (simp add: t0_def whole_section_def announced_length_def)
    moreover have "wf_pat t0" using assms(2) by (simp add: t0_def wf_pat_def)
    ultimately show ?thesis
      using pat.loop_safe [of t0 "(bs, 8)" 9] h TABLES_PARSE_OK
      by (auto simp: parsePatTable_def t0_def ptr_add_def)
  qed
qed

text \<open>
  C8. Memory safety of the PAT parser: on a buffer that holds the eight header bytes and
  the whole section it announces, whatever its bytes are, \<open>parsePatTable\<close> returns (it
  neither reads outside the buffer, nor writes outside the array of services, nor loops),
  and the table it leaves behind is well formed: at most 20 services are counted.
\<close>

theorem parsePatTable_safe:
  assumes "whole_section 8 bs" and "wf_pat t"
  shows "\<exists>rc t'. parsePatTable (Some (bs, 0)) (Some t) = Inr (rc, Some t') \<and> wf_pat t'
           \<and> unat (serviceInfoCount t') \<le> 20"
  using parsePatTable_bytes [OF assms]
  by (auto simp: wf_pat_def TABLES_MAX_NUMBER_OF_PIDS_IN_PAT_def)

definition zero_PatTable :: PatTable where
  "zero_PatTable = \<lparr>patHeader = \<lparr>pat_tableId = 0, pat_sectionSyntaxIndicator = 0,
       pat_sectionLength = 0, pat_transportStreamId = 0, pat_versionNumber = 0,
       pat_currentNextIndicator = 0, pat_sectionNumber = 0, pat_lastSectionNumber = 0\<rparr>,
     patServiceInfoArray = replicate 20 \<lparr>pat_programNumber = 0, pat_pid = 0\<rparr>,
     serviceInfoCount = 0\<rparr>"

text \<open>A section of two programs, with fifteen bytes after the length field.\<close>

definition pat_example :: "u8 list" where
  "pat_example = [0x00, 0xB0, 0x11, 0x00, 0x01, 0xC1, 0x00, 0x00,
     0x00, 0x00, 0xE0, 0x10, 0x00, 0x05, 0xE1, 0x00, 0xDE, 0xAD, 0xBE, 0xEF]"

theorem parsePatTable_safe_witness:
  "whole_section 8 pat_example \<and> wf_pat zero_PatTable \<and>
   (\<exists>rc t'. parsePatTable (Some (pat_example, 0)) (Some zero_PatTable) = Inr (rc, Some t')
      \<and> wf_pat t' \<and> unat (serviceInfoCount t') \<le> 20)"
proof -
  have w: "whole_section 8 pat_example" by code_simp
  have z: "wf_pat zero_PatTable" by code_simp
  show ?thesis using parsePatTable_safe [OF w z] w z by blast
qed

lemma parsePatTable_section:
  assumes "valid_pat h ss" and "wf_pat t"
  shows "parsePatTable (Some (pat_section h ss crc, 0)) (Some t) =
    Inr (if length ss \<le> 20 then TABLES_PARSE_OK else TABLES_PARSE_ERROR,
         Some \<lparr>patHeader = h,
               patServiceInfoArray = take 20 ss @ drop (length ss) (patServiceInfoArray t),
               serviceInfoCount = of_nat (min 20 (length ss))\<rparr>)"
proof -
  define t0 where "t0 = t\<lparr>patHeader := h, serviceInfoCount := 0\<rparr>"
  define pre where "pre = take 8 (pat_section h ss crc)"
  have t0: "wf_pat t0" and len: "length (patServiceInfoArray t) = 20"
    using assms(2) by (simp_all add: t0_def wf_pat_def TABLES_MAX_NUMBER_OF_PIDS_IN_PAT_def)
  have valid: "valid_pat_header h" "list_all (\<lambda>s. unat (pat_pid s) < 8192) ss"
    "unat (pat_sectionLength h) = 9 + 4 * length ss"
    using assms(1) by (simp_all add: valid_pat_def)
  have bytes: "pat_section h ss crc = pre @ concat (map pat_entry_bytes ss) @ crc" "length pre = 8"
    by (simp_all add: pre_def pat_section_def section_start_def)
  have "parsePatTable_loop (pre @ concat (map pat_entry_bytes ss) @ crc, length pre) 9 t0 =
      Inr (if unat (serviceInfoCount t0) + length ss \<le> TABLES_MAX_NUMBER_OF_PIDS_IN_PAT
           then TABLES_PARSE_OK else TABLES_PARSE_ERROR,
           foldl pat_push t0 (take (TABLES_MAX_NUMBER_OF_PIDS_IN_PAT - unat (serviceInfoCount t0))
             (map (\<lambda>s. s) ss)))"
    using valid t0
    by (intro pat.loop_roundtrip)
      (auto simp: t0_def list_all_iff pat_entry_bytes_decode sum_list_triv)
  moreover have "foldl pat_push t0 (take 20 ss) =
      \<lparr>patHeader = h, patServiceInfoArray = take 20 ss @ drop (length ss) (patServiceInfoArray t),
       serviceInfoCount = of_nat (min 20 (length ss))\<rparr>"
    using len pat_array.foldl_push_fresh [of t0 ss]
    by (simp add: t0_def TABLES_MAX_NUMBER_OF_PIDS_IN_PAT_def)
  moreover have "parsePatHeader (Some (pre @ concat (map pat_entry_bytes ss) @ crc, 0))
      (Some (patHeader t)) = Inr (TABLES_PARSE_OK, Some h)"
    using pat_section_header [OF valid(1), of ss crc "patHeader t"] bytes(1) by simp
  ultimately show ?thesis
    using bytes
    by (simp add: parsePatTable_def ptr_add_def t0_def TABLES_MAX_NUMBER_OF_PIDS_IN_PAT_def)
qed

text \<open>
  C5. Round trip of the PAT: parsing the bytes of a section gives back its header and its
  services, in order, with the count set; slots beyond them keep their old contents. A
  section of more than 20 services is refused, after the first 20 have been stored.
\<close>

theorem parsePatTable_roundtrip:
  assumes "valid_pat h ss" and "wf_pat t"
  shows "parsePatTable (Some (pat_section h ss crc, 0)) (Some t) =
    Inr (if length ss \<le> 20 then TABLES_PARSE_OK else TABLES_PARSE_ERROR,
         Some \<lparr>patHeader = h,
               patServiceInfoArray = take 20 ss @ drop (length ss) (patServiceInfoArray t),
               serviceInfoCount = of_nat (min 20 (length ss))\<rparr>)"
  using assms by (rule parsePatTable_section)

definition pat_example_header :: PatHeader where
  "pat_example_header = \<lparr>pat_tableId = 0, pat_sectionSyntaxIndicator = 1, pat_sectionLength = 17,
     pat_transportStreamId = 1, pat_versionNumber = 0, pat_currentNextIndicator = 1,
     pat_sectionNumber = 0, pat_lastSectionNumber = 0\<rparr>"

definition pat_example_services :: "PatServiceInfo list" where
  "pat_example_services = [\<lparr>pat_programNumber = 0, pat_pid = 16\<rparr>,
     \<lparr>pat_programNumber = 5, pat_pid = 256\<rparr>]"

lemma pat_example_bytes:
  "pat_section pat_example_header pat_example_services [0xDE, 0xAD, 0xBE, 0xEF] = pat_example"
  by (simp add: pat_section_def pat_example_header_def pat_example_services_def pat_example_def
      section_start_def section_word_def version_byte_def pat_entry_bytes_def pid_word_def
      hi8_def lo8_def)

theorem parsePatTable_roundtrip_witness:
  "pat_section pat_example_header pat_example_services [0xDE, 0xAD, 0xBE, 0xEF] = pat_example \<and>
   parsePatTable (Some (pat_example, 0)) (Some zero_PatTable) =
     Inr (TABLES_PARSE_OK, Some \<lparr>patHeader = pat_example_header,
       patServiceInfoArray = pat_example_services @
         replicate 18 \<lparr>pat_programNumber = 0, pat_pid = 0\<rparr>,
       serviceInfoCount = 2\<rparr>)"
proof -
  have v: "valid_pat pat_example_header pat_example_services" by code_simp
  have z: "wf_pat zero_PatTable" by code_simp
  note b = pat_example_bytes
  have "drop 2 (patServiceInfoArray zero_PatTable) =
      replicate 18 \<lparr>pat_programNumber = 0, pat_pid = 0\<rparr>"
    by (simp add: zero_PatTable_def)
  then show ?thesis
    using parsePatTable_roundtrip [OF v z, of "[0xDE, 0xAD, 0xBE, 0xEF]"] b
    by (simp add: pat_example_services_def numeral_2_eq_2)
qed

text \<open>
  Rejection by the PAT parser: a null argument, or a first byte other than the table id
  of a PAT, is answered with \<open>TABLES_PARSE_ERROR\<close>. In the second case the table id has
  already been stored; the services and their count are untouched.
\<close>

theorem parsePatTable_reject:
  "parsePatTable None p = Inr (TABLES_PARSE_ERROR, p)
   \<and> parsePatTable q None = Inr (TABLES_PARSE_ERROR, None)
   \<and> (b \<noteq> 0 \<longrightarrow> parsePatTable (Some (b # bs, 0)) (Some t) =
        Inr (TABLES_PARSE_ERROR, Some (t\<lparr>patHeader := (patHeader t)\<lparr>pat_tableId := b\<rparr>\<rparr>)))"
  by (auto simp: parsePatTable_def parsePatHeader_def split: option.splits)

theorem parsePatTable_reject_witness:
  "parsePatTable (Some ([0x02], 0)) (Some zero_PatTable) =
     Inr (TABLES_PARSE_ERROR,
          Some (zero_PatTable\<lparr>patHeader := (patHeader zero_PatTable)\<lparr>pat_tableId := 0x02\<rparr>\<rparr>))"
  using parsePatTable_reject [of None None 2 "[]" zero_PatTable] by simp

end
