(* ===== verification/Tables_Pmt.thy ===== *)
theory Tables_Pmt
  imports Tables_Pat
begin

section \<open>The Program Map Table (tables.h, tables\_parser.c)\<close>

text \<open>
  The structures of a PMT, the parsers of its header, of one elementary stream entry and of
  the whole section. The entry loop meets the same contract \<open>table_loop\<close> as the
  one of the PAT, with entries of varying size, so safety and round trip come from the
  same lemmas.
\<close>

subsection \<open>Structures\<close>

definition TABLES_MAX_NUMBER_OF_ELEMENTARY_PID :: nat where
  "TABLES_MAX_NUMBER_OF_ELEMENTARY_PID = 20"

record PmtTableHeader =
  pmt_tableId :: u8
  pmt_sectionSyntaxIndicator :: u8
  pmt_sectionLength :: u16
  pmt_programNumber :: u16
  pmt_versionNumber :: u8
  pmt_currentNextIndicator :: u8
  pmt_sectionNumber :: u8
  pmt_lastSectionNumber :: u8
  pcrPid :: u16
  programInfoLength :: u16

record PmtElementaryInfo =
  streamType :: u8
  elementaryPid :: u16
  esInfoLength :: u16

record PmtTable =
  pmtHeader :: PmtTableHeader
  pmtElementaryInfoArray :: "PmtElementaryInfo list"
  elementaryInfoCount :: u8

subsection \<open>Parsers\<close>

definition parsePmtHeader ::
  "byte_ptr option \<Rightarrow> PmtTableHeader option \<Rightarrow> (ParseErrorCode \<times> PmtTableHeader option) c_res" where
  "parsePmtHeader pmtHeaderBuffer header =
    (case (pmtHeaderBuffer, header) of
       (Some buf, Some h) \<Rightarrow>
         c_bind (deref buf 0) (\<lambda>b0.
         let h = h\<lparr>pmt_tableId := b0\<rparr> in
         if pmt_tableId h \<noteq> 0x02 then Inr (TABLES_PARSE_ERROR, Some h)
         else
         c_bind (deref buf 1) (\<lambda>b1.
         let h = h\<lparr>pmt_sectionSyntaxIndicator := drop_bit 7 b1 AND 0x01\<rparr> in
         c_bind (deref buf 2) (\<lambda>b2.
         let h = h\<lparr>pmt_sectionLength := be16 b1 b2 AND 0x0FFF\<rparr> in
         c_bind (deref buf 3) (\<lambda>b3.
         c_bind (deref buf 4) (\<lambda>b4.
         let h = h\<lparr>pmt_programNumber := be16 b3 b4 AND 0xFFFF\<rparr> in
         c_bind (deref buf 5) (\<lambda>b5.
         let h = h\<lparr>pmt_versionNumber := drop_bit 1 b5 AND 0x1F\<rparr> in
         let h = h\<lparr>pmt_currentNextIndicator := b5 AND 0x01\<rparr> in
         c_bind (deref buf 6) (\<lambda>b6.
         let h = h\<lparr>pmt_sectionNumber := b6 AND 0xFF\<rparr> in
         c_bind (deref buf 7) (\<lambda>b7.
         let h = h\<lparr>pmt_lastSectionNumber := b7 AND 0xFF\<rparr> in
         c_bind (deref buf 8) (\<lambda>b8.
         c_bind (deref buf 9) (\<lambda>b9.
         let h = h\<lparr>pcrPid := be16 b8 b9 AND 0xFFFF\<rparr> in
         c_bind (deref buf 10) (\<lambda>b10.
         c_bind (deref buf 11) (\<lambda>b11.
         let h = h\<lparr>programInfoLength := be16 b10 b11 AND 0x0FFF\<rparr> in
         Inr (TABLES_PARSE_OK, Some h)))))))))))))
     | _ \<Rightarrow> Inr (TABLES_PARSE_ERROR, header))"

definition parsePmtElementaryInfo ::
  "byte_ptr option \<Rightarrow> PmtElementaryInfo option \<Rightarrow> (ParseErrorCode \<times> PmtElementaryInfo option) c_res" where
  "parsePmtElementaryInfo pmtElementaryInfoBuffer pmtElementaryInfo =
    (case (pmtElementaryInfoBuffer, pmtElementaryInfo) of
       (Some buf, Some e) \<Rightarrow>
         c_bind (deref buf 0) (\<lambda>b0.
         let e = e\<lparr>streamType := b0\<rparr> in
         c_bind (deref buf 1) (\<lambda>b1.
         c_bind (deref buf 2) (\<lambda>b2.
         let e = e\<lparr>elementaryPid := be16 b1 b2 AND 0x1FFF\<rparr> in
         c_bind (deref buf 3) (\<lambda>b3.
         c_bind (deref buf 4) (\<lambda>b4.
         let e = e\<lparr>esInfoLength := be16 b3 b4 AND 0x0FFF\<rparr> in
         Inr (TABLES_PARSE_OK, Some e))))))
     | _ \<Rightarrow> Inr (TABLES_PARSE_ERROR, pmtElementaryInfo))"

function parsePmtTable_loop ::
  "byte_ptr \<Rightarrow> u32 \<Rightarrow> PmtTable \<Rightarrow> (ParseErrorCode \<times> PmtTable) c_res" where
  "parsePmtTable_loop currentBufferPosition parsedLength pmtTable =
    (if parsedLength < ucast (pmt_sectionLength (pmtHeader pmtTable)) then
       if unat (elementaryInfoCount pmtTable) > TABLES_MAX_NUMBER_OF_ELEMENTARY_PID - 1
       then Inr (TABLES_PARSE_ERROR, pmtTable)
       else
         c_bind (array_get (pmtElementaryInfoArray pmtTable) (unat (elementaryInfoCount pmtTable))) (\<lambda>slot.
         c_bind (parsePmtElementaryInfo (Some currentBufferPosition) (Some slot)) (\<lambda>(rc, info).
         c_bind (array_set (pmtElementaryInfoArray pmtTable) (unat (elementaryInfoCount pmtTable))
                   (case info of Some e \<Rightarrow> e | None \<Rightarrow> slot)) (\<lambda>arr.
         if rc = TABLES_PARSE_OK
         then
           c_bind (array_get arr (unat (elementaryInfoCount pmtTable))) (\<lambda>e.
           parsePmtTable_loop (ptr_add currentBufferPosition (5 + unat (esInfoLength e)))
             (parsedLength + (5 + ucast (esInfoLength e)))
             (pmtTable\<lparr>pmtElementaryInfoArray := arr,
                       elementaryInfoCount := elementaryInfoCount pmtTable + 1\<rparr>))
         else Inl Endless_Loop)))
     else Inr (TABLES_PARSE_OK, pmtTable))"
  by pat_completeness auto
termination
  by (relation "measure (\<lambda>(p, n, t). 256 - unat (elementaryInfoCount t))")
    (auto simp: TABLES_MAX_NUMBER_OF_ELEMENTARY_PID_def unat_Suc_u8)

declare parsePmtTable_loop.simps [simp del]

definition parsePmtTable ::
  "byte_ptr option \<Rightarrow> PmtTable option \<Rightarrow> (ParseErrorCode \<times> PmtTable option) c_res" where
  "parsePmtTable pmtSectionBuffer pmtTable =
    (case (pmtSectionBuffer, pmtTable) of
       (Some buf, Some t) \<Rightarrow>
         c_bind (parsePmtHeader (Some buf) (Some (pmtHeader t))) (\<lambda>(rc, h).
         let t = (case h of Some h \<Rightarrow> t\<lparr>pmtHeader := h\<rparr> | None \<Rightarrow> t) in
         if rc \<noteq> TABLES_PARSE_OK then Inr (TABLES_PARSE_ERROR, Some t)
         else
           c_bind (parsePmtTable_loop
                     (ptr_add buf (12 + unat (programInfoLength (pmtHeader t))))
                     (12 + ucast (programInfoLength (pmtHeader t)) + 4 - 3)
                     (t\<lparr>elementaryInfoCount := 0\<rparr>))
             (\<lambda>(rc, t). Inr (rc, Some t)))
     | _ \<Rightarrow> Inr (TABLES_PARSE_ERROR, pmtTable))"

subsection \<open>The loop meets its contract\<close>

definition wf_pmt :: "PmtTable \<Rightarrow> bool" where
  "wf_pmt t \<longleftrightarrow> length (pmtElementaryInfoArray t) = TABLES_MAX_NUMBER_OF_ELEMENTARY_PID
     \<and> unat (elementaryInfoCount t) \<le> TABLES_MAX_NUMBER_OF_ELEMENTARY_PID"

definition pmt_entry :: "byte_ptr \<Rightarrow> PmtElementaryInfo c_res" where
  "pmt_entry p =
     c_bind (deref p 0) (\<lambda>b0. c_bind (deref p 1) (\<lambda>b1. c_bind (deref p 2) (\<lambda>b2.
     c_bind (deref p 3) (\<lambda>b3. c_bind (deref p 4) (\<lambda>b4.
     Inr \<lparr>streamType = b0, elementaryPid = be16 b1 b2 AND 0x1FFF,
          esInfoLength = be16 b3 b4 AND 0x0FFF\<rparr>)))))"

definition pmt_push :: "PmtTable \<Rightarrow> PmtElementaryInfo \<Rightarrow> PmtTable" where
  "pmt_push t e =
     t\<lparr>pmtElementaryInfoArray := (pmtElementaryInfoArray t)[unat (elementaryInfoCount t) := e],
       elementaryInfoCount := elementaryInfoCount t + 1\<rparr>"

lemma pmt_push_simps [simp]:
  "pmtHeader (pmt_push t e) = pmtHeader t"
  "pmtElementaryInfoArray (pmt_push t e) = (pmtElementaryInfoArray t)[unat (elementaryInfoCount t) := e]"
  "elementaryInfoCount (pmt_push t e) = elementaryInfoCount t + 1"
  by (simp_all add: pmt_push_def)

lemma parsePmtElementaryInfo_entry:
  "parsePmtElementaryInfo (Some p) (Some s) =
     c_bind (pmt_entry p) (\<lambda>e. Inr (TABLES_PARSE_OK, Some e))"
  by (cases s) (simp add: parsePmtElementaryInfo_def pmt_entry_def c_bind_assoc Let_def)

lemma pmt_entry_esInfoLength: "pmt_entry p = Inr e \<Longrightarrow> unat (esInfoLength e) < 4096"
  by (auto simp: pmt_entry_def c_bind_eq_Inr)

lemma parsePmtTable_loop_ends: "memory_only (parsePmtTable_loop p n t)"
proof (induction p n t rule: parsePmtTable_loop.induct)
  case (1 p n t)
  have "memory_only (pmt_entry p)" by (auto simp: pmt_entry_def intro!: memory_only_bind)
  then show ?case
    using 1 by (subst parsePmtTable_loop.simps)
      (auto simp: parsePmtElementaryInfo_entry c_bind_assoc intro!: memory_only_bind)
qed

lemma parsePmtTable_ends: "memory_only (parsePmtTable p t)"
proof -
  have "memory_only (parsePmtHeader q h)" for q h
    by (auto simp: parsePmtHeader_def Let_def split: option.splits intro!: memory_only_bind)
  then show ?thesis
    by (auto simp: parsePmtTable_def Let_def parsePmtTable_loop_ends split: option.splits intro!: memory_only_bind)
qed

lemma parsePmtTable_loop_unfold:
  assumes "wf_pmt t"
  shows "parsePmtTable_loop p n t =
    (if n < ucast (pmt_sectionLength (pmtHeader t)) then
       if TABLES_MAX_NUMBER_OF_ELEMENTARY_PID \<le> unat (elementaryInfoCount t)
       then Inr (TABLES_PARSE_ERROR, t)
       else c_bind (pmt_entry p) (\<lambda>e. parsePmtTable_loop (ptr_add p (5 + unat (esInfoLength e)))
              (n + (5 + ucast (esInfoLength e))) (pmt_push t e))
     else Inr (TABLES_PARSE_OK, t))"
proof -
  have "unat (elementaryInfoCount t) > TABLES_MAX_NUMBER_OF_ELEMENTARY_PID - 1
      \<longleftrightarrow> TABLES_MAX_NUMBER_OF_ELEMENTARY_PID \<le> unat (elementaryInfoCount t)"
    by (auto simp: TABLES_MAX_NUMBER_OF_ELEMENTARY_PID_def)
  then show ?thesis
    using assms
    by (simp add: parsePmtTable_loop.simps [of p n t] parsePmtElementaryInfo_entry c_bind_assoc
        wf_pmt_def pmt_push_def)
qed

lemma of_nat_esize: "(of_nat (5 + unat (w :: u16)) :: u32) = 5 + ucast w"
  by simp

interpretation pmt: table_loop parsePmtTable_loop pmt_entry "\<lambda>e. 5 + unat (esInfoLength e)" 5 pmt_push
  "\<lambda>t. pmt_sectionLength (pmtHeader t)" "\<lambda>t. unat (elementaryInfoCount t)"
  TABLES_MAX_NUMBER_OF_ELEMENTARY_PID wf_pmt
proof unfold_locales
  fix t p n
  assume "wf_pmt t"
  then show "parsePmtTable_loop p n t =
    (if n < ucast (pmt_sectionLength (pmtHeader t)) then
       if TABLES_MAX_NUMBER_OF_ELEMENTARY_PID \<le> unat (elementaryInfoCount t)
       then Inr (TABLES_PARSE_ERROR, t)
       else c_bind (pmt_entry p)
              (\<lambda>e. parsePmtTable_loop (ptr_add p (5 + unat (esInfoLength e)))
                     (n + of_nat (5 + unat (esInfoLength e))) (pmt_push t e))
     else Inr (TABLES_PARSE_OK, t))"
    by (simp only: parsePmtTable_loop_unfold of_nat_esize)
next
  fix p e
  assume "pmt_entry p = Inr e"
  then show "5 + unat (esInfoLength e) < 65536"
    using pmt_entry_esInfoLength [of p e] by simp
qed (simp_all add: wf_pmt_def pmt_push_def TABLES_MAX_NUMBER_OF_ELEMENTARY_PID_def unat_Suc_u8
    pmt_entry_def)

interpretation pmt_array: array_push pmt_push pmtElementaryInfoArray elementaryInfoCount
  "\<lambda>a c t. t\<lparr>pmtElementaryInfoArray := a, elementaryInfoCount := c\<rparr>"
  TABLES_MAX_NUMBER_OF_ELEMENTARY_PID
  by unfold_locales (simp_all add: pmt_push_def TABLES_MAX_NUMBER_OF_ELEMENTARY_PID_def)

subsection \<open>The section as transmitted\<close>

text \<open>
  An elementary stream as transmitted is its entry and the bytes of its descriptors, which
  the parser skips. The program's own descriptors stand between header and entries.
\<close>

definition pmt_entry_bytes :: "PmtElementaryInfo \<times> u8 list \<Rightarrow> u8 list" where
  "pmt_entry_bytes x =
     [streamType (fst x), hi8 (pid_word (elementaryPid (fst x))), lo8 (pid_word (elementaryPid (fst x))),
      hi8 (length_word (esInfoLength (fst x))), lo8 (length_word (esInfoLength (fst x)))] @ snd x"

definition pmt_header_bytes :: "PmtTableHeader \<Rightarrow> u8 list" where
  "pmt_header_bytes h =
     section_start (pmt_tableId h) (pmt_sectionSyntaxIndicator h) (pmt_sectionLength h) @
     [hi8 (pmt_programNumber h), lo8 (pmt_programNumber h),
      version_byte (pmt_versionNumber h) (pmt_currentNextIndicator h),
      pmt_sectionNumber h, pmt_lastSectionNumber h,
      hi8 (pid_word (pcrPid h)), lo8 (pid_word (pcrPid h)),
      hi8 (length_word (programInfoLength h)), lo8 (length_word (programInfoLength h))]"

definition pmt_section ::
  "PmtTableHeader \<Rightarrow> u8 list \<Rightarrow> (PmtElementaryInfo \<times> u8 list) list \<Rightarrow> u8 list \<Rightarrow> u8 list" where
  "pmt_section h ds es crc = pmt_header_bytes h @ ds @ concat (map pmt_entry_bytes es) @ crc"

definition valid_pmt_header :: "PmtTableHeader \<Rightarrow> bool" where
  "valid_pmt_header h \<longleftrightarrow> pmt_tableId h = 2 \<and> unat (pmt_sectionSyntaxIndicator h) < 2
     \<and> unat (pmt_sectionLength h) < 4096 \<and> unat (pmt_versionNumber h) < 32
     \<and> unat (pmt_currentNextIndicator h) < 2 \<and> unat (pcrPid h) < 8192
     \<and> unat (programInfoLength h) < 4096"

definition valid_pmt_entry :: "PmtElementaryInfo \<times> u8 list \<Rightarrow> bool" where
  "valid_pmt_entry x \<longleftrightarrow> unat (elementaryPid (fst x)) < 8192
     \<and> unat (esInfoLength (fst x)) < 4096 \<and> length (snd x) = unat (esInfoLength (fst x))"

definition valid_pmt :: "PmtTableHeader \<Rightarrow> u8 list \<Rightarrow> (PmtElementaryInfo \<times> u8 list) list \<Rightarrow> bool" where
  "valid_pmt h ds es \<longleftrightarrow> valid_pmt_header h \<and> list_all valid_pmt_entry es
     \<and> length ds = unat (programInfoLength h)
     \<and> unat (pmt_sectionLength h) =
         13 + unat (programInfoLength h) + (\<Sum>x\<leftarrow>es. 5 + unat (esInfoLength (fst x)))"

lemma length_pmt_header_bytes [simp]: "length (pmt_header_bytes h) = 12"
  by (simp add: pmt_header_bytes_def section_start_def)

lemma length_pmt_entry_bytes:
  "valid_pmt_entry x \<Longrightarrow> length (pmt_entry_bytes x) = 5 + unat (esInfoLength (fst x))"
  by (simp add: pmt_entry_bytes_def valid_pmt_entry_def)

lemma pmt_entry_bytes_decode:
  assumes "valid_pmt_entry x"
  shows "pmt_entry (pre @ pmt_entry_bytes x @ suf, length pre) = Inr (fst x)"
  using assms
  by (cases x; cases "fst x") (simp add: pmt_entry_def pmt_entry_bytes_def nth_append valid_pmt_entry_def)

text \<open>
  The header as the parser stores it: the three reserved bits in front of the PCR PID are
  kept, since its mask is the full 16 bits.
\<close>

definition stored_pmt_header :: "PmtTableHeader \<Rightarrow> PmtTableHeader" where
  "stored_pmt_header h = h\<lparr>pcrPid := pid_word (pcrPid h)\<rparr>"

lemma pmt_section_header:
  assumes "valid_pmt_header h"
  shows "parsePmtHeader (Some (pmt_header_bytes h @ rest, 0)) (Some h0) =
    Inr (TABLES_PARSE_OK, Some (stored_pmt_header h))"
  using assms
  by (cases h) (simp add: parsePmtHeader_def pmt_header_bytes_def section_start_def Let_def
      valid_pmt_header_def stored_pmt_header_def)

lemma parsePmtHeader_lengths:
  assumes "parsePmtHeader (Some (bs, 0)) (Some h0) = Inr (TABLES_PARSE_OK, Some h)"
  shows "pmt_sectionLength h = be16 (bs ! 1) (bs ! 2) AND 0x0FFF"
    and "unat (programInfoLength h) < 4096"
  using assms
  by (auto simp: parsePmtHeader_def deref_def Let_def numeral_2_eq_2 split: if_splits)

lemma parsePmtHeader_safe:
  assumes "12 \<le> length bs"
  shows "\<exists>rc h. parsePmtHeader (Some (bs, 0)) (Some h0) = Inr (rc, Some h)"
proof -
  have "bs \<noteq> []" using assms by auto
  then show ?thesis using assms by (simp add: parsePmtHeader_def Let_def)
qed

lemma pmt_start_length:
  assumes "unat w < 4096"
  shows "unat (12 + ucast (w :: u16) + 4 - 3 :: u32) = 13 + unat w"
proof -
  have "(12 + ucast w + 4 - 3 :: u32) = of_nat (13 + unat w)" by simp
  also have "unat \<dots> = 13 + unat w"
    using assms by (simp only: unsigned_of_nat) (simp add: take_bit_eq_mod)
  finally show ?thesis .
qed

subsection \<open>Properties\<close>

lemma parsePmtTable_bytes:
  assumes "whole_section 12 bs" and "wf_pmt t"
  shows "\<exists>rc t'. parsePmtTable (Some (bs, 0)) (Some t) = Inr (rc, Some t') \<and> wf_pmt t'"
proof -
  obtain rc h where h: "parsePmtHeader (Some (bs, 0)) (Some (pmtHeader t)) = Inr (rc, Some h)"
    using parsePmtHeader_safe assms(1) unfolding whole_section_def by blast
  show ?thesis
  proof (cases rc)
    case TABLES_PARSE_ERROR
    then show ?thesis using h assms(2) by (simp add: parsePmtTable_def wf_pmt_def)
  next
    case TABLES_PARSE_OK
    define t0 where "t0 = t\<lparr>pmtHeader := h, elementaryInfoCount := 0\<rparr>"
    have pil: "unat (12 + ucast (programInfoLength h) + 4 - 3 :: u32) = 13 + unat (programInfoLength h)"
      using h TABLES_PARSE_OK parsePmtHeader_lengths(2) by (intro pmt_start_length) simp
    have "pmt_sectionLength h = be16 (bs ! 1) (bs ! 2) AND 0x0FFF"
      using h TABLES_PARSE_OK parsePmtHeader_lengths(1) by simp
    then have "3 + unat (pmt_sectionLength (pmtHeader t0)) \<le> length bs"
      using assms(1) by (simp add: t0_def whole_section_def announced_length_def)
    moreover have "wf_pmt t0" using assms(2) by (simp add: t0_def wf_pmt_def)
    ultimately have "\<exists>rc t'. parsePmtTable_loop (bs, 12 + unat (programInfoLength h))
        (12 + ucast (programInfoLength h) + 4 - 3) t0 = Inr (rc, t') \<and> wf_pmt t'
        \<and> pmt_sectionLength (pmtHeader t') = pmt_sectionLength (pmtHeader t0)"
      using pil by (intro pmt.loop_safe) simp_all
    then show ?thesis
      using h TABLES_PARSE_OK by (auto simp: parsePmtTable_def t0_def ptr_add_def)
  qed
qed

text \<open>
  C9. Memory safety of the PMT parser: on a buffer that holds the twelve header bytes and
  the whole section it announces, whatever its bytes are (a program info length or an
  elementary stream length that points past the section included),
  \<open>parsePmtTable\<close> returns without reading outside the buffer or writing outside the
  array, and leaves a well-formed table with at most 20 streams.
\<close>

theorem parsePmtTable_safe:
  assumes "whole_section 12 bs" and "wf_pmt t"
  shows "\<exists>rc t'. parsePmtTable (Some (bs, 0)) (Some t) = Inr (rc, Some t') \<and> wf_pmt t'
           \<and> unat (elementaryInfoCount t') \<le> 20"
  using parsePmtTable_bytes [OF assms]
  by (auto simp: wf_pmt_def TABLES_MAX_NUMBER_OF_ELEMENTARY_PID_def)

definition zero_PmtTable :: PmtTable where
  "zero_PmtTable = \<lparr>pmtHeader = \<lparr>pmt_tableId = 0, pmt_sectionSyntaxIndicator = 0,
       pmt_sectionLength = 0, pmt_programNumber = 0, pmt_versionNumber = 0,
       pmt_currentNextIndicator = 0, pmt_sectionNumber = 0, pmt_lastSectionNumber = 0,
       pcrPid = 0, programInfoLength = 0\<rparr>,
     pmtElementaryInfoArray = replicate 20 \<lparr>streamType = 0, elementaryPid = 0, esInfoLength = 0\<rparr>,
     elementaryInfoCount = 0\<rparr>"

text \<open>
  A section of a video stream with one descriptor of three bytes and an audio stream
  without descriptors.
\<close>

definition pmt_example :: "u8 list" where
  "pmt_example = [0x02, 0xB0, 0x1A, 0x00, 0x05, 0xC1, 0x00, 0x00, 0xE1, 0x01, 0xF0, 0x00,
     0x02, 0xE1, 0x01, 0xF0, 0x03, 0x52, 0x01, 0x01,
     0x03, 0xE1, 0x02, 0xF0, 0x00, 0xDE, 0xAD, 0xBE, 0xEF]"

theorem parsePmtTable_safe_witness:
  "whole_section 12 pmt_example \<and> wf_pmt zero_PmtTable \<and>
   (\<exists>rc t'. parsePmtTable (Some (pmt_example, 0)) (Some zero_PmtTable) = Inr (rc, Some t')
      \<and> wf_pmt t' \<and> unat (elementaryInfoCount t') \<le> 20)"
proof -
  have w: "whole_section 12 pmt_example" by code_simp
  have z: "wf_pmt zero_PmtTable" by code_simp
  show ?thesis using parsePmtTable_safe [OF w z] w z by blast
qed

lemma parsePmtTable_section:
  assumes "valid_pmt h ds es" and "wf_pmt t"
  shows "parsePmtTable (Some (pmt_section h ds es crc, 0)) (Some t) =
    Inr (if length es \<le> 20 then TABLES_PARSE_OK else TABLES_PARSE_ERROR,
         Some \<lparr>pmtHeader = stored_pmt_header h,
               pmtElementaryInfoArray = take 20 (map fst es) @ drop (length es) (pmtElementaryInfoArray t),
               elementaryInfoCount = of_nat (min 20 (length es))\<rparr>)"
proof -
  define t0 where "t0 = t\<lparr>pmtHeader := stored_pmt_header h, elementaryInfoCount := 0\<rparr>"
  define pre where "pre = pmt_header_bytes h @ ds"
  let ?n = "12 + ucast (programInfoLength h) + 4 - 3 :: u32"
  have t0: "wf_pmt t0" and len: "length (pmtElementaryInfoArray t) = 20"
    using assms(2) by (simp_all add: t0_def wf_pmt_def TABLES_MAX_NUMBER_OF_ELEMENTARY_PID_def)
  have valid: "valid_pmt_header h" "\<And>x. x \<in> set es \<Longrightarrow> valid_pmt_entry x"
    "length ds = unat (programInfoLength h)" "unat (pmt_sectionLength h) =
         13 + unat (programInfoLength h) + (\<Sum>x\<leftarrow>es. 5 + unat (esInfoLength (fst x)))"
    using assms(1) by (simp_all add: valid_pmt_def list_all_iff)
  have n: "unat ?n = 13 + unat (programInfoLength h)"
    using valid(1) by (intro pmt_start_length) (simp add: valid_pmt_header_def)
  have bytes: "pmt_section h ds es crc = pre @ concat (map pmt_entry_bytes es) @ crc"
    "length pre = 12 + unat (programInfoLength h)"
    using valid(3) by (simp_all add: pre_def pmt_section_def)
  have "parsePmtTable_loop (pre @ concat (map pmt_entry_bytes es) @ crc, length pre) ?n t0 =
      Inr (if unat (elementaryInfoCount t0) + length es \<le> TABLES_MAX_NUMBER_OF_ELEMENTARY_PID
           then TABLES_PARSE_OK else TABLES_PARSE_ERROR,
           foldl pmt_push t0
             (take (TABLES_MAX_NUMBER_OF_ELEMENTARY_PID - unat (elementaryInfoCount t0)) (map fst es)))"
    using valid(2,4) t0 n
    by (intro pmt.loop_roundtrip)
      (simp_all add: t0_def stored_pmt_header_def pmt_entry_bytes_decode length_pmt_entry_bytes)
  moreover have "foldl pmt_push t0 (take 20 (map fst es)) =
      \<lparr>pmtHeader = stored_pmt_header h,
       pmtElementaryInfoArray = take 20 (map fst es) @ drop (length es) (pmtElementaryInfoArray t),
       elementaryInfoCount = of_nat (min 20 (length es))\<rparr>"
    using len pmt_array.foldl_push_fresh [of t0 "map fst es"]
    by (simp add: t0_def TABLES_MAX_NUMBER_OF_ELEMENTARY_PID_def)
  moreover have "parsePmtHeader (Some (pre @ concat (map pmt_entry_bytes es) @ crc, 0))
      (Some (pmtHeader t)) = Inr (TABLES_PARSE_OK, Some (stored_pmt_header h))"
    using pmt_section_header [OF valid(1), of "ds @ concat (map pmt_entry_bytes es) @ crc" "pmtHeader t"]
    by (simp add: pre_def)
  ultimately show ?thesis
    using bytes
    by (simp add: parsePmtTable_def ptr_add_def t0_def stored_pmt_header_def
        TABLES_MAX_NUMBER_OF_ELEMENTARY_PID_def)
qed

text \<open>
  C6. Round trip of the PMT: parsing the bytes of a section (with descriptors of the program
  and of each stream) gives back the header and the streams in order, skipping every
  descriptor; more than 20 streams are refused after 20 have been stored. The one
  field that does not come back is the PCR PID, which keeps its reserved bits.
\<close>

theorem parsePmtTable_roundtrip:
  assumes "valid_pmt h ds es" and "wf_pmt t"
  shows "parsePmtTable (Some (pmt_section h ds es crc, 0)) (Some t) =
    Inr (if length es \<le> 20 then TABLES_PARSE_OK else TABLES_PARSE_ERROR,
         Some \<lparr>pmtHeader = stored_pmt_header h,
               pmtElementaryInfoArray = take 20 (map fst es) @ drop (length es) (pmtElementaryInfoArray t),
               elementaryInfoCount = of_nat (min 20 (length es))\<rparr>)"
  using assms by (rule parsePmtTable_section)

definition pmt_example_header :: PmtTableHeader where
  "pmt_example_header = \<lparr>pmt_tableId = 2, pmt_sectionSyntaxIndicator = 1, pmt_sectionLength = 26,
     pmt_programNumber = 5, pmt_versionNumber = 0, pmt_currentNextIndicator = 1,
     pmt_sectionNumber = 0, pmt_lastSectionNumber = 0, pcrPid = 0x101, programInfoLength = 0\<rparr>"

definition pmt_example_streams :: "(PmtElementaryInfo \<times> u8 list) list" where
  "pmt_example_streams =
     [(\<lparr>streamType = 0x02, elementaryPid = 0x101, esInfoLength = 3\<rparr>, [0x52, 0x01, 0x01]),
      (\<lparr>streamType = 0x03, elementaryPid = 0x102, esInfoLength = 0\<rparr>, [])]"

theorem parsePmtTable_roundtrip_witness:
  "pmt_section pmt_example_header [] pmt_example_streams [0xDE, 0xAD, 0xBE, 0xEF] = pmt_example \<and>
   parsePmtTable (Some (pmt_example, 0)) (Some zero_PmtTable) =
     Inr (TABLES_PARSE_OK, Some \<lparr>pmtHeader = stored_pmt_header pmt_example_header,
       pmtElementaryInfoArray = map fst pmt_example_streams @
         replicate 18 \<lparr>streamType = 0, elementaryPid = 0, esInfoLength = 0\<rparr>,
       elementaryInfoCount = 2\<rparr>)"
proof -
  have v: "valid_pmt pmt_example_header [] pmt_example_streams" by code_simp
  have z: "wf_pmt zero_PmtTable" by code_simp
  have b: "pmt_section pmt_example_header [] pmt_example_streams [0xDE, 0xAD, 0xBE, 0xEF] = pmt_example"
    by (simp add: pmt_section_def pmt_header_bytes_def pmt_example_header_def pmt_example_streams_def
        pmt_example_def section_start_def section_word_def version_byte_def pmt_entry_bytes_def
        pid_word_def length_word_def hi8_def lo8_def)
  have "drop 2 (pmtElementaryInfoArray zero_PmtTable) =
      replicate 18 \<lparr>streamType = 0, elementaryPid = 0, esInfoLength = 0\<rparr>"
    by (simp add: zero_PmtTable_def)
  then show ?thesis
    using parsePmtTable_roundtrip [OF v z, of "[0xDE, 0xAD, 0xBE, 0xEF]"] b
    by (simp add: pmt_example_streams_def numeral_2_eq_2)
qed

end
