(* ===== verification/Double.thy ===== *)
theory Double
  imports Complex_Main "HOL-Library.Log_Nat"
begin

section \<open>Arithmetic on \<open>double\<close>\<close>

text \<open>
  The date computation of the TDT parser is done in \<open>double\<close>. A finite double is the
  rational number it denotes; an operation gives the double nearest to the exact
  result, ties to the even significand (IEEE 754 binary64, the default rounding), which
  \<open>to_double\<close> computes from the exact rational. Results here lie between \<open>2 ^ -20\<close> and
  \<open>2 ^ 30\<close> in magnitude, so overflow, underflow and the special values do not arise and
  are left out. The lemmas bound the rounding error, show which results are
  exact, and decide a truncation to \<open>int\<close> from an error bound.
\<close>

text \<open>The nearest integer, ties to even.\<close>

definition round_half_even :: "rat \<Rightarrow> int" where
  "round_half_even x =
     (let f = \<lfloor>x\<rfloor>; r = x - of_int f
      in if r < 1/2 then f else if 1/2 < r then f + 1 else if even f then f else f + 1)"

lemma round_half_even_error: "\<bar>of_int (round_half_even x) - x\<bar> \<le> 1/2"
proof -
  have "of_int \<lfloor>x\<rfloor> \<le> x" and "x < of_int \<lfloor>x\<rfloor> + 1" by linarith+
  then show ?thesis
    unfolding round_half_even_def Let_def by (auto simp: abs_le_iff)
qed

lemma round_half_even_of_int [simp]: "round_half_even (of_int k) = k"
  by (simp add: round_half_even_def)

text \<open>The binary exponent: \<open>2 ^ e \<le> \<bar>x\<bar> < 2 ^ (e + 1)\<close>.\<close>

definition binary_exponent :: "rat \<Rightarrow> int" where
  "binary_exponent x =
     (let (n, d) = quotient_of \<bar>x\<bar>; e = bitlen n - bitlen d
      in if \<bar>x\<bar> < 2 powi e then e - 1 else e)"

lemma powi_of_int: "0 \<le> k \<Longrightarrow> (2 :: rat) powi k = of_int (2 ^ nat k)"
  by (simp add: power_int_def)

lemma binary_exponent_bounds:
  assumes "x \<noteq> 0"
  shows "2 powi binary_exponent x \<le> \<bar>x\<bar>" and "\<bar>x\<bar> < 2 powi (binary_exponent x + 1)"
proof -
  obtain n d where nd: "quotient_of \<bar>x\<bar> = (n, d)" by force
  have d: "0 < d" using quotient_of_denom_pos [OF nd] .
  have x: "\<bar>x\<bar> = of_int n / of_int d" using quotient_of_div [OF nd] .
  have "0 < \<bar>x\<bar>" using assms by simp
  then have n: "0 < n" using d by (simp add: x zero_less_divide_iff)
  define bn bd where "bn = bitlen n" and "bd = bitlen d"
  have pos: "1 \<le> bn" "1 \<le> bd"
    using n d bitlen_eq_zero_iff [of n] bitlen_eq_zero_iff [of d] bitlen_nonneg [of n] bitlen_nonneg [of d]
    unfolding bn_def bd_def by linarith+
  have up: "(of_int n :: rat) < 2 powi bn" "(of_int d :: rat) < 2 powi bd"
    and lo: "(2 :: rat) powi (bn - 1) \<le> of_int n" "(2 :: rat) powi (bd - 1) \<le> of_int d"
  proof -
    show "(of_int n :: rat) < 2 powi bn" "(of_int d :: rat) < 2 powi bd"
      "(2 :: rat) powi (bn - 1) \<le> of_int n" "(2 :: rat) powi (bd - 1) \<le> of_int d"
      using bitlen_bounds [OF n] bitlen_bounds [OF d] pos
      by (simp_all only: powi_of_int bn_def bd_def of_int_less_iff of_int_le_iff)
  qed
  have dq: "(0 :: rat) < of_int d" using d by simp
  have "\<bar>x\<bar> < 2 powi bn / 2 powi (bd - 1)"
    unfolding x using up(1) lo(2) n dq by (intro frac_less) simp_all
  also have "\<dots> = 2 powi (bn - bd + 1)"
    by (simp add: power_int_diff power_int_add)
  finally have hi: "\<bar>x\<bar> < 2 powi (bn - bd + 1)" .
  have "2 powi (bn - 1) / 2 powi bd \<le> \<bar>x\<bar>"
    unfolding x using lo(1) up(2) n dq by (intro frac_le) simp_all
  then have low: "2 powi (bn - bd - 1) \<le> \<bar>x\<bar>"
    by (simp add: power_int_diff)
  have be: "binary_exponent x = (if \<bar>x\<bar> < 2 powi (bn - bd) then bn - bd - 1 else bn - bd)"
    by (simp add: binary_exponent_def nd bn_def bd_def)
  show "2 powi binary_exponent x \<le> \<bar>x\<bar>" using low by (simp add: be)
  show "\<bar>x\<bar> < 2 powi (binary_exponent x + 1)" using hi by (simp add: be)
qed

text \<open>The significand has 53 bits, so the unit in the last place is \<open>2 ^ (e - 52)\<close>.\<close>

definition to_double :: "rat \<Rightarrow> rat" where
  "to_double x =
     (if x = 0 then 0
      else let u = 2 powi (binary_exponent x - 52) in of_int (round_half_even (x / u)) * u)"

lemma to_double_error: "\<bar>to_double x - x\<bar> \<le> \<bar>x\<bar> / 2 ^ 53"
proof (cases "x = 0")
  case False
  define u :: rat where "u = 2 powi (binary_exponent x - 52)"
  have u: "0 < u" by (simp add: u_def)
  have "to_double x - x = (of_int (round_half_even (x / u)) - x / u) * u"
    using False u by (simp add: to_double_def Let_def u_def [symmetric] field_simps)
  then have "\<bar>to_double x - x\<bar> = \<bar>of_int (round_half_even (x / u)) - x / u\<bar> * u"
    using u by (simp add: abs_mult)
  also have "\<dots> \<le> 1/2 * u"
    using u round_half_even_error [of "x / u"] by (intro mult_right_mono) simp_all
  also have "\<dots> = 2 powi binary_exponent x / 2 ^ 53"
    by (simp add: u_def power_int_diff)
  also have "\<dots> \<le> \<bar>x\<bar> / 2 ^ 53"
    using binary_exponent_bounds(1) [OF False] by (simp add: divide_right_mono)
  finally show ?thesis .
qed (simp add: to_double_def)

text \<open>A result with few enough bits is exact: \<open>j\<close> after the binary point, \<open>k\<close> before it.\<close>

lemma to_double_exact:
  assumes "x * 2 ^ j = of_int m" and "\<bar>x\<bar> < 2 ^ k" and "j + k \<le> 53"
  shows "to_double x = x"
proof (cases "x = 0")
  case False
  define e where "e = binary_exponent x"
  have "(2 :: rat) powi e < 2 powi int k"
    using binary_exponent_bounds(1) [OF False] assms(2) by (simp add: e_def)
  then have "e < int k"
    using power_int_increasing [of "int k" e "2 :: rat"] by (cases "e < int k") simp_all
  then have sh: "0 \<le> 52 - e - int j" using assms(3) by linarith
  define i where "i = m * 2 ^ nat (52 - e - int j)"
  have x: "x = of_int m / 2 ^ j" using assms(1) by (simp add: field_simps)
  have "of_int i = of_int m * (2 :: rat) powi (52 - e - int j)"
    using sh by (simp add: i_def power_int_def)
  also have "\<dots> = x / 2 powi (e - 52)"
    by (simp add: x power_int_diff)
  finally have "round_half_even (x / 2 powi (e - 52)) = i"
    by (metis round_half_even_of_int)
  then show ?thesis
    using False \<open>of_int i = of_int m * 2 powi (52 - e - int j)\<close>
      \<open>of_int m * 2 powi (52 - e - int j) = x / 2 powi (e - 52)\<close>
    by (simp add: to_double_def Let_def e_def [symmetric])
qed (simp add: to_double_def)

text \<open>The conversion \<open>(int) x\<close> truncates towards zero.\<close>

definition trunc_int :: "rat \<Rightarrow> int" where
  "trunc_int x = (if 0 \<le> x then \<lfloor>x\<rfloor> else \<lceil>x\<rceil>)"

text \<open>
  If the exact quotient \<open>p / q\<close> is not an integer and the computed value is closer to it
  than \<open>1 / q\<close>, truncation gives the integer quotient.
\<close>

lemma trunc_int_near:
  assumes "0 < q" and "0 \<le> p" and "\<not> q dvd p"
    and near: "\<bar>y - of_int p / of_int q\<bar> < 1 / of_int q"
  shows "trunc_int y = p div q"
proof -
  define k r where "k = p div q" and "r = p mod q"
  have r: "1 \<le> r" "r + 1 \<le> q"
    using pos_mod_bound [OF assms(1), of p] pos_mod_sign [OF assms(1), of p] assms(3)
    unfolding r_def dvd_eq_mod_eq_0 by linarith+
  have k: "0 \<le> k" using assms(1,2) by (simp add: k_def pos_imp_zdiv_nonneg_iff)
  have q: "(0 :: rat) < of_int q" using assms(1) by simp
  have "p = k * q + r" by (simp add: k_def r_def)
  then have pq: "of_int p / of_int q = (of_int k + of_int r / of_int q :: rat)"
    using q by (simp add: field_simps)
  have "(1 :: rat) / of_int q \<le> of_int r / of_int q"
    using r(1) q by (simp add: divide_right_mono)
  then have lo: "of_int k < y" using near pq by linarith
  have "(of_int r + 1) / of_int q \<le> (1 :: rat)"
    using r(2) q by (simp flip: of_int_le_iff [where ?'a = rat])
  then have hi: "y < of_int k + 1" using near pq by (simp add: add_divide_distrib)
  have "\<lfloor>y\<rfloor> = k" using lo hi by (intro floor_unique) simp_all
  moreover have "(0 :: rat) \<le> of_int k" using k by simp
  then have "0 \<le> y" using lo by linarith
  ultimately show ?thesis by (simp add: trunc_int_def k_def)
qed

text \<open>For values below a million, one rounding moves a result by less than \<open>10 ^ -9\<close>.\<close>

lemma to_double_close:
  assumes "\<bar>x\<bar> \<le> 1000000"
  shows "\<bar>to_double x - x\<bar> \<le> 1 / 1000000000"
proof -
  have "\<bar>to_double x - x\<bar> \<le> 1000000 / 2 ^ 53"
    using to_double_error [of x] assms divide_right_mono [of "\<bar>x\<bar>" 1000000 "2 ^ 53"] by simp
  also have "\<dots> \<le> (1 / 1000000000 :: rat)" by simp
  finally show ?thesis .
qed

end
