(* ===== verification/Tables_Tdt.thy ===== *)
theory Tables_Tdt
  imports Table_Loop Section_Codec Double
begin

section \<open>The Time and Date Table (tables.h, tables\_parser.c)\<close>

text \<open>
  The structure of a TDT, its parser with the conversion of the Modified Julian Date (done
  in \<open>double\<close>, see the theory \<open>Double\<close>), the equivalence of that conversion with exact
  integer arithmetic, and a comparison with the calendar.
\<close>

record TdtTable =
  tdt_tableId :: u8
  tdt_sectionSyntaxIndicator :: u8
  tdt_sectionLength :: u16
  tdt_MJD :: u64
  tdt_tmpYear :: u16
  tdt_Year :: u16
  tdt_tmpMonth :: u16
  tdt_day :: u16
  tdt_K :: u8

subsection \<open>The date fields\<close>

text \<open>
  One definition per statement of the conversion. An integer operand becomes the double
  of the same value; each arithmetic operation on doubles is rounded; the result of a
  cast to \<open>int\<close> is reduced modulo \<open>2 ^ 16\<close> by the assignment to a \<open>uint16_t\<close>.
\<close>

definition tdt_first_year :: "u64 \<Rightarrow> u16" where
  "tdt_first_year mjd =
     of_int (trunc_int (to_double (to_double (of_int (uint mjd) - to_double 15078.2) / 365.25)))"

definition year_days :: "u16 \<Rightarrow> int" where
  "year_days tmpYear = trunc_int (to_double (of_int (uint tmpYear) * 365.25))"

definition month_days :: "u16 \<Rightarrow> int" where
  "month_days tmpMonth = trunc_int (to_double (of_int (uint tmpMonth) * to_double 30.6001))"

definition tdt_first_month :: "u64 \<Rightarrow> u16 \<Rightarrow> u16" where
  "tdt_first_month mjd tmpYear =
     of_int (trunc_int (to_double
       (to_double (to_double (of_int (uint mjd) - to_double 14956.1) - of_int (year_days tmpYear))
        / to_double 30.6001)))"

text \<open>
  The last part of the parser (from the two estimates on). The day is computed in
  \<open>uint64_t\<close>, from the year and the month after their correction by \<open>K\<close>.
\<close>

definition tdt_date :: "TdtTable \<Rightarrow> TdtTable" where
  "tdt_date t =
    (let t = t\<lparr>tdt_tmpYear := tdt_first_year (tdt_MJD t)\<rparr>;
         t = t\<lparr>tdt_tmpMonth := tdt_first_month (tdt_MJD t) (tdt_tmpYear t)\<rparr>;
         t = (if tdt_tmpMonth t = 14 \<or> tdt_tmpMonth t = 15 then t\<lparr>tdt_K := 1\<rparr> else t\<lparr>tdt_K := 0\<rparr>);
         t = t\<lparr>tdt_tmpYear := tdt_tmpYear t + ucast (tdt_K t)\<rparr>;
         t = t\<lparr>tdt_tmpMonth := tdt_tmpMonth t - 1 - ucast (tdt_K t) * 12\<rparr>;
         t = t\<lparr>tdt_day := ucast (tdt_MJD t - 14987 - of_int (year_days (tdt_tmpYear t))
                 - of_int (month_days (tdt_tmpMonth t)))\<rparr>
     in t\<lparr>tdt_Year := tdt_tmpYear t + 1900\<rparr>)"

subsection \<open>The parser\<close>

definition parseTdtTable ::
  "byte_ptr option \<Rightarrow> TdtTable option \<Rightarrow> (ParseErrorCode \<times> TdtTable option) c_res" where
  "parseTdtTable tdtSectionBuffer tdtTable =
    (case (tdtSectionBuffer, tdtTable) of
       (Some buf, Some t) \<Rightarrow>
         c_bind (deref buf 0) (\<lambda>b0.
         let t = t\<lparr>tdt_tableId := b0\<rparr> in
         c_bind (deref buf 1) (\<lambda>b1.
         c_bind (deref buf 2) (\<lambda>b2.
         let t = t\<lparr>tdt_sectionLength := be16 b1 b2 AND 0x0FFF\<rparr> in
         c_bind (deref buf 3) (\<lambda>b3.
         c_bind (deref buf 4) (\<lambda>b4.
         let t = t\<lparr>tdt_MJD := ucast (be16 b3 b4)\<rparr> in
         Inr (TABLES_PARSE_OK, Some (tdt_date t)))))))
     | _ \<Rightarrow> Inr (TABLES_PARSE_ERROR, tdtTable))"

subsection \<open>The floating-point conversion is exact integer arithmetic\<close>

lemma decimals:
  "(365.25 :: rat) = 1461/4" "(15078.2 :: rat) = 75391/5"
  "(30.6001 :: rat) = 306001/10000"
  by simp_all

lemma trunc_year_product:
  assumes "0 \<le> k" and "k < 65536"
  shows "trunc_int (to_double (of_int k * (1461/4))) = 1461 * k div 4"
proof -
  have kr: "(0 :: rat) \<le> of_int k" "of_int k < (65536 :: rat)" using assms by simp_all
  then have lt: "\<bar>of_int k * (1461/4) :: rat\<bar> < 2 ^ 25" by (simp add: abs_mult)
  have "(of_int k * (1461/4) :: rat) * 2 ^ 2 = of_int (1461 * k)" by simp
  from to_double_exact [OF this lt] have
    d: "to_double (of_int k * (1461/4)) = of_int (1461 * k) / of_int 4"
    by simp
  have "\<lfloor>(of_int (1461 * k) / of_int 4 :: rat)\<rfloor> = 1461 * k div 4"
    by (rule floor_divide_of_int_eq)
  then show ?thesis using kr by (simp only: d trunc_int_def) simp
qed

lemma trunc_month_product:
  assumes "0 < k" and "k < 1000"
  shows "trunc_int (to_double (of_int k * to_double (306001/10000))) = 306001 * k div 10000"
proof -
  define c where "c = to_double (306001/10000)"
  have c: "\<bar>c - (306001/10000)\<bar> \<le> 1 / 1000000000" unfolding c_def by (rule to_double_close) simp
  define r :: rat where "r = of_int k"
  have r: "0 < r" "r < 1000" using assms by (simp_all add: r_def)
  have rc: "\<bar>r * c - r * (306001/10000)\<bar> \<le> 1 / 1000000"
  proof -
    have "\<bar>r * c - r * (306001/10000)\<bar> = r * \<bar>c - (306001/10000)\<bar>"
      using r by (simp only: right_diff_distrib [symmetric] abs_mult)
    also have "\<dots> \<le> 1000 * (1 / 1000000000)" using c r by (intro mult_mono) simp_all
    finally show ?thesis by simp
  qed
  have "\<bar>r * c\<bar> \<le> 1000000" using rc r by linarith
  then have "\<bar>to_double (r * c) - r * c\<bar> \<le> 1 / 1000000000" by (rule to_double_close)
  then have "\<bar>to_double (r * c) - r * (306001/10000)\<bar> < 1 / 10000"
    using rc by linarith
  then have "\<bar>to_double (r * c) - of_int (306001 * k) / of_int 10000\<bar> < 1 / of_int 10000"
    by (simp add: r_def mult.commute)
  moreover have "\<not> 10000 dvd 306001 * k"
  proof
    assume "10000 dvd 306001 * k"
    then obtain j where "306001 * k = 10000 * j" ..
    then have "k = 1000 * (10 * j - 306 * k)" by simp
    then have "1000 dvd k" by (rule dvdI)
    then show False using assms zdvd_imp_le [of 1000 k] by linarith
  qed
  ultimately show ?thesis
    using assms unfolding c_def [symmetric] r_def [symmetric]
    by (intro trunc_int_near) simp_all
qed

lemma trunc_first_year:
  assumes "15079 \<le> k" and "k \<le> 65535"
  shows "trunc_int (to_double (to_double (of_int k - to_double (75391/5)) / (1461/4))) =
    (20 * k - 301564) div 7305"
proof -
  define c where "c = to_double (75391/5)"
  have c: "\<bar>c - 75391/5\<bar> \<le> 1 / 1000000000" unfolding c_def by (rule to_double_close) simp
  define r :: rat where "r = of_int k"
  have r: "15079 \<le> r" "r \<le> 65535" using assms by (simp_all add: r_def)
  define a where "a = to_double (r - c)"
  have a: "\<bar>a - (r - c)\<bar> \<le> 1 / 1000000000"
    unfolding a_def using c r by (intro to_double_close) linarith
  have "\<bar>a * (4/1461)\<bar> \<le> 1000000" using a c r by linarith
  then have "\<bar>to_double (a * (4/1461)) - a * (4/1461)\<bar> \<le> 1 / 1000000000"
    by (rule to_double_close)
  then have "\<bar>to_double (a * (4/1461)) - (20 * r - 301564) / 7305\<bar> < 1 / 7305"
    using a c unfolding abs_le_iff abs_less_iff by (simp add: field_simps)
  then have "\<bar>to_double (a / (1461/4)) - of_int (20 * k - 301564) / of_int 7305\<bar> < 1 / of_int 7305"
    by (simp add: r_def)
  moreover have "\<not> 7305 dvd 20 * k - 301564"
  proof
    assume "7305 dvd 20 * k - 301564"
    then obtain j where "20 * k - 301564 = 7305 * j" ..
    then have "4 = 5 * (4 * k - 60312 - 1461 * j)" by simp
    then have "5 dvd (4 :: int)" by (rule dvdI)
    then show False by simp
  qed
  ultimately show ?thesis
    using assms unfolding a_def c_def r_def by (intro trunc_int_near) simp_all
qed

lemma trunc_first_month:
  assumes "15079 \<le> k - i" and "k - i \<le> 15500" and "k \<le> 65535" and "0 \<le> i"
  shows "trunc_int (to_double (to_double (to_double (of_int k - to_double (149561/10)) - of_int i)
      / to_double (306001/10000))) = (10000 * (k - i) - 149561000) div 306001"
proof -
  define c where "c = to_double (149561/10)"
  define q where "q = to_double (306001/10000)"
  define r s :: rat where "r = of_int k" and "s = of_int i"
  have c: "\<bar>c - 149561/10\<bar> \<le> 1 / 1000000000" unfolding c_def by (rule to_double_close) simp
  have q: "\<bar>q - 306001/10000\<bar> \<le> 1 / 1000000000" unfolding q_def by (rule to_double_close) simp
  have "15079 \<le> (of_int (k - i) :: rat)" "(of_int (k - i) :: rat) \<le> 15500"
    using assms(1,2) by (simp_all only: of_int_le_numeral_iff of_int_numeral_le_iff numeral_le_iff)
  then have r: "15079 \<le> r - s" "r - s \<le> 15500" "r \<le> 65535" "0 \<le> s"
    using assms(3,4) by (simp_all add: r_def s_def)
  define a where "a = to_double (r - c)"
  have a: "\<bar>a - (r - c)\<bar> \<le> 1 / 1000000000"
    unfolding a_def using c r by (intro to_double_close) linarith
  define b where "b = to_double (a - s)"
  have b: "\<bar>b - (a - s)\<bar> \<le> 1 / 1000000000"
    unfolding b_def using a c r by (intro to_double_close) linarith
  have b0: "0 < b" "b < 1000" using a b c r by linarith+
  have q0: "30 < q" using q by linarith
  have "\<bar>b / q - b / (306001/10000)\<bar> \<le> 1 / 10000000"
  proof -
    have "b / q - b / (306001/10000) = b * (306001/10000 - q) / (q * (306001/10000))"
      using q0 by (simp add: field_simps)
    then have "\<bar>b / q - b / (306001/10000)\<bar> =
        b * \<bar>306001/10000 - q\<bar> / (q * (306001/10000))"
      using b0 q0 by (simp add: abs_mult)
    also have "\<dots> \<le> 1000 * (1 / 1000000000) / (30 * 1)"
      using b0 q0 q by (intro frac_le mult_mono) (simp_all add: abs_minus_commute)
    finally show ?thesis by simp
  qed
  then have bq: "\<bar>b / q - b * (10000/306001)\<bar> \<le> 1 / 10000000" by simp
  have "\<bar>b / q\<bar> \<le> 1000000" using bq b0 by linarith
  then have "\<bar>to_double (b / q) - b / q\<bar> \<le> 1 / 1000000000" by (rule to_double_close)
  then have "\<bar>to_double (b / q) - (10000 * (r - s) - 149561000) / 306001\<bar> < 1 / 306001"
    using a b c bq unfolding abs_le_iff abs_less_iff by (simp add: field_simps)
  then have "\<bar>to_double (b / q) - of_int (10000 * (k - i) - 149561000) / of_int 306001\<bar> < 1 / of_int 306001"
    by (simp add: r_def s_def)
  moreover have "\<not> 306001 dvd 10000 * (k - i) - 149561000"
  proof
    assume "306001 dvd 10000 * (k - i) - 149561000"
    then obtain j where j: "10000 * (k - i) - 149561000 = 306001 * j" ..
    then have "j = 1000 * (10 * (k - i) - 149561 - 306 * j)" by simp
    then have "1000 dvd j" by (rule dvdI)
    moreover have "306001 * 0 < 306001 * j" "306001 * j < 306001 * 1000"
      using assms(1,2) by (simp_all flip: j)
    then have "0 < j" "j < 1000" by simp_all
    ultimately show False using zdvd_imp_le [of 1000 j] by linarith
  qed
  ultimately show ?thesis
    using assms(1) unfolding a_def b_def c_def q_def r_def s_def
    by (intro trunc_int_near) simp_all
qed

subsection \<open>The calendar\<close>

text \<open>
  The reference: Gregorian dates and their Modified Julian Date, counted from
  1 January 1900, which is day 15020.
\<close>

definition leap_year :: "nat \<Rightarrow> bool" where
  "leap_year y \<longleftrightarrow> 4 dvd y \<and> (\<not> 100 dvd y \<or> 400 dvd y)"

definition days_in_month :: "nat \<Rightarrow> nat \<Rightarrow> nat" where
  "days_in_month y m =
     (if m = 2 then (if leap_year y then 29 else 28) else if m \<in> {4, 6, 9, 11} then 30 else 31)"

definition days_in_year :: "nat \<Rightarrow> nat" where
  "days_in_year y = (if leap_year y then 366 else 365)"

definition mjd_of_date :: "nat \<Rightarrow> nat \<Rightarrow> nat \<Rightarrow> nat" where
  "mjd_of_date y m d = 15020 + (\<Sum>k\<leftarrow>[1900..<y]. days_in_year k)
     + (\<Sum>k\<leftarrow>[1..<m]. days_in_month y k) + d - 1"

definition valid_date :: "nat \<Rightarrow> nat \<Rightarrow> nat \<Rightarrow> bool" where
  "valid_date y m d \<longleftrightarrow> 1900 \<le> y \<and> 1 \<le> m \<and> m \<le> 12 \<and> 1 \<le> d \<and> d \<le> days_in_month y m"

lemma months_cases:
  assumes "1 \<le> m" and "m \<le> (12 :: nat)"
  shows "m = 1 \<or> m = 2 \<or> m = 3 \<or> m = 4 \<or> m = 5 \<or> m = 6
    \<or> m = 7 \<or> m = 8 \<or> m = 9 \<or> m = 10 \<or> m = 11 \<or> m = 12"
  using assms by (auto simp: numeral_eq_Suc le_Suc_eq)

lemma quarter_step: "k div 4 = (k - 1) div 4 + (if 0 < k \<and> 4 dvd k then 1 else 0)" for k :: nat
  by (cases k) (simp_all add: div_Suc dvd_eq_mod_eq_0)

lemma leap_year_window:
  assumes "1900 < y" and "y < 2100"
  shows "leap_year y \<longleftrightarrow> 4 dvd y"
proof -
  have "100 dvd y \<Longrightarrow> y = 2000" using assms by (auto elim!: dvdE)
  then show ?thesis by (auto simp: leap_year_def)
qed

lemma years_sum_ge: "1900 \<le> y \<Longrightarrow> 365 * (y - 1900) \<le> (\<Sum>k\<leftarrow>[1900..<y]. days_in_year k)"
  by (induction y rule: dec_induct) (auto simp: days_in_year_def)

text \<open>Within 1900 to 2099 only 1900 breaks the four-year rule.\<close>

lemma years_sum:
  assumes "k < 200"
  shows "(\<Sum>y\<leftarrow>[1900..<1900 + k]. days_in_year y) = 365 * k + (k - 1) div 4"
  using assms
proof (induction k)
  case (Suc k)
  then have IH: "(\<Sum>y\<leftarrow>[1900..<1900 + k]. days_in_year y) = 365 * k + (k - 1) div 4" by simp
  have "days_in_year (1900 + k) = (if 0 < k \<and> 4 dvd k then 366 else 365)"
  proof (cases "k = 0")
    case False
    have "4 dvd (1900 + k) \<longleftrightarrow> 4 dvd k" by presburger
    then show ?thesis using False Suc.prems leap_year_window [of "1900 + k"] by (simp add: days_in_year_def)
  qed (simp add: days_in_year_def leap_year_def)
  moreover have "(\<Sum>y\<leftarrow>[1900..<1900 + Suc k]. days_in_year y) =
      (\<Sum>y\<leftarrow>[1900..<1900 + k]. days_in_year y) + days_in_year (1900 + k)"
    by (simp only: add_Suc_right upt_Suc) simp
  ultimately show ?case using IH quarter_step [of k] by (simp only: diff_Suc_1) simp
qed simp

text \<open>Days from 1 March to the first of a month, and the year that begins with that March.\<close>

definition march_offset :: "nat \<Rightarrow> int" where
  "march_offset m = [306, 337, 0, 31, 61, 92, 122, 153, 184, 214, 245, 275] ! (m - 1)"

definition march_year :: "nat \<Rightarrow> nat \<Rightarrow> int" where
  "march_year y m = int y - 1900 - (if m \<le> 2 then 1 else 0)"

lemma year_window:
  assumes "valid_date y m d" and "mjd_of_date y m d < 65536"
  shows "y < 2039"
proof -
  have "365 * (y - 1900) \<le> (\<Sum>k\<leftarrow>[1900..<y]. days_in_year k)" and "1 \<le> d"
    using assms(1) years_sum_ge by (simp_all add: valid_date_def)
  then show ?thesis using assms(2) unfolding mjd_of_date_def by linarith
qed

lemma months_sum:
  assumes "1 \<le> m" and "m \<le> 12"
  shows "int (\<Sum>k\<leftarrow>[1..<m]. days_in_month y k) =
    march_offset m + (if m \<le> 2 then - 306 else 59 + (if leap_year y then 1 else 0))"
  using months_cases [OF assms]
  by (elim disjE) (simp_all add: upt_rec days_in_month_def march_offset_def)

lemma mjd_of_date_march:
  assumes "valid_date y m d" and "y < 2100" and "0 \<le> march_year y m"
  shows "int (mjd_of_date y m d) =
    15079 + 1461 * march_year y m div 4 + (march_offset m + int d - 1)"
proof -
  define k where "k = y - 1900"
  have y: "y = 1900 + k" and k: "k < 200" and d: "1 \<le> d" and m: "1 \<le> m" "m \<le> 12"
    using assms(1,2) by (simp_all add: valid_date_def k_def)
  have "(\<Sum>j\<leftarrow>[1900..<y]. days_in_year j) = 365 * k + (k - 1) div 4"
    unfolding y using k by (rule years_sum)
  then have mjd: "int (mjd_of_date y m d) = 15020 + (365 * int k + int ((k - 1) div 4))
      + int (\<Sum>j\<leftarrow>[1..<m]. days_in_month y j) + int d - 1"
    using d by (simp add: mjd_of_date_def)
  have leap: "leap_year y \<longleftrightarrow> 0 < k \<and> 4 dvd k"
  proof (cases "k = 0")
    case False
    have "4 dvd (1900 + k) \<longleftrightarrow> 4 dvd k" by presburger
    then show ?thesis using False assms(2) leap_year_window [of y] by (simp add: y)
  qed (simp add: y leap_year_def)
  show ?thesis
  proof (cases "m \<le> 2")
    case True
    then have my: "march_year y m = int k - 1" and "0 < k"
      using assms(3) by (simp_all add: march_year_def y)
    then have "365 * int k + int ((k - 1) div 4) = 365 + 1461 * (int k - 1) div 4"
      by (simp add: zdiv_int of_nat_diff)
    then show ?thesis using True months_sum [OF m, of y] by (simp add: mjd my)
  next
    case False
    have "1461 * int k div 4 = 365 * int k + int k div 4" by linarith
    then have "365 * int k + int ((k - 1) div 4) + (if leap_year y then 1 else 0) = 1461 * int k div 4"
      using quarter_step [of k] by (simp only: leap zdiv_int [of k 4, simplified, symmetric]) simp
    moreover have "march_year y m = int k" using False by (simp add: march_year_def y)
    ultimately show ?thesis using False months_sum [OF m, of y] by (simp add: mjd)
  qed
qed

text \<open>The day within the March year, and what the integer formulas make of it.\<close>

lemma march_day_range:
  assumes "valid_date y m d" and "y < 2100" and "0 \<le> march_year y m"
  defines "doy \<equiv> march_offset m + int d - 1"
  shows "0 \<le> doy" and "doy \<le> 365" and "doy = 365 \<Longrightarrow> march_year y m mod 4 = 3"
proof -
  have m: "1 \<le> m" "m \<le> 12" and d: "1 \<le> d" "d \<le> days_in_month y m" and y: "1900 \<le> y"
    using assms(1) by (simp_all add: valid_date_def)
  have dm: "int d \<le> int (days_in_month y m)" "1 \<le> int d" using d by simp_all
  show "0 \<le> doy" "doy \<le> 365"
    using months_cases [OF m] dm
    by (elim disjE; simp add: doy_def march_offset_def days_in_month_def split: if_splits)+
  assume "doy = 365"
  then have feb: "m = 2" and "leap_year y"
    using months_cases [OF m] dm
    by (elim disjE; simp add: doy_def march_offset_def days_in_month_def split: if_splits)+
  then have "4 dvd y" by (simp add: leap_year_def)
  then show "march_year y m mod 4 = 3"
    using feb y by (simp add: march_year_def of_nat_diff) presburger
qed

lemma first_year_formula:
  assumes "0 \<le> (y :: int)" and "0 \<le> doy" and "doy \<le> 365" and "doy = 365 \<Longrightarrow> y mod 4 = 3"
  shows "(20 * (15079 + 1461 * y div 4 + doy) - 301564) div 7305 = y"
proof -
  define q r where "q = y div 4" and "r = y mod 4"
  have r: "0 \<le> r" "r \<le> 3" and y: "y = 4 * q + r" by (simp_all add: q_def r_def)
  have "1461 * y div 4 = 365 * y + y div 4" by linarith
  then have "1461 * y div 4 = 1461 * q + 365 * r" using y q_def by linarith
  then have "20 * (15079 + 1461 * y div 4 + doy) - 301564 = y * 7305 + (16 - 5 * r + 20 * doy)"
    by (simp add: y)
  moreover have "0 \<le> 16 - 5 * r + 20 * doy" using r assms(2) by linarith
  moreover have "16 - 5 * r + 20 * doy < 7305"
    using r assms(3,4) by (cases "doy = 365") (simp_all add: r_def)
  ultimately show ?thesis by simp
qed

lemma first_month_formula:
  assumes "1 \<le> m" and "m \<le> 12" and "1 \<le> d" and "d \<le> days_in_month y m"
  shows "(10000 * (15079 + (march_offset m + int d - 1)) - 149561000) div 306001 =
    int m + (if m \<le> 2 then 13 else 1)"
proof -
  have "int d \<le> int (days_in_month y m)" "1 \<le> int d" using assms(3,4) by simp_all
  then show ?thesis
    using months_cases [OF assms(1,2)]
    by (elim disjE) (simp_all add: march_offset_def days_in_month_def split: if_splits)
qed

subsection \<open>What the parser makes of a date\<close>

text \<open>
  How far the day the parser computes is off, by month: it subtracts the days of the
  \<^emph>\<open>corrected\<close> month and year, while the formula of EN 300 468, annex C, is about the
  estimates before the correction.
\<close>

definition day_skew :: "nat \<Rightarrow> nat \<Rightarrow> int" where
  "day_skew y m =
     (if m \<le> 2 then (if leap_year y then 1 else 2)
      else if m \<in> {5, 7, 10, 12} then - 1 else 0)"

definition tdt_section :: "u16 \<Rightarrow> u16 \<Rightarrow> u8 list \<Rightarrow> u8 list" where
  "tdt_section len mjd utc = section_start 0x70 0 len @ [hi8 mjd, lo8 mjd] @ utc"

lemma day_formula:
  assumes "valid_date y m d" and "y < 2100" and "0 \<le> march_year y m"
  shows "int (mjd_of_date y m d) - 14987 - 1461 * (int y - 1900) div 4 - 306001 * int m div 10000 =
    int d + day_skew y m"
proof -
  have m: "1 \<le> m" "m \<le> 12" and y: "1900 \<le> y" using assms(1) by (simp_all add: valid_date_def)
  have quarter: "1461 * k div 4 = 365 * k + k div 4" for k :: int by linarith
  have off: "92 + march_offset m - 306001 * int m div 10000 - 1 =
      (if m \<le> 2 then 367 else day_skew y m)"
    using months_cases [OF m] by (elim disjE) (simp_all add: march_offset_def day_skew_def)
  show ?thesis
  proof (cases "m \<le> 2")
    case False
    then show ?thesis
      using off by (simp add: mjd_of_date_march [OF assms] march_year_def)
  next
    case True
    define k where "k = int y - 1901"
    have k: "0 \<le> k" "int y - 1900 = k + 1" and my: "march_year y m = k"
      using assms(3) True by (simp_all add: k_def march_year_def)
    have "leap_year y \<longleftrightarrow> 4 dvd y" using k assms(2) by (intro leap_year_window) (simp_all add: k_def)
    moreover have "4 dvd y \<longleftrightarrow> 4 dvd (k + 1)" unfolding k_def by presburger
    ultimately have "(k + 1) div 4 - k div 4 = (if leap_year y then 1 else 0)" by simp presburger
    then have "1461 * (k + 1) div 4 = 1461 * k div 4 + 365 + (if leap_year y then 1 else 0)"
      by (simp only: quarter) simp
    then show ?thesis
      using off True by (simp add: mjd_of_date_march [OF assms] my k(2) day_skew_def)
  qed
qed

lemma uint_ucast_u16_u64: "uint (ucast (w :: u16) :: u64) = uint w"
  using uint_bounded [of w] by (simp add: unsigned_ucast_eq take_bit_eq_mod)

lemma uint_of_int_u16: "0 \<le> k \<Longrightarrow> k < 65536 \<Longrightarrow> uint (of_int k :: u16) = k"
  by (simp add: unsigned_of_int take_bit_eq_mod)

lemma year_days_eq: "year_days y = 1461 * uint y div 4"
  using trunc_year_product [of "uint y"] uint_bounded [of y]
  by (simp only: year_days_def decimals) simp

lemma month_days_eq: "0 < uint m \<Longrightarrow> uint m < 1000 \<Longrightarrow> month_days m = 306001 * uint m div 10000"
  by (simp only: month_days_def decimals trunc_month_product)

lemma first_year_window:
  fixes k :: int
  assumes "15079 \<le> k" and "k \<le> 65535"
  defines "y \<equiv> (20 * k - 301564) div 7305"
  shows "0 \<le> y" and "y < 139" and "15079 \<le> k - 1461 * y div 4" and "k - 1461 * y div 4 \<le> 15444"
proof -
  have b: "7305 * y \<le> 20 * k - 301564" "20 * k - 301564 < 7305 * y + 7305"
    unfolding y_def by linarith+
  show "0 \<le> y" "y < 139" using b assms by linarith+
  have "4 * (1461 * y div 4) \<le> 1461 * y" "1461 * y < 4 * (1461 * y div 4) + 4" by linarith+
  then show "15079 \<le> k - 1461 * y div 4" "k - 1461 * y div 4 \<le> 15444" using b by linarith+
qed

lemma u16_bounds: "0 \<le> uint (w :: u16)" "uint (w :: u16) \<le> 65535"
  using uint_bounded [of w] by simp_all

lemma tdt_first_year_eq:
  assumes "15079 \<le> uint (w :: u16)"
  shows "uint (tdt_first_year (ucast w)) = (20 * uint w - 301564) div 7305"
proof -
  have "tdt_first_year (ucast w) = of_int ((20 * uint w - 301564) div 7305)"
    using assms u16_bounds [of w]
    by (simp only: tdt_first_year_def decimals uint_ucast_u16_u64 trunc_first_year)
  then show ?thesis
    using first_year_window [OF assms u16_bounds(2)] by (simp add: uint_of_int_u16)
qed

lemma tdt_first_month_eq:
  assumes "15079 \<le> uint (w :: u16)"
  defines "days \<equiv> 1461 * ((20 * uint w - 301564) div 7305) div 4"
  shows "uint (tdt_first_month (ucast w) (tdt_first_year (ucast w))) =
    (10000 * (uint w - days) - 149561000) div 306001"
proof -
  note win = first_year_window [OF assms(1) u16_bounds(2), folded days_def]
  have "0 \<le> days" using win(1) by (simp add: days_def)
  then have "trunc_int (to_double (to_double (to_double (of_int (uint w) - to_double (149561/10))
        - of_int days) / to_double (306001/10000))) =
      (10000 * (uint w - days) - 149561000) div 306001"
    using win(3,4) u16_bounds [of w] by (intro trunc_first_month) linarith+
  then have "tdt_first_month (ucast w) (tdt_first_year (ucast w)) =
      of_int ((10000 * (uint w - days) - 149561000) div 306001)"
    by (simp only: tdt_first_month_def decimals uint_ucast_u16_u64 year_days_eq
        tdt_first_year_eq [OF assms(1)] days_def)
  moreover have "0 \<le> (10000 * (uint w - days) - 149561000) div 306001"
    "(10000 * (uint w - days) - 149561000) div 306001 < 65536"
    using win(3,4) by simp_all
  ultimately show ?thesis by (simp add: uint_of_int_u16)
qed

text \<open>
  C16. The date estimates of the TDT parser are computed in \<open>double\<close>; for every Modified
  Julian Date from 1 March 1900 on that fits the 16-bit field, the year, the days of
  that year and the month estimate equal the exact integer quotients of the formula: no
  rounding of an operation, and no decimal constant that a double only approximates, ever
  changes the truncated result.
\<close>

theorem tdt_estimates_exact:
  assumes "15079 \<le> uint (w :: u16)"
  shows "uint (tdt_first_year (ucast w)) = (20 * uint w - 301564) div 7305
    \<and> year_days (tdt_first_year (ucast w)) = 1461 * ((20 * uint w - 301564) div 7305) div 4
    \<and> uint (tdt_first_month (ucast w) (tdt_first_year (ucast w))) =
       (10000 * (uint w - 1461 * ((20 * uint w - 301564) div 7305) div 4) - 149561000) div 306001"
  using assms by (simp add: tdt_first_year_eq tdt_first_month_eq year_days_eq)

theorem tdt_estimates_exact_witness:
  "15079 \<le> uint (55097 :: u16) \<and> uint (tdt_first_year 55097) = 109
   \<and> year_days (tdt_first_year 55097) = 39812 \<and> uint (tdt_first_month 55097 (tdt_first_year 55097)) = 10"
proof -
  have h: "15079 \<le> uint (55097 :: u16)" by simp
  show ?thesis using tdt_estimates_exact [OF h] by simp
qed

lemma ucast_of_int_u64_u16: "ucast (of_int k :: u64) = (of_int k :: u16)"
  by transfer (simp add: take_bit_take_bit)

lemma tdt_estimates_of_date:
  assumes "valid_date y m d" and "15079 \<le> mjd_of_date y m d" and "mjd_of_date y m d < 65536"
  defines "w \<equiv> of_nat (mjd_of_date y m d) :: u16"
  shows "y < 2100" and "0 \<le> march_year y m" and "uint w = int (mjd_of_date y m d)"
    and "uint (tdt_first_year (ucast w)) = march_year y m"
    and "uint (tdt_first_month (ucast w) (tdt_first_year (ucast w))) = int m + (if m \<le> 2 then 13 else 1)"
proof -
  have m: "1 \<le> m" "m \<le> 12" "1 \<le> d" "d \<le> days_in_month y m" and y1: "1900 \<le> y"
    using assms(1) by (simp_all add: valid_date_def)
  show y: "y < 2100" using year_window [OF assms(1,3)] by simp
  show my: "0 \<le> march_year y m"
  proof (rule ccontr)
    assume "\<not> 0 \<le> march_year y m"
    then have "m \<le> 2" "y = 1900" using y1 by (auto simp: march_year_def split: if_splits)
    then have "mjd_of_date y m d < 15079"
      using m months_cases [OF m(1,2)]
      by (auto simp: mjd_of_date_def days_in_month_def leap_year_def upt_rec)
    then show False using assms(2) by simp
  qed
  show w: "uint w = int (mjd_of_date y m d)"
    using assms(3) unfolding w_def by (metis unat_of_nat_u16 uint_nat)
  let ?doy = "march_offset m + int d - 1"
  note doy = march_day_range [OF assms(1) y my]
  have k: "uint w = 15079 + 1461 * march_year y m div 4 + ?doy"
    using w mjd_of_date_march [OF assms(1) y my] by simp
  have fy: "(20 * uint w - 301564) div 7305 = march_year y m"
    unfolding k using my doy by (rule first_year_formula)
  have ge: "15079 \<le> uint w" using assms(2) by (simp add: w)
  show "uint (tdt_first_year (ucast w)) = march_year y m"
    using tdt_first_year_eq [OF ge] fy by simp
  have "uint w - 1461 * march_year y m div 4 = 15079 + ?doy" using k by linarith
  then show "uint (tdt_first_month (ucast w) (tdt_first_year (ucast w))) = int m + (if m \<le> 2 then 13 else 1)"
    using tdt_first_month_eq [OF ge] fy first_month_formula [OF m] by simp
qed

lemma word_of_uint: "uint w = k \<Longrightarrow> w = of_int k"
  by (auto simp: of_int_uint)

lemma tdt_date_fields:
  fixes t :: TdtTable
  defines "Y \<equiv> tdt_first_year (tdt_MJD t)"
  defines "M \<equiv> tdt_first_month (tdt_MJD t) Y"
  defines "K \<equiv> if M = 14 \<or> M = 15 then 1 else 0 :: u8"
  shows "tdt_date t = t\<lparr>tdt_tmpYear := Y + ucast K, tdt_tmpMonth := M - 1 - ucast K * 12, tdt_K := K,
     tdt_day := ucast (tdt_MJD t - 14987 - of_int (year_days (Y + ucast K))
                 - of_int (month_days (M - 1 - ucast K * 12))),
     tdt_Year := Y + ucast K + 1900\<rparr>"
  by (simp add: tdt_date_def Let_def Y_def M_def K_def)

lemma tdt_date_of_date:
  assumes "valid_date y m d" and "15079 \<le> mjd_of_date y m d" and "mjd_of_date y m d < 65536"
    and t: "tdt_MJD t = ucast (of_nat (mjd_of_date y m d) :: u16)"
  shows "tdt_Year (tdt_date t) = of_nat y" and "tdt_tmpMonth (tdt_date t) = of_nat m"
    and "tdt_day (tdt_date t) = of_int (int d + day_skew y m)"
proof -
  note est = tdt_estimates_of_date [OF assms(1-3)]
  define Y M where "Y = tdt_first_year (tdt_MJD t)" and "M = tdt_first_month (tdt_MJD t) Y"
  define K :: u8 where "K = (if m \<le> 2 then 1 else 0)"
  have m: "1 \<le> m" "m \<le> 12" using assms(1) by (simp_all add: valid_date_def)
  have "uint M = int (if m \<le> 2 then m + 13 else m + 1)" using est(5) by (simp add: M_def Y_def t)
  from word_of_uint [OF this] have M: "M = of_nat (if m \<le> 2 then m + 13 else m + 1)"
    by (simp only: of_int_of_nat_eq)
  have "Y = of_int (march_year y m)" unfolding Y_def t by (rule word_of_uint [OF est(4)])
  then have YK: "Y + ucast K = of_int (int y - 1900)"
    by (simp add: march_year_def K_def)
  have MK: "M - 1 - ucast K * 12 = of_nat m" and K: "(M = 14 \<or> M = 15) \<longleftrightarrow> m \<le> 2"
    using months_cases [OF m] by (elim disjE; simp add: M K_def)+
  have uy: "uint (of_int (int y - 1900) :: u16) = int y - 1900"
    using assms(1) est(1) by (intro uint_of_int_u16) (simp_all add: valid_date_def)
  have um: "uint (of_nat m :: u16) = int m"
    using m uint_of_int_u16 [of "int m"] by simp
  define D :: int where "D = int (mjd_of_date y m d) - 14987 - 1461 * (int y - 1900) div 4
      - 306001 * int m div 10000"
  have "tdt_MJD t = of_int (int (mjd_of_date y m d))"
    unfolding t by (rule word_of_uint) (simp only: uint_ucast_u16_u64 est(3))
  then have D: "tdt_MJD t - 14987 - of_int (year_days (of_int (int y - 1900)))
      - of_int (month_days (of_nat m)) = of_int D"
    using m by (simp only: year_days_eq month_days_eq uy um D_def) simp
  have date: "tdt_date t = t\<lparr>tdt_tmpYear := of_int (int y - 1900), tdt_tmpMonth := of_nat m,
      tdt_K := K, tdt_day := of_int D, tdt_Year := of_int (int y - 1900) + 1900\<rparr>"
    using K YK MK D tdt_date_fields [of t]
    by (simp only: Y_def [symmetric] M_def [symmetric] K_def [symmetric] ucast_of_int_u64_u16)
  show "tdt_Year (tdt_date t) = of_nat y" "tdt_tmpMonth (tdt_date t) = of_nat m"
    by (simp_all add: date)
  show "tdt_day (tdt_date t) = of_int (int d + day_skew y m)"
    using day_formula [OF assms(1) est(1,2)] by (simp only: date D_def) simp
qed

lemma parseTdtTable_section:
  assumes "unat len < 4096"
  shows "parseTdtTable (Some (tdt_section len mjd utc, 0)) (Some t) =
    Inr (TABLES_PARSE_OK, Some (tdt_date (t\<lparr>tdt_tableId := 0x70, tdt_sectionLength := len,
      tdt_MJD := ucast mjd\<rparr>)))"
  using assms by (simp add: parseTdtTable_def tdt_section_def section_start_def Let_def)

lemma tdt_date_frame [simp]:
  "tdt_tableId (tdt_date t) = tdt_tableId t" "tdt_sectionLength (tdt_date t) = tdt_sectionLength t"
  "tdt_MJD (tdt_date t) = tdt_MJD t"
  by (simp_all add: tdt_date_fields)

text \<open>
  C11. What the TDT parser makes of the date of a section, for every calendar date from
  1 March 1900 whose Modified Julian Date fits the field: year and month are the
  calendar's. The day is the calendar's in March, April, June, August,
  September and November; in May, July, October and December it is one too small (the
  first of the month becomes day 0), in January and February two too large (one in
  a leap year).
\<close>

theorem parseTdtTable_date:
  assumes "valid_date y m d" and "15079 \<le> mjd_of_date y m d" and "mjd_of_date y m d < 65536"
    and "unat len < 4096"
  shows "\<exists>t'. parseTdtTable (Some (tdt_section len (of_nat (mjd_of_date y m d)) utc, 0)) (Some t) =
        Inr (TABLES_PARSE_OK, Some t')
    \<and> tdt_sectionLength t' = len \<and> tdt_Year t' = of_nat y \<and> tdt_tmpMonth t' = of_nat m
    \<and> tdt_day t' = of_int (int d + day_skew y m)"
  using parseTdtTable_section [OF assms(4)] tdt_date_of_date [OF assms(1-3)] by simp

definition zero_TdtTable :: TdtTable where
  "zero_TdtTable = \<lparr>tdt_tableId = 0, tdt_sectionSyntaxIndicator = 0, tdt_sectionLength = 0,
     tdt_MJD = 0, tdt_tmpYear = 0, tdt_Year = 0, tdt_tmpMonth = 0, tdt_day = 0, tdt_K = 0\<rparr>"

text \<open>Two dates for the examples, one of each behaviour.\<close>

lemma sample_dates:
  "valid_date 2009 9 23" "valid_date 2010 2 2"
  "mjd_of_date 2009 9 23 = 55097" "mjd_of_date 2010 2 2 = 55229"
  "day_skew 2009 9 = 0" "day_skew 2010 2 = 2"
proof -
  have years: "(\<Sum>k\<leftarrow>[1900..<2009]. days_in_year k) = 39812"
    "(\<Sum>k\<leftarrow>[1900..<2010]. days_in_year k) = 40177"
    using years_sum [of 109] years_sum [of 110] by simp_all
  show "mjd_of_date 2009 9 23 = 55097" "mjd_of_date 2010 2 2 = 55229"
    using years by (simp_all add: mjd_of_date_def days_in_month_def leap_year_def upt_rec)
  show "valid_date 2009 9 23" "valid_date 2010 2 2"
    by (simp_all add: valid_date_def days_in_month_def)
  show "day_skew 2009 9 = 0" "day_skew 2010 2 = 2"
    by (simp_all add: day_skew_def leap_year_def)
qed

theorem parseTdtTable_date_witness:
  "(\<exists>t'. parseTdtTable (Some (tdt_section 5 55097 [0x12, 0x34, 0x56], 0)) (Some zero_TdtTable) =
       Inr (TABLES_PARSE_OK, Some t')
     \<and> tdt_sectionLength t' = 5 \<and> tdt_Year t' = 2009 \<and> tdt_tmpMonth t' = 9 \<and> tdt_day t' = 23)
   \<and> (\<exists>t'. parseTdtTable (Some (tdt_section 5 55229 [0x12, 0x34, 0x56], 0)) (Some zero_TdtTable) =
       Inr (TABLES_PARSE_OK, Some t')
     \<and> tdt_sectionLength t' = 5 \<and> tdt_Year t' = 2010 \<and> tdt_tmpMonth t' = 2 \<and> tdt_day t' = 4)"
proof -
  have len: "unat (5 :: u16) < 4096" by simp
  note v = sample_dates(1,2) and mjd = sample_dates(3,4) and skew = sample_dates(5,6)
  show ?thesis
    using parseTdtTable_date [OF v(1) _ _ len, of "[0x12, 0x34, 0x56]" zero_TdtTable]
      parseTdtTable_date [OF v(2) _ _ len, of "[0x12, 0x34, 0x56]" zero_TdtTable]
    by (simp add: mjd skew)
qed

text \<open>
  The TDT parser answers null arguments with an error, and on any five readable bytes it
  succeeds, whatever the table id: it stores the table id, the low 12 bits of
  the length and the 16-bit date code, and leaves the syntax indicator alone.
\<close>

theorem parseTdtTable_total:
  "parseTdtTable None p = Inr (TABLES_PARSE_ERROR, p)
   \<and> parseTdtTable q None = Inr (TABLES_PARSE_ERROR, None)
   \<and> (\<exists>t'. parseTdtTable (Some (b0 # b1 # b2 # b3 # b4 # bs, 0)) (Some t) = Inr (TABLES_PARSE_OK, Some t')
        \<and> tdt_tableId t' = b0 \<and> tdt_sectionLength t' = be16 b1 b2 AND 0x0FFF
        \<and> tdt_MJD t' = ucast (be16 b3 b4)
        \<and> tdt_sectionSyntaxIndicator t' = tdt_sectionSyntaxIndicator t)"
  by (auto simp: parseTdtTable_def Let_def tdt_date_fields split: option.splits)

end
