(* ===== verification/Tables_Tot.thy ===== *)
theory Tables_Tot
  imports Table_Loop Section_Codec
begin

section \<open>The Time Offset Table (tables.h, tables\_parser.c)\<close>

text \<open>
  The structures of a TOT with its local time offset descriptors, the parser, and what it
  does: the regions of a single descriptor come back, no region is ever
  written outside its array, the regions of further descriptors are taken from the first
  one, and descriptors of another kind can drive the loop out of the table.
\<close>

subsection \<open>Structures\<close>

definition TABLES_MAX_NUMBER_OF_LTO_DESCRIPTORS :: nat where
  "TABLES_MAX_NUMBER_OF_LTO_DESCRIPTORS = 20"

definition TABLES_MAX_NUMBER_OF_TOT_DESCRIPTORS :: nat where
  "TABLES_MAX_NUMBER_OF_TOT_DESCRIPTORS = 20"

record LTODescriptorInfo =
  countryCH1 :: u8
  countryCH2 :: u8
  countryCH3 :: u8
  countryRegionId :: u8
  localTimeOffsetPolarity :: u8
  localTimeOffsetHours :: u8
  localTimeOffsetMinutes :: u8

record LocalTimeOffsetDescriptor =
  descriptorTag :: u8
  descriptorLength :: u8
  ltoInfo :: "LTODescriptorInfo list"
  numberOfInfos :: u8

record TotTable =
  tot_tableId :: u8
  tot_sectionSyntaxIndicator :: u8
  tot_sectionLength :: u16
  tot_MJD :: u16
  descriptorsLoopLength :: u16
  descriptors :: "LocalTimeOffsetDescriptor list"
  descriptorsCount :: u8

subsection \<open>The parser\<close>

text \<open>Two decimal digits in one byte, as the parser reads the offset.\<close>

definition bcd_value :: "u8 \<Rightarrow> u8" where
  "bcd_value b = (b AND 0x0F) + 10 * drop_bit 4 (b AND 0xF0)"

text \<open>
  The inner loop, on the descriptor that is being filled. The position of the regions does
  not depend on which descriptor it is.
\<close>

function parseTot_infos ::
  "byte_ptr \<Rightarrow> u8 \<Rightarrow> LocalTimeOffsetDescriptor \<Rightarrow> LocalTimeOffsetDescriptor c_res" where
  "parseTot_infos buf i desc =
    (if i < numberOfInfos desc then
       c_bind (deref buf (12 + unat i * 13)) (\<lambda>c1.
       c_bind (deref buf (13 + unat i * 13)) (\<lambda>c2.
       c_bind (deref buf (14 + unat i * 13)) (\<lambda>c3.
       c_bind (deref buf (15 + unat i * 13)) (\<lambda>region.
       c_bind (deref buf (16 + unat i * 13)) (\<lambda>hours.
       c_bind (deref buf (17 + unat i * 13)) (\<lambda>minutes.
       c_bind (array_set (ltoInfo desc) (unat i)
                 \<lparr>countryCH1 = c1, countryCH2 = c2, countryCH3 = c3,
                  countryRegionId = drop_bit 2 region,
                  localTimeOffsetPolarity = region AND 0x01,
                  localTimeOffsetHours = bcd_value hours,
                  localTimeOffsetMinutes = bcd_value minutes\<rparr>) (\<lambda>infos.
       parseTot_infos buf (i + 1) (desc\<lparr>ltoInfo := infos\<rparr>))))))))
     else Inr desc)"
  by pat_completeness auto
termination
proof (relation "measure (\<lambda>(p, i, d). unat (numberOfInfos d) - unat i)", goal_cases)
  case (2 buf i desc)
  then have "unat i < unat (numberOfInfos desc)" by (simp add: word_less_nat_alt)
  moreover have "unat i < 255"
    using calculation unat_u8_less [of "numberOfInfos desc"] by linarith
  ultimately show ?case by (simp add: unat_Suc_u8)
qed simp

declare parseTot_infos.simps [simp del]

text \<open>Access to \<open>descriptors[i]\<close>, an array of \<open>TABLES_MAX_NUMBER_OF_TOT_DESCRIPTORS\<close> elements.\<close>

definition tot_descriptor :: "TotTable \<Rightarrow> nat \<Rightarrow> LocalTimeOffsetDescriptor c_res" where
  "tot_descriptor t i =
     (if i < TABLES_MAX_NUMBER_OF_TOT_DESCRIPTORS then array_get (descriptors t) i
      else Inl Read_Out_Of_Bounds)"

definition tot_descriptor_store ::
  "TotTable \<Rightarrow> nat \<Rightarrow> LocalTimeOffsetDescriptor \<Rightarrow> TotTable c_res" where
  "tot_descriptor_store t i d =
     (if i < TABLES_MAX_NUMBER_OF_TOT_DESCRIPTORS
      then c_bind (array_set (descriptors t) i d) (\<lambda>ds. Inr (t\<lparr>descriptors := ds\<rparr>))
      else Inl Write_Out_Of_Bounds)"

text \<open>
  One round of the outer loop up to the update of the counters: a descriptor with tag 0x58
  is stored, any other tag leaves the slot as it was.
\<close>

definition parseTot_descriptor :: "byte_ptr \<Rightarrow> TotTable \<Rightarrow> TotTable c_res" where
  "parseTot_descriptor buf t =
    (let currentDesc = unat (descriptorsCount t) in
     c_bind (deref buf (10 + 15 * currentDesc)) (\<lambda>currentTag.
     if currentTag = 0x58 then
       if currentDesc < TABLES_MAX_NUMBER_OF_TOT_DESCRIPTORS then
         c_bind (tot_descriptor t currentDesc) (\<lambda>d.
         c_bind (deref buf (11 + 15 * currentDesc)) (\<lambda>len.
         c_bind (parseTot_infos buf 0
                   (d\<lparr>descriptorTag := currentTag, descriptorLength := len,
                      numberOfInfos := len div 13\<rparr>)) (\<lambda>d.
         tot_descriptor_store t currentDesc d)))
       else Inl Write_Out_Of_Bounds
     else Inr t))"

function parseTotTable_loop :: "byte_ptr \<Rightarrow> u16 \<Rightarrow> TotTable \<Rightarrow> TotTable c_res" where
  "parseTotTable_loop buf descriptorLoopLength t =
    (if descriptorLoopLength > 4 then
       c_bind (parseTot_descriptor buf t) (\<lambda>t'.
       c_bind (tot_descriptor t' (unat (descriptorsCount t))) (\<lambda>d.
       parseTotTable_loop buf (descriptorLoopLength - (ucast (descriptorLength d) + 2))
         (t'\<lparr>descriptorsCount := descriptorsCount t + 1\<rparr>)))
     else Inr t)"
  by pat_completeness auto
termination
proof (relation "measure (\<lambda>(p, l, t). 256 - unat (descriptorsCount t))", goal_cases)
  case (2 buf len t t' d)
  then have "unat (descriptorsCount t) < 20"
    by (simp add: tot_descriptor_def TABLES_MAX_NUMBER_OF_TOT_DESCRIPTORS_def split: if_splits)
  then show ?case by (simp add: unat_Suc_u8)
qed simp

declare parseTotTable_loop.simps [simp del]

text \<open>The table is written (its count is reset) before either pointer is tested.\<close>

definition parseTotTable ::
  "byte_ptr option \<Rightarrow> TotTable option \<Rightarrow> (ParseErrorCode \<times> TotTable option) c_res" where
  "parseTotTable totSectionBuffer totTable =
    (case totTable of
       None \<Rightarrow> Inl Null_Dereference
     | Some t \<Rightarrow>
         let t = t\<lparr>descriptorsCount := 0\<rparr> in
         (case totSectionBuffer of
            None \<Rightarrow> Inr (TABLES_PARSE_ERROR, Some t)
          | Some buf \<Rightarrow>
              c_bind (deref buf 0) (\<lambda>b0.
              let t = t\<lparr>tot_tableId := b0\<rparr> in
              c_bind (deref buf 1) (\<lambda>b1.
              c_bind (deref buf 2) (\<lambda>b2.
              let t = t\<lparr>tot_sectionLength := be16 b1 b2 AND 0x0FFF\<rparr> in
              c_bind (deref buf 3) (\<lambda>b3.
              c_bind (deref buf 4) (\<lambda>b4.
              let t = t\<lparr>tot_MJD := be16 b3 b4\<rparr> in
              c_bind (deref buf 8) (\<lambda>b8.
              c_bind (deref buf 9) (\<lambda>b9.
              let t = t\<lparr>descriptorsLoopLength := be16 b8 b9 AND 0x0FFF\<rparr> in
              c_bind (parseTotTable_loop buf (be16 b8 b9 AND 0x0FFF) t) (\<lambda>t.
              Inr (TABLES_PARSE_OK, Some t)))))))))))"

lemma parseTot_infos_ends: "memory_only (parseTot_infos p i d)"
proof (induction p i d rule: parseTot_infos.induct)
  case (1 p i d)
  then show ?case by (subst parseTot_infos.simps) (auto intro!: memory_only_bind)
qed

lemma parseTotTable_loop_ends: "memory_only (parseTotTable_loop p l t)"
proof (induction p l t rule: parseTotTable_loop.induct)
  case (1 p l t)
  have "memory_only (tot_descriptor t k)" for t k by (simp add: tot_descriptor_def)
  moreover from this have "memory_only (parseTot_descriptor p t)"
    by (auto simp: parseTot_descriptor_def Let_def parseTot_infos_ends tot_descriptor_store_def intro!: memory_only_bind)
  ultimately show ?case using 1 by (subst parseTotTable_loop.simps) (auto intro!: memory_only_bind)
qed

lemma parseTotTable_ends: "memory_only (parseTotTable p tot)"
  by (auto simp: parseTotTable_def Let_def parseTotTable_loop_ends split: option.splits intro!: memory_only_bind)

subsection \<open>Well-formed tables\<close>

definition wf_lto :: "LocalTimeOffsetDescriptor \<Rightarrow> bool" where
  "wf_lto d \<longleftrightarrow> length (ltoInfo d) = TABLES_MAX_NUMBER_OF_LTO_DESCRIPTORS
     \<and> unat (numberOfInfos d) \<le> TABLES_MAX_NUMBER_OF_LTO_DESCRIPTORS"

definition wf_tot :: "TotTable \<Rightarrow> bool" where
  "wf_tot t \<longleftrightarrow> length (descriptors t) = TABLES_MAX_NUMBER_OF_TOT_DESCRIPTORS
     \<and> list_all wf_lto (descriptors t)
     \<and> unat (descriptorsCount t) \<le> TABLES_MAX_NUMBER_OF_TOT_DESCRIPTORS"

lemmas tot_consts = TABLES_MAX_NUMBER_OF_LTO_DESCRIPTORS_def TABLES_MAX_NUMBER_OF_TOT_DESCRIPTORS_def

text \<open>The region at position \<open>i\<close> of the buffer.\<close>

definition lto_at :: "u8 list \<Rightarrow> nat \<Rightarrow> LTODescriptorInfo" where
  "lto_at bs i =
     \<lparr>countryCH1 = bs ! (12 + i * 13), countryCH2 = bs ! (13 + i * 13), countryCH3 = bs ! (14 + i * 13),
      countryRegionId = drop_bit 2 (bs ! (15 + i * 13)),
      localTimeOffsetPolarity = bs ! (15 + i * 13) AND 0x01,
      localTimeOffsetHours = bcd_value (bs ! (16 + i * 13)),
      localTimeOffsetMinutes = bcd_value (bs ! (17 + i * 13))\<rparr>"

text \<open>A length byte announces at most 19 regions, one less than there is room for.\<close>

lemma unat_div13: "unat (len div 13 :: u8) = unat len div 13"
  by (simp add: unat_div)

lemma div13_le: "unat (len div 13 :: u8) \<le> 19"
proof -
  have "unat len \<le> 255" using unat_u8_less [of len] by linarith
  then show ?thesis by (simp add: unat_div13)
qed

lemma parseTot_infos_eq:
  assumes "length (ltoInfo d) = 20" and "unat (numberOfInfos d) \<le> 20"
    and "unat i \<le> unat (numberOfInfos d)" and "5 + 13 * unat (numberOfInfos d) \<le> length bs"
  shows "parseTot_infos (bs, 0) i d =
    Inr (d\<lparr>ltoInfo := take (unat i) (ltoInfo d) @ map (lto_at bs) [unat i..<unat (numberOfInfos d)]
                       @ drop (unat (numberOfInfos d)) (ltoInfo d)\<rparr>)"
  using assms
proof (induction "unat (numberOfInfos d) - unat i" arbitrary: i d)
  case 0
  then show ?case by (simp add: parseTot_infos.simps [of _ i d] word_less_nat_alt)
next
  case (Suc k)
  let ?n = "unat (numberOfInfos d)"
  have i: "unat i < ?n" using Suc.hyps(2) by simp
  have i1: "unat (i + 1) = Suc (unat i)" using i Suc.prems(2) by (simp add: unat_Suc_u8)
  define d' where "d' = d\<lparr>ltoInfo := (ltoInfo d)[unat i := lto_at bs (unat i)]\<rparr>"
  have "parseTot_infos (bs, 0) i d = parseTot_infos (bs, 0) (i + 1) d'"
    using i Suc.prems
    by (simp add: parseTot_infos.simps [of _ i d] word_less_nat_alt lto_at_def d'_def)
  also have "\<dots> = Inr (d'\<lparr>ltoInfo := take (Suc (unat i)) (ltoInfo d') @
      map (lto_at bs) [Suc (unat i)..<?n] @ drop ?n (ltoInfo d')\<rparr>)"
    using Suc.hyps(1) [of d' "i + 1"] Suc.hyps(2) Suc.prems i i1 by (simp add: d'_def)
  finally show ?case
    using i Suc.prems by (simp add: d'_def take_Suc_conv_app_nth upt_conv_Cons)
qed

lemma parseTot_infos_wf:
  assumes "parseTot_infos p i d = Inr d'" and "length (ltoInfo d) = 20"
  shows "length (ltoInfo d') = 20 \<and> numberOfInfos d' = numberOfInfos d
    \<and> descriptorLength d' = descriptorLength d \<and> descriptorTag d' = descriptorTag d"
  using assms
proof (induction p i d arbitrary: d' rule: parseTot_infos.induct)
  case (1 buf i d)
  show ?case
  proof (cases "i < numberOfInfos d")
    case False
    then show ?thesis using "1.prems" by (simp add: parseTot_infos.simps [of buf i d])
  next
    case True
    then show ?thesis
      using "1.prems" parseTot_infos.simps [of buf i d]
      by (auto simp: c_bind_eq_Inr dest!: "1.IH" dest: array_set_length)
  qed
qed

lemma parseTot_descriptor_wf:
  assumes "parseTot_descriptor p t = Inr t'" and "wf_tot t"
  shows "wf_tot t' \<and> descriptorsCount t' = descriptorsCount t"
proof -
  have lto: "wf_lto d'" if "parseTot_infos p 0 (d\<lparr>descriptorTag := g, descriptorLength := len,
      numberOfInfos := len div 13\<rparr>) = Inr d'" and "wf_lto d" for d d' g len
    using parseTot_infos_wf [OF that(1)] that(2) div13_le [of len]
    by (simp add: wf_lto_def tot_consts)
  show ?thesis
    using assms lto
    by (auto simp: parseTot_descriptor_def tot_descriptor_def tot_descriptor_store_def wf_tot_def
        list_all_length nth_list_update array_get_def array_set_def Let_def c_bind_eq_Inr tot_consts
        split: if_splits)
qed

lemma parseTotTable_loop_wf:
  assumes "parseTotTable_loop p len t = Inr t'" and "wf_tot t"
  shows "wf_tot t'"
  using assms
proof (induction p len t rule: parseTotTable_loop.induct)
  case (1 buf len t)
  show ?case
  proof (cases "len > 4")
    case False
    then show ?thesis using "1.prems" by (simp add: parseTotTable_loop.simps [of buf len t])
  next
    case True
    then obtain t1 d where t1: "parseTot_descriptor buf t = Inr t1"
      and d: "tot_descriptor t1 (unat (descriptorsCount t)) = Inr d"
      and l: "parseTotTable_loop buf (len - (ucast (descriptorLength d) + 2))
         (t1\<lparr>descriptorsCount := descriptorsCount t + 1\<rparr>) = Inr t'"
      using "1.prems"(1) by (auto simp: parseTotTable_loop.simps [of buf len t] c_bind_eq_Inr)
    have "unat (descriptorsCount t) < 20"
      using d by (simp add: tot_descriptor_def tot_consts split: if_splits)
    then have "wf_tot (t1\<lparr>descriptorsCount := descriptorsCount t + 1\<rparr>)"
      using parseTot_descriptor_wf [OF t1 "1.prems"(2)]
      by (simp add: wf_tot_def tot_consts unat_Suc_u8)
    then show ?thesis using "1.IH" [OF True t1 d l] by simp
  qed
qed

subsection \<open>Rounds of the loop on known bytes\<close>

lemma parseTotTable_header:
  assumes "10 \<le> length bs"
  shows "parseTotTable (Some (bs, 0)) (Some t) =
    c_bind (parseTotTable_loop (bs, 0) (be16 (bs ! 8) (bs ! 9) AND 0x0FFF)
       (t\<lparr>tot_tableId := bs ! 0, tot_sectionLength := be16 (bs ! 1) (bs ! 2) AND 0x0FFF,
          tot_MJD := be16 (bs ! 3) (bs ! 4),
          descriptorsLoopLength := be16 (bs ! 8) (bs ! 9) AND 0x0FFF, descriptorsCount := 0\<rparr>))
     (\<lambda>t. Inr (TABLES_PARSE_OK, Some t))"
proof -
  have "bs \<noteq> []" using assms by auto
  then show ?thesis using assms by (cases t) (simp add: parseTotTable_def Let_def numeral_2_eq_2)
qed

text \<open>One round on a local time offset descriptor and on any other one.\<close>

definition lto_filled :: "u8 list \<Rightarrow> u8 \<Rightarrow> LocalTimeOffsetDescriptor \<Rightarrow> LocalTimeOffsetDescriptor" where
  "lto_filled bs len d =
     d\<lparr>descriptorTag := 0x58, descriptorLength := len, numberOfInfos := len div 13,
       ltoInfo := map (lto_at bs) [0..<unat len div 13] @ drop (unat len div 13) (ltoInfo d)\<rparr>"

lemma loop_round_lto:
  assumes "wf_tot t" and "4 < len" and j: "unat (descriptorsCount t) = j" "j < 20"
    and "bs ! (10 + 15 * j) = 0x58" and b: "bs ! (11 + 15 * j) = b"
    and "11 + 15 * j < length bs" and "5 + 13 * (unat b div 13) \<le> length bs"
  shows "parseTotTable_loop (bs, 0) len t =
    parseTotTable_loop (bs, 0) (len - (ucast b + 2))
      (t\<lparr>descriptors := (descriptors t)[j := lto_filled bs b (descriptors t ! j)],
         descriptorsCount := descriptorsCount t + 1\<rparr>)"
proof -
  have l: "length (descriptors t) = 20" "wf_lto (descriptors t ! j)"
    using assms(1) j(2) by (auto simp: wf_tot_def tot_consts list_all_length)
  have "parseTot_infos (bs, 0) 0 ((descriptors t ! j)\<lparr>descriptorTag := 0x58, descriptorLength := b,
      numberOfInfos := b div 13\<rparr>) = Inr (lto_filled bs b (descriptors t ! j))"
    using assms(8) l div13_le [of b]
    by (subst parseTot_infos_eq) (simp_all add: wf_lto_def tot_consts unat_div13 lto_filled_def)
  then show ?thesis
    using assms l
    by (simp add: parseTotTable_loop.simps [of _ len t] parseTot_descriptor_def tot_descriptor_def
        tot_descriptor_store_def tot_consts lto_filled_def)
qed

lemma loop_round_other:
  assumes "wf_tot t" and "4 < len" and "unat (descriptorsCount t) = j" "j < 20"
    and "bs ! (10 + 15 * j) \<noteq> 0x58" and "10 + 15 * j < length bs"
  shows "parseTotTable_loop (bs, 0) len t =
    parseTotTable_loop (bs, 0) (len - (ucast (descriptorLength (descriptors t ! j)) + 2))
      (t\<lparr>descriptorsCount := descriptorsCount t + 1\<rparr>)"
  using assms
  by (simp add: parseTotTable_loop.simps [of _ len t] parseTot_descriptor_def tot_descriptor_def
      wf_tot_def tot_consts)

lemma loop_stop: "len \<le> 4 \<Longrightarrow> parseTotTable_loop p len t = Inr t"
  by (auto simp: parseTotTable_loop.simps [of p len t])

lemma of_nat_u16_gt4: "4 < k \<Longrightarrow> k < 65536 \<Longrightarrow> (4 :: u16) < of_nat k"
  by (simp add: word_less_nat_alt unat_of_nat_u16)

text \<open>A run over \<open>k\<close> descriptors of one region each, the announced length being \<open>15 k\<close>.\<close>

lemma loop_single_region_descriptors:
  assumes "wf_tot t" and "unat (descriptorsCount t) + k \<le> 20"
    and "\<And>j. j < unat (descriptorsCount t) + k \<Longrightarrow> bs ! (10 + 15 * j) = 0x58 \<and> bs ! (11 + 15 * j) = 13"
    and "10 + 15 * (unat (descriptorsCount t) + k) \<le> length bs" and "25 \<le> length bs"
  shows "\<exists>t'. parseTotTable_loop (bs, 0) (of_nat (15 * k)) t = Inr t'
    \<and> unat (descriptorsCount t') = unat (descriptorsCount t) + k
    \<and> (\<forall>j < 20. descriptors t' ! j =
         (if unat (descriptorsCount t) \<le> j \<and> j < unat (descriptorsCount t) + k
          then lto_filled bs 13 (descriptors t ! j) else descriptors t ! j))"
  using assms
proof (induction k arbitrary: t)
  case 0
  then show ?case by (auto simp: loop_stop)
next
  case (Suc k)
  let ?c = "unat (descriptorsCount t)"
  define t1 where "t1 = t\<lparr>descriptors := (descriptors t)[?c := lto_filled bs 13 (descriptors t ! ?c)],
      descriptorsCount := descriptorsCount t + 1\<rparr>"
  have c: "?c < 20" and c1: "unat (descriptorsCount t1) = Suc ?c"
    using Suc.prems(2) by (simp_all add: t1_def unat_Suc_u8)
  have wt: "length (descriptors t) = 20" "wf_lto (descriptors t ! ?c)"
    using Suc.prems(1) c by (auto simp: wf_tot_def tot_consts list_all_length)
  then have "wf_lto (lto_filled bs 13 (descriptors t ! ?c))"
    by (simp add: wf_lto_def lto_filled_def tot_consts)
  then have wf: "wf_tot t1"
    using Suc.prems(1) c c1 wt
    by (auto simp: wf_tot_def t1_def tot_consts list_all_length nth_list_update)
  have "parseTotTable_loop (bs, 0) (of_nat (15 * Suc k)) t =
      parseTotTable_loop (bs, 0) (of_nat (15 * Suc k) - (ucast (13 :: u8) + 2)) t1"
    unfolding t1_def using Suc.prems c
    by (intro loop_round_lto of_nat_u16_gt4) (simp_all)
  also have "of_nat (15 * Suc k) - (ucast (13 :: u8) + 2) = (of_nat (15 * k) :: u16)" by simp
  finally have "parseTotTable_loop (bs, 0) (of_nat (15 * Suc k)) t =
      parseTotTable_loop (bs, 0) (of_nat (15 * k)) t1" .
  moreover have "\<exists>t'. parseTotTable_loop (bs, 0) (of_nat (15 * k)) t1 = Inr t'
    \<and> unat (descriptorsCount t') = unat (descriptorsCount t1) + k
    \<and> (\<forall>j < 20. descriptors t' ! j =
         (if unat (descriptorsCount t1) \<le> j \<and> j < unat (descriptorsCount t1) + k
          then lto_filled bs 13 (descriptors t1 ! j) else descriptors t1 ! j))"
    using wf Suc.prems c1 by (intro Suc.IH) simp_all
  ultimately show ?case
    using c1 c wt by (auto simp: t1_def nth_list_update)
qed

text \<open>A run over descriptors of other kinds, whose slots hold a zero length.\<close>

lemma loop_other_descriptors:
  assumes "wf_tot t" and "unat (descriptorsCount t) + k = 20"
    and "\<And>j. j \<le> 20 \<Longrightarrow> bs ! (10 + 15 * j) \<noteq> 0x58"
    and "\<And>j. j < 20 \<Longrightarrow> descriptorLength (descriptors t ! j) = 0"
    and "310 < length bs" and "4 + 2 * k < n" and "n < 65536"
  shows "parseTotTable_loop (bs, 0) (of_nat n) t = Inl Read_Out_Of_Bounds"
  using assms
proof (induction k arbitrary: t n)
  case 0
  then show ?case
    using of_nat_u16_gt4 [of n] "0.prems"(3) [of 20]
    by (simp add: parseTotTable_loop.simps [of _ _ t] parseTot_descriptor_def tot_descriptor_def
        tot_consts)
next
  case (Suc k)
  let ?t = "t\<lparr>descriptorsCount := descriptorsCount t + 1\<rparr>"
  have c: "unat (descriptorsCount t) < 20" using Suc.prems(2) by simp
  then have c1: "unat (descriptorsCount ?t) + k = 20" using Suc.prems(2) by (simp add: unat_Suc_u8)
  have "parseTotTable_loop (bs, 0) (of_nat n) t = parseTotTable_loop (bs, 0)
      (of_nat n - (ucast (descriptorLength (descriptors t ! unat (descriptorsCount t))) + 2)) ?t"
    using Suc.prems c by (intro loop_round_other of_nat_u16_gt4) simp_all
  also have "\<dots> = parseTotTable_loop (bs, 0) (of_nat (n - 2)) ?t"
    using Suc.prems(4,6) c by (simp add: of_nat_diff)
  also have "\<dots> = Inl Read_Out_Of_Bounds"
    using Suc.prems c c1 by (intro Suc.IH) (simp_all add: wf_tot_def tot_consts unat_Suc_u8)
  finally show ?case .
qed

subsection \<open>The section as transmitted\<close>

text \<open>
  A region of a local time offset descriptor (EN 300 468): country code, region id, a
  reserved bit, polarity, the offset in BCD, and seven bytes (time of change and
  next offset) that the parser skips.
\<close>

definition bcd_byte :: "u8 \<Rightarrow> u8" where
  "bcd_byte v = of_nat (16 * (unat v div 10) + unat v mod 10)"

definition lto_bytes :: "LTODescriptorInfo \<times> u8 list \<Rightarrow> u8 list" where
  "lto_bytes x =
     [countryCH1 (fst x), countryCH2 (fst x), countryCH3 (fst x),
      of_nat (4 * unat (countryRegionId (fst x)) + 2 + unat (localTimeOffsetPolarity (fst x))),
      bcd_byte (localTimeOffsetHours (fst x)), bcd_byte (localTimeOffsetMinutes (fst x))] @ snd x"

definition valid_lto :: "LTODescriptorInfo \<times> u8 list \<Rightarrow> bool" where
  "valid_lto x \<longleftrightarrow> unat (countryRegionId (fst x)) < 64 \<and> unat (localTimeOffsetPolarity (fst x)) < 2
     \<and> unat (localTimeOffsetHours (fst x)) < 100 \<and> unat (localTimeOffsetMinutes (fst x)) < 100
     \<and> length (snd x) = 7"

definition tot_section ::
  "u16 \<Rightarrow> u16 \<Rightarrow> u8 list \<Rightarrow> (LTODescriptorInfo \<times> u8 list) list \<Rightarrow> u8 list \<Rightarrow> u8 list" where
  "tot_section len mjd utc xs crc =
     section_start 0x73 0 len @ [hi8 mjd, lo8 mjd] @ utc @
     [hi8 (length_word (of_nat (13 * length xs + 2))), lo8 (length_word (of_nat (13 * length xs + 2))),
      0x58, of_nat (13 * length xs)] @ concat (map lto_bytes xs) @ crc"

lemma high_nibble: "unat (drop_bit 4 ((b :: u8) AND 0xF0)) = unat b div 16"
proof -
  have "drop_bit 4 (b AND 0xF0) = drop_bit 4 b AND 0x0F" by simp
  moreover have "unat b div 16 < 16" using unat_u8_less [of b] by linarith
  ultimately show ?thesis by (simp add: field_simps_be del: drop_bit_and)
qed

lemma unat_bcd_value: "unat (bcd_value b) = unat b mod 16 + 10 * (unat b div 16)"
proof -
  have "unat b div 16 < 16" using unat_u8_less [of b] by linarith
  moreover from this have "unat (10 * drop_bit 4 (b AND 0xF0)) = 10 * (unat b div 16)"
    by (simp only: unat_word_ariths high_nibble) simp
  ultimately show ?thesis
    unfolding bcd_value_def by (simp only: unat_word_ariths(1) unat_mask4) simp
qed

lemma bcd_value_byte: "unat v < 100 \<Longrightarrow> bcd_value (bcd_byte v) = v"
proof -
  assume v: "unat v < 100"
  then have "unat (bcd_byte v) = 16 * (unat v div 10) + unat v mod 10"
    unfolding bcd_byte_def by (intro unat_of_nat_u8) linarith
  moreover have "(16 * (unat v div 10) + unat v mod 10) mod 16 = unat v mod 10"
    "(16 * (unat v div 10) + unat v mod 10) div 16 = unat v div 10"
    by simp_all
  ultimately have "unat (bcd_value (bcd_byte v)) = unat v"
    by (simp add: unat_bcd_value)
  then show ?thesis by (simp add: word_unat_eq_iff)
qed

lemma region_byte:
  assumes "unat r < 64" and "unat p < 2"
  defines "b \<equiv> of_nat (4 * unat r + 2 + unat p) :: u8"
  shows "drop_bit 2 b = r" and "b AND 0x01 = p"
proof -
  have b: "unat b = 4 * unat r + 2 + unat p"
    using assms(1,2) unfolding b_def by (intro unat_of_nat_u8) linarith
  have "unat (drop_bit 2 b) = (4 * unat r + 2 + unat p) div 4" by (simp only: field_simps_be b) simp
  also have "\<dots> = unat r" using assms(2) by linarith
  finally show "drop_bit 2 b = r" by (simp add: word_unat_eq_iff)
  have "unat (b AND 0x01) = (4 * unat r + 2 + unat p) mod 2" by (simp only: field_simps_be b)
  also have "\<dots> = unat p" using assms(2) by presburger
  finally show "b AND 0x01 = p" by (simp add: word_unat_eq_iff)
qed

lemma lto_at_bytes:
  assumes "length pre = 12" and "\<And>x. x \<in> set xs \<Longrightarrow> valid_lto x" and i: "i < length xs"
  shows "lto_at (pre @ concat (map lto_bytes xs) @ suf) i = fst (xs ! i)"
proof -
  have len: "length (lto_bytes x) = 13" if "x \<in> set xs" for x
    using assms(2) [OF that] by (simp add: lto_bytes_def valid_lto_def)
  have total: "length (concat (map lto_bytes xs)) = length xs * 13"
    using len by (induction xs) auto
  have at: "(pre @ concat (map lto_bytes xs) @ suf) ! (12 + j + i * 13) = lto_bytes (xs ! i) ! j"
    if "j < 6" for j
  proof -
    have "(12 + j + i * 13) - length pre = i * 13 + j" using assms(1) by simp
    moreover have "i * 13 + j < length (concat (map lto_bytes xs))"
      using i that by (simp add: total)
    ultimately show ?thesis
      using assms(1) nth_concat_fixed [of xs lto_bytes 13 i j] len i that
      by (simp add: nth_append add.commute)
  qed
  have v: "valid_lto (xs ! i)" using assms(2) i by simp
  show ?thesis
    using at [of 0] at [of 1] at [of 2] at [of 3] at [of 4] at [of 5] v
    by (cases "fst (xs ! i)")
      (simp add: lto_at_def lto_bytes_def valid_lto_def bcd_value_byte region_byte [simplified])
qed

subsection \<open>Properties\<close>

definition zero_TotTable :: TotTable where
  "zero_TotTable = \<lparr>tot_tableId = 0, tot_sectionSyntaxIndicator = 0, tot_sectionLength = 0, tot_MJD = 0,
     descriptorsLoopLength = 0,
     descriptors = replicate 20 \<lparr>descriptorTag = 0, descriptorLength = 0,
       ltoInfo = replicate 20 \<lparr>countryCH1 = 0, countryCH2 = 0, countryCH3 = 0, countryRegionId = 0,
         localTimeOffsetPolarity = 0, localTimeOffsetHours = 0, localTimeOffsetMinutes = 0\<rparr>,
       numberOfInfos = 0\<rparr>,
     descriptorsCount = 0\<rparr>"

lemma wf_zero_TotTable: "wf_tot zero_TotTable"
  by (simp add: wf_tot_def wf_lto_def zero_TotTable_def tot_consts list_all_iff)

lemma parseTotTable_section:
  assumes "list_all valid_lto xs" and "0 < length xs" and "length xs < 20"
    and "length utc = 3" and "unat len < 4096" and "wf_tot t"
  shows "parseTotTable (Some (tot_section len mjd utc xs crc, 0)) (Some t) =
    Inr (TABLES_PARSE_OK, Some (t\<lparr>tot_tableId := 0x73, tot_sectionLength := len, tot_MJD := mjd,
      descriptorsLoopLength := of_nat (13 * length xs + 2),
      descriptors := (descriptors t)[0 := (descriptors t ! 0)\<lparr>descriptorTag := 0x58,
        descriptorLength := of_nat (13 * length xs), numberOfInfos := of_nat (length xs),
        ltoInfo := map fst xs @ drop (length xs) (ltoInfo (descriptors t ! 0))\<rparr>],
      descriptorsCount := 1\<rparr>))"
proof -
  let ?n = "length xs"
  define bs where "bs = tot_section len mjd utc xs crc"
  define L :: u16 where "L = of_nat (13 * ?n + 2)"
  define b :: u8 where "b = of_nat (13 * ?n)"
  obtain u0 u1 u2 where utc: "utc = [u0, u1, u2]"
    using assms(4) by (auto simp: numeral_3_eq_3 length_Suc_conv)
  have L: "unat L = 13 * ?n + 2" and b: "unat b = 13 * ?n"
    using assms(3) unfolding L_def b_def by (intro unat_of_nat_u16 unat_of_nat_u8; linarith)+
  have bd: "b div 13 = of_nat ?n" "unat b div 13 = ?n"
    using assms(3) by (simp_all add: word_unat_eq_iff unat_div13 b unat_of_nat_u8)
  define pre where "pre = take 12 bs"
  have bs: "bs = pre @ concat (map lto_bytes xs) @ crc" "length pre = 12"
    by (simp_all add: pre_def bs_def tot_section_def section_start_def utc)
  have "length (lto_bytes x) = 13" if "x \<in> set xs" for x
    using assms(1) that by (auto simp: list_all_iff valid_lto_def lto_bytes_def)
  then have "length (concat (map lto_bytes xs)) = 13 * ?n" by (induction xs) auto
  then have len: "12 + 13 * ?n \<le> length bs" by (simp add: bs)
  have L2: "2 + 13 * of_nat ?n = L" by (simp add: L_def)
  have fields: "bs ! 0 = 0x73" "be16 (bs ! 1) (bs ! 2) AND 0x0FFF = len" "be16 (bs ! 3) (bs ! 4) = mjd"
    "be16 (bs ! 8) (bs ! 9) AND 0x0FFF = L" "bs ! 10 = 0x58" "bs ! 11 = b"
    using assms(3,5) L
    by (simp_all add: bs_def tot_section_def section_start_def utc b_def L2)
  have regions: "map (lto_at bs) [0..<?n] = map fst xs"
    using assms(1) bs by (intro nth_equalityI) (simp_all add: lto_at_bytes list_all_iff)
  let ?t0 = "t\<lparr>tot_tableId := 0x73, tot_sectionLength := len, tot_MJD := mjd,
      descriptorsLoopLength := L, descriptorsCount := 0\<rparr>"
  have "4 < 13 * ?n + 2" using assms(2) by linarith
  then have "unat (4 :: u16) < unat L" unfolding L by simp
  then have gt: "4 < L" by (simp only: word_less_nat_alt)
  have "parseTotTable_loop (bs, 0) L ?t0 = parseTotTable_loop (bs, 0) (L - (ucast b + 2))
      (?t0\<lparr>descriptors := (descriptors ?t0)[0 := lto_filled bs b (descriptors ?t0 ! 0)],
         descriptorsCount := descriptorsCount ?t0 + 1\<rparr>)"
    using assms(6) gt fields len bd by (intro loop_round_lto) (simp_all add: wf_tot_def)
  also have "L - (ucast b + 2) = 0"
  proof -
    have "unat (of_nat (13 * ?n) :: u16) = 13 * ?n" using assms(3) by (intro unat_of_nat_u16) linarith
    then have "(ucast b :: u16) = of_nat (13 * ?n)" by (simp only: word_unat_eq_iff unat_ucast_u8_u16 b)
    then show ?thesis by (simp add: L_def)
  qed
  finally show ?thesis
    using len fields parseTotTable_header [of bs t] regions bd
    by (simp add: bs_def [symmetric] loop_stop lto_filled_def b_def L_def)
qed

text \<open>
  C17. Round trip of the TOT: a section with one local time offset descriptor of one to
  nineteen regions comes back completely: section length, date code, the
  descriptor's tag, length and number of regions, and every region in order; the
  other slots of the table are untouched.
\<close>

theorem parseTotTable_roundtrip:
  assumes "list_all valid_lto xs" and "0 < length xs" and "length xs < 20"
    and "length utc = 3" and "unat len < 4096" and "wf_tot t"
  shows "parseTotTable (Some (tot_section len mjd utc xs crc, 0)) (Some t) =
    Inr (TABLES_PARSE_OK, Some (t\<lparr>tot_tableId := 0x73, tot_sectionLength := len, tot_MJD := mjd,
      descriptorsLoopLength := of_nat (13 * length xs + 2),
      descriptors := (descriptors t)[0 := (descriptors t ! 0)\<lparr>descriptorTag := 0x58,
        descriptorLength := of_nat (13 * length xs), numberOfInfos := of_nat (length xs),
        ltoInfo := map fst xs @ drop (length xs) (ltoInfo (descriptors t ! 0))\<rparr>],
      descriptorsCount := 1\<rparr>))"
  using assms by (rule parseTotTable_section)

theorem parseTotTable_roundtrip_witness:
  "parseTotTable (Some (tot_section 30 55097 [0x10, 0x20, 0x30]
      [(\<lparr>countryCH1 = 0x53, countryCH2 = 0x52, countryCH3 = 0x42, countryRegionId = 1,
         localTimeOffsetPolarity = 0, localTimeOffsetHours = 2, localTimeOffsetMinutes = 30\<rparr>,
        [0, 0, 0, 0, 0, 0x01, 0x00])] [1, 2, 3, 4], 0)) (Some zero_TotTable) =
   Inr (TABLES_PARSE_OK, Some (zero_TotTable\<lparr>tot_tableId := 0x73, tot_sectionLength := 30,
      tot_MJD := 55097, descriptorsLoopLength := 15,
      descriptors := (descriptors zero_TotTable)[0 := (descriptors zero_TotTable ! 0)
        \<lparr>descriptorTag := 0x58, descriptorLength := 13, numberOfInfos := 1,
         ltoInfo := [\<lparr>countryCH1 = 0x53, countryCH2 = 0x52, countryCH3 = 0x42, countryRegionId = 1,
           localTimeOffsetPolarity = 0, localTimeOffsetHours = 2, localTimeOffsetMinutes = 30\<rparr>]
           @ drop 1 (ltoInfo (descriptors zero_TotTable ! 0))\<rparr>],
      descriptorsCount := 1\<rparr>))"
  using parseTotTable_roundtrip [of "[(\<lparr>countryCH1 = 0x53, countryCH2 = 0x52, countryCH3 = 0x42,
      countryRegionId = 1, localTimeOffsetPolarity = 0, localTimeOffsetHours = 2,
      localTimeOffsetMinutes = 30\<rparr>, [0, 0, 0, 0, 0, 0x01, 0x00])]"
      "[0x10, 0x20, 0x30]" 30 zero_TotTable 55097 "[1, 2, 3, 4]"]
  by (simp add: valid_lto_def wf_zero_TotTable)

text \<open>
  C28. With several descriptors the TOT parser repeats the first: for a section of
  \<open>k \<le> 20\<close> local time offset descriptors of one region each, every one of the \<open>k\<close> slots
  gets tag, length and number of regions right, but its region is the one of the first
  descriptor, whatever the bytes of the others say.
\<close>

theorem parseTotTable_repeats_first_region:
  assumes "wf_tot t" and "k \<le> 20" and "10 + 15 * k \<le> length bs" and "25 \<le> length bs"
    and "\<forall>j < k. bs ! (10 + 15 * j) = 0x58 \<and> bs ! (11 + 15 * j) = 13"
    and "be16 (bs ! 8) (bs ! 9) AND 0x0FFF = of_nat (15 * k)"
  shows "\<exists>t'. parseTotTable (Some (bs, 0)) (Some t) = Inr (TABLES_PARSE_OK, Some t')
    \<and> unat (descriptorsCount t') = k
    \<and> (\<forall>j < k. descriptorTag (descriptors t' ! j) = 0x58 \<and> descriptorLength (descriptors t' ! j) = 13
         \<and> numberOfInfos (descriptors t' ! j) = 1 \<and> ltoInfo (descriptors t' ! j) ! 0 = lto_at bs 0)"
proof -
  let ?t0 = "t\<lparr>tot_tableId := bs ! 0, tot_sectionLength := be16 (bs ! 1) (bs ! 2) AND 0x0FFF,
      tot_MJD := be16 (bs ! 3) (bs ! 4),
      descriptorsLoopLength := be16 (bs ! 8) (bs ! 9) AND 0x0FFF, descriptorsCount := 0\<rparr>"
  have "\<exists>t'. parseTotTable_loop (bs, 0) (of_nat (15 * k)) ?t0 = Inr t'
    \<and> unat (descriptorsCount t') = unat (descriptorsCount ?t0) + k
    \<and> (\<forall>j < 20. descriptors t' ! j =
         (if unat (descriptorsCount ?t0) \<le> j \<and> j < unat (descriptorsCount ?t0) + k
          then lto_filled bs 13 (descriptors ?t0 ! j) else descriptors ?t0 ! j))"
    using assms by (intro loop_single_region_descriptors) (simp_all add: wf_tot_def)
  then obtain t' where t': "parseTotTable_loop (bs, 0) (of_nat (15 * k)) ?t0 = Inr t'"
    "unat (descriptorsCount t') = k"
    "\<forall>j < k. descriptors t' ! j = lto_filled bs 13 (descriptors t ! j)"
    using assms(2) by auto
  then show ?thesis
    using assms(4,6) parseTotTable_header [of bs t] by (simp add: lto_filled_def)
qed

text \<open>Two descriptors for two countries.\<close>

definition tot_example :: "u8 list" where
  "tot_example = [0x73, 0x70, 0x2C, 0xD7, 0x39, 0x10, 0x20, 0x30, 0xF0, 0x1E,
     0x58, 13, 0x53, 0x52, 0x42, 0x02, 0x01, 0x00, 0, 0, 0, 0, 0, 0x02, 0x00,
     0x58, 13, 0x47, 0x42, 0x52, 0x02, 0x00, 0x00, 0, 0, 0, 0, 0, 0x01, 0x00,
     1, 2, 3, 4]"

theorem parseTotTable_repeats_first_region_witness:
  "\<exists>t'. parseTotTable (Some (tot_example, 0)) (Some zero_TotTable) = Inr (TABLES_PARSE_OK, Some t')
    \<and> unat (descriptorsCount t') = 2
    \<and> countryCH1 (ltoInfo (descriptors t' ! 1) ! 0) = 0x53 \<and> tot_example ! 27 = 0x47"
proof -
  have b: "\<forall>j < 2. tot_example ! (10 + 15 * j) = 0x58 \<and> tot_example ! (11 + 15 * j) = 13"
    by (auto simp: tot_example_def less_Suc_eq numeral_2_eq_2)
  have l: "be16 (tot_example ! 8) (tot_example ! 9) AND 0x0FFF = of_nat (15 * 2)"
    by (simp add: tot_example_def be16_def)
  have s: "10 + 15 * 2 \<le> length tot_example" "25 \<le> length tot_example" "(2 :: nat) \<le> 20"
    by (simp_all add: tot_example_def)
  obtain t' where "parseTotTable (Some (tot_example, 0)) (Some zero_TotTable) = Inr (TABLES_PARSE_OK, Some t')"
    "unat (descriptorsCount t') = 2" "ltoInfo (descriptors t' ! 1) ! 0 = lto_at tot_example 0"
    using parseTotTable_repeats_first_region [OF wf_zero_TotTable s(3,1,2) b l] by auto
  moreover have "countryCH1 (lto_at tot_example 0) = 0x53" "tot_example ! 27 = 0x47"
    by (simp_all add: lto_at_def tot_example_def)
  ultimately show ?thesis by auto
qed

text \<open>
  C29. A TOT whose descriptors are of another kind drives the parser out of its table: with
  no tag 0x58 at any of the positions it looks at, slots that still hold a zero length
  (a freshly allocated table) and an announced length above 44, the loop advances two
  bytes per round and reads \<open>descriptors[20]\<close>, past the end of the array.
\<close>

theorem parseTotTable_foreign_descriptors_overrun:
  assumes "wf_tot t" and "\<forall>j < 20. descriptorLength (descriptors t ! j) = 0"
    and "310 < length bs" and "\<forall>j \<le> 20. bs ! (10 + 15 * j) \<noteq> 0x58"
    and "44 < unat (be16 (bs ! 8) (bs ! 9) AND 0x0FFF)"
  shows "parseTotTable (Some (bs, 0)) (Some t) = Inl Read_Out_Of_Bounds"
proof -
  let ?L = "be16 (bs ! 8) (bs ! 9) AND 0x0FFF"
  let ?t0 = "t\<lparr>tot_tableId := bs ! 0, tot_sectionLength := be16 (bs ! 1) (bs ! 2) AND 0x0FFF,
      tot_MJD := be16 (bs ! 3) (bs ! 4), descriptorsLoopLength := ?L, descriptorsCount := 0\<rparr>"
  have "parseTotTable_loop (bs, 0) (of_nat (unat ?L)) ?t0 = Inl Read_Out_Of_Bounds"
    using assms by (intro loop_other_descriptors [of _ 20]) (simp_all add: wf_tot_def)
  then show ?thesis
    using assms(3) parseTotTable_header [of bs t] by simp
qed

definition tot_foreign_example :: "u8 list" where
  "tot_foreign_example = [0x73, 0x70, 0xFF, 0xD7, 0x39, 0x10, 0x20, 0x30, 0xF0, 0x32] @ replicate 310 0x5F"

theorem parseTotTable_foreign_descriptors_overrun_witness:
  "parseTotTable (Some (tot_foreign_example, 0)) (Some zero_TotTable) = Inl Read_Out_Of_Bounds"
proof (rule parseTotTable_foreign_descriptors_overrun [OF wf_zero_TotTable])
  show "\<forall>j < 20. descriptorLength (descriptors zero_TotTable ! j) = 0"
    by (simp add: zero_TotTable_def)
  show "310 < length tot_foreign_example"
    by (simp add: tot_foreign_example_def)
  show "\<forall>j \<le> 20. tot_foreign_example ! (10 + 15 * j) \<noteq> 0x58"
    by (simp add: tot_foreign_example_def nth_append)
  show "44 < unat (be16 (tot_foreign_example ! 8) (tot_foreign_example ! 9) AND 0x0FFF)"
    by (simp add: tot_foreign_example_def be16_def)
qed

lemma parseTotTable_keeps_wf:
  assumes "wf_tot t" and "parseTotTable q (Some t) = Inr (rc, p)"
  obtains t' where "p = Some t'" "wf_tot t'"
proof -
  have frame: "wf_tot (t\<lparr>descriptorsCount := 0, tot_tableId := a, tot_sectionLength := b, tot_MJD := c,
      descriptorsLoopLength := e\<rparr>)" "wf_tot (t\<lparr>descriptorsCount := 0\<rparr>)" for a b c e
    using assms(1) by (simp_all add: wf_tot_def)
  show ?thesis
    using assms(2) frame that
    by (cases q) (auto simp: parseTotTable_def Let_def c_bind_eq_Inr dest!: parseTotTable_loop_wf [OF _ frame(1)])
qed

text \<open>
  The TOT parser keeps its table well formed whenever it returns: whatever the bytes
  are, at most 20 descriptors are counted, every descriptor keeps its 20 slots, and no
  descriptor announces more regions than it has room for (a length byte allows 19).
\<close>

theorem parseTotTable_wf:
  assumes "wf_tot t" and "parseTotTable q (Some t) = Inr (rc, p)"
  shows "\<exists>t'. p = Some t' \<and> wf_tot t'"
  using parseTotTable_keeps_wf [OF assms] by blast

theorem parseTotTable_wf_witness:
  "\<exists>t'. parseTotTable None (Some zero_TotTable) = Inr (TABLES_PARSE_ERROR, Some t') \<and> wf_tot t'"
proof -
  have r: "parseTotTable None (Some zero_TotTable) =
      Inr (TABLES_PARSE_ERROR, Some (zero_TotTable\<lparr>descriptorsCount := 0\<rparr>))"
    by (simp add: parseTotTable_def Let_def)
  show ?thesis using parseTotTable_wf [OF wf_zero_TotTable r] r by auto
qed

end
