(* ===== verification/Printf.thy ===== *)
theory Printf
  imports C_String
begin

section \<open>Formatted output\<close>

text \<open>
  The conversions \<open>%d\<close>, \<open>%hu\<close>, \<open>%x\<close> with a precision, as \<open>printf\<close> and \<open>sprintf\<close>
  perform them, with their lengths and the fact that different numbers print differently;
  and the loops \<open>for (i = 0; i < count; i++)\<close> over a \<open>uint8_t\<close> that print table rows.
\<close>

subsection \<open>Numbers\<close>

definition digit_char :: "nat \<Rightarrow> char" where
  "digit_char d = char_of (if d < 10 then 48 + d else 87 + d)"

fun digits_of :: "nat \<Rightarrow> nat \<Rightarrow> string" where
  "digits_of base n =
    (if n < base \<or> base < 2 then [digit_char n] else digits_of base (n div base) @ [digit_char (n mod base)])"

declare digits_of.simps [simp del]

text \<open>\<open>%d\<close> and \<open>%hu\<close>; a precision \<open>p\<close> pads with zeros to at least \<open>p\<close> digits.\<close>

definition pad_zeros :: "nat \<Rightarrow> string \<Rightarrow> string" where
  "pad_zeros p s = replicate (p - length s) CHR ''0'' @ s"

definition show_nat :: "nat \<Rightarrow> string" where
  "show_nat n = digits_of 10 n"

definition show_int :: "int \<Rightarrow> string" where
  "show_int i = (if i < 0 then CHR ''-'' # show_nat (nat (- i)) else show_nat (nat i))"

definition show_hex :: "nat \<Rightarrow> string" where
  "show_hex n = digits_of 16 n"

lemma digit_char_is_digit: "d < 10 \<Longrightarrow> is_digit (digit_char d)"
  by (simp add: digit_char_def is_digit_def of_char_of take_bit_eq_mod)

lemma digit_value_digit_char: "d < 10 \<Longrightarrow> digit_value (digit_char d) = int d"
  by (simp add: digit_char_def digit_value_def of_char_of take_bit_eq_mod
      flip: of_nat_of_char [where ?'a = int])

lemma show_nat_digits: "list_all is_digit (show_nat n)"
  unfolding show_nat_def
proof (induction n rule: less_induct)
  case (less n)
  then show ?case
    by (subst digits_of.simps) (auto simp: digit_char_is_digit)
qed

lemma show_nat_value: "digits_value (show_nat n) = int n"
  unfolding show_nat_def
proof (induction n rule: less_induct)
  case (less n)
  show ?case
  proof (cases "n < 10")
    case True
    then show ?thesis
      by (subst digits_of.simps) (simp add: digits_value_def digit_value_digit_char)
  next
    case False
    then have "digits_value (digits_of 10 n) = 10 * int (n div 10) + int (n mod 10)"
      by (subst digits_of.simps) (simp add: digits_value_append1 digit_value_digit_char less)
    also have "\<dots> = int n" by presburger
    finally show ?thesis .
  qed
qed

lemma show_nat_inject [simp]: "show_nat m = show_nat n \<longleftrightarrow> m = n"
  by (metis show_nat_value of_nat_eq_iff)

lemma show_nat_nonempty [simp]: "show_nat n \<noteq> []"
  by (simp add: show_nat_def digits_of.simps [of 10 n])

lemma digits_of_length_le:
  "n < base ^ Suc k \<Longrightarrow> length (digits_of base n) \<le> Suc k" if "2 \<le> base"
proof (induction k arbitrary: n)
  case (Suc k)
  then have "n div base < base ^ Suc k"
    using that by (simp add: less_mult_imp_div_less mult.commute)
  then have "length (digits_of base (n div base)) \<le> Suc k" by (rule Suc.IH)
  then show ?case by (simp add: digits_of.simps [of base n])
qed (simp add: digits_of.simps)

lemma show_nat_length_le: "n < 10 ^ Suc k \<Longrightarrow> length (show_nat n) \<le> Suc k"
  by (simp add: show_nat_def digits_of_length_le)

lemma show_int_length_le: "\<bar>i\<bar> < 10 ^ Suc k \<Longrightarrow> length (show_int i) \<le> Suc (Suc k)"
  using show_nat_length_le [of "nat (- i)" k] show_nat_length_le [of "nat i" k]
  by (auto simp: show_int_def nat_less_iff intro: le_SucI)

lemma show_int_nonempty [simp]: "show_int i \<noteq> []"
  by (simp add: show_int_def)

lemma show_int_inject [simp]: "show_int i = show_int j \<longleftrightarrow> i = j"
proof -
  have "hd (show_nat n) \<noteq> CHR ''-''" for n
    using show_nat_digits [of n] is_digit_facts(1) [of "hd (show_nat n)"]
    by (cases "show_nat n") (simp_all add: show_nat_nonempty [of n, unfolded list.simps])
  then have "CHR ''-'' # s \<noteq> show_nat n" for s n by (metis list.sel(1))
  then show ?thesis by (auto simp: show_int_def split: if_splits) metis+
qed

lemma length_pad_zeros: "length (pad_zeros p s) = max p (length s)"
  by (simp add: pad_zeros_def)

text \<open>The names of the months, as the \<open>switch\<close> statements of the program have them.\<close>

definition month_names :: "string list" where
  "month_names = [''January'', ''February'', ''March'', ''April'', ''May'', ''June'', ''July'',
     ''August'', ''September'', ''October'', ''November'', ''December'']"

subsection \<open>Printing rows\<close>

text \<open>The output of a function is the list of what its calls of \<open>printf\<close> write, in order.\<close>

function for_rows :: "(u8 \<Rightarrow> string list c_res) \<Rightarrow> u8 \<Rightarrow> u8 \<Rightarrow> string list c_res" where
  "for_rows row i n =
    (if i < n then c_bind (row i) (\<lambda>out. c_bind (for_rows row (i + 1) n) (\<lambda>rest. Inr (out @ rest)))
     else Inr [])"
  by pat_completeness auto
termination
proof (relation "measure (\<lambda>(row, i, n). unat n - unat i)", goal_cases)
  case (2 row i n)
  then have "unat i < unat n" by (simp add: word_less_nat_alt)
  moreover have "unat i < 255"
    using calculation unat_u8_less [of n] by linarith
  ultimately show ?case by (simp add: unat_Suc_u8)
qed simp

declare for_rows.simps [simp del]

lemma for_rows_from:
  assumes "\<And>k. k < unat n \<Longrightarrow> row (of_nat k) = Inr (f k)" and "unat i \<le> unat n"
  shows "for_rows row i n = Inr (concat (map f [unat i..<unat n]))"
  using assms(2)
proof (induction "unat n - unat i" arbitrary: i)
  case 0
  then show ?case by (simp add: for_rows.simps [of row i n] word_less_nat_alt)
next
  case (Suc k)
  have lt: "unat i < unat n" using Suc.hyps by linarith
  then have "unat i < 255" using unat_u8_less [of n] by linarith
  then have i: "unat (i + 1) = Suc (unat i)" by (rule unat_Suc_u8)
  have "row i = Inr (f (unat i))" using assms(1) [OF lt] by simp
  moreover have "for_rows row (i + 1) n = Inr (concat (map f [Suc (unat i)..<unat n]))"
    using Suc.hyps lt by (subst Suc.hyps(1)) (simp_all add: i)
  ultimately show ?case
    using lt by (simp add: for_rows.simps [of row i n] word_less_nat_alt upt_conv_Cons)
qed

lemma for_rows_concat:
  "(\<And>k. k < unat n \<Longrightarrow> row (of_nat k) = Inr (f k)) \<Longrightarrow>
   for_rows row 0 n = Inr (concat (map f [0..<unat n]))"
  using for_rows_from [of n row f 0] by simp

end
