(* ===== verification/Tables_Print.thy ===== *)
theory Tables_Print
  imports Tables_Pmt Tables_Tdt Tables_Tot Printf
begin

section \<open>Printing the tables (tables\_parser.c)\<close>

text \<open>
  \<open>printPatTable\<close>, \<open>printPmtTable\<close>, \<open>printTdtTable\<close> and \<open>printTotTable\<close>: the result
  code and what each call of \<open>printf\<close> writes. The fields are \<open>uint8_t\<close> or \<open>uint16_t\<close> and
  are promoted to \<open>int\<close> without change. Reads of the arrays are checked.
\<close>

abbreviation newline_char :: string where "newline_char \<equiv> [NEWLINE]"

definition field_line :: "string \<Rightarrow> nat \<Rightarrow> string" where
  "field_line label n = label @ show_nat n @ newline_char"

definition parameter_error :: "string \<Rightarrow> string list" where
  "parameter_error func = [newline_char @ func @ '' : ERROR received parameter is not ok'' @ newline_char]"

definition banner :: "string \<Rightarrow> string" where
  "banner name = newline_char @ ''********************'' @ name @ '' TABLE SECTION********************''
     @ newline_char"

abbreviation separator :: string where
  "separator \<equiv> ''-----------------------------------------'' @ newline_char"

subsection \<open>PAT and PMT\<close>

definition printPat_row :: "PatTable \<Rightarrow> u8 \<Rightarrow> string list c_res" where
  "printPat_row t i =
     c_bind (array_get (patServiceInfoArray t) (unat i)) (\<lambda>s.
     Inr [separator,
          field_line ''program_number           |      '' (unat (pat_programNumber s)),
          field_line ''pid                      |      '' (unat (pat_pid s))])"

definition printPatTable :: "PatTable option \<Rightarrow> (ParseErrorCode \<times> string list) c_res" where
  "printPatTable patTable =
    (case patTable of
       None \<Rightarrow> Inr (TABLES_PARSE_ERROR, parameter_error ''printPatTable'')
     | Some t \<Rightarrow>
         c_bind (for_rows (printPat_row t) 0 (serviceInfoCount t)) (\<lambda>rows.
         Inr (TABLES_PARSE_OK,
              [banner ''PAT'',
               field_line ''table_id                 |      '' (unat (pat_tableId (patHeader t))),
               field_line ''section_length           |      '' (unat (pat_sectionLength (patHeader t))),
               field_line ''transport_stream_id      |      '' (unat (pat_transportStreamId (patHeader t))),
               field_line ''section_number           |      '' (unat (pat_sectionNumber (patHeader t))),
               field_line ''last_section_number      |      '' (unat (pat_lastSectionNumber (patHeader t)))]
              @ rows @ [banner ''PAT''])))"

definition printPmt_row :: "PmtTable \<Rightarrow> u8 \<Rightarrow> string list c_res" where
  "printPmt_row t i =
     c_bind (array_get (pmtElementaryInfoArray t) (unat i)) (\<lambda>e.
     Inr [separator,
          field_line ''stream_type              |      '' (unat (streamType e)),
          field_line ''elementary_pid           |      '' (unat (elementaryPid e))])"

definition printPmtTable :: "PmtTable option \<Rightarrow> (ParseErrorCode \<times> string list) c_res" where
  "printPmtTable pmtTable =
    (case pmtTable of
       None \<Rightarrow> Inr (TABLES_PARSE_ERROR, parameter_error ''printPmtTable'')
     | Some t \<Rightarrow>
         c_bind (for_rows (printPmt_row t) 0 (elementaryInfoCount t)) (\<lambda>rows.
         Inr (TABLES_PARSE_OK,
              [banner ''PMT'',
               field_line ''table_id                 |      '' (unat (pmt_tableId (pmtHeader t))),
               field_line ''section_length           |      '' (unat (pmt_sectionLength (pmtHeader t))),
               field_line ''program_number           |      '' (unat (pmt_programNumber (pmtHeader t))),
               field_line ''section_number           |      '' (unat (pmt_sectionNumber (pmtHeader t))),
               field_line ''last_section_number      |      '' (unat (pmt_lastSectionNumber (pmtHeader t))),
               field_line ''program_info_legth       |      '' (unat (programInfoLength (pmtHeader t)))]
              @ rows @ [banner ''PMT''])))"

subsection \<open>TDT\<close>

definition month_name :: "nat \<Rightarrow> string option" where
  "month_name m = (if 1 \<le> m \<and> m \<le> 12 then Some (month_names ! (m - 1)) else None)"

text \<open>
  The date code is a \<open>uint64_t\<close> printed with \<open>%d\<close>, for which the language defines no
  output: what the platform writes there is the parameter \<open>show_u64_as_int\<close>.
\<close>

definition printTdtTable ::
  "(u64 \<Rightarrow> string) \<Rightarrow> TdtTable option \<Rightarrow> (ParseErrorCode \<times> string list) c_res" where
  "printTdtTable show_u64_as_int tdtTable =
    (case tdtTable of
       None \<Rightarrow> Inr (TABLES_PARSE_ERROR, parameter_error ''printTdtTable'')
     | Some t \<Rightarrow>
         Inr (TABLES_PARSE_OK,
              [banner ''TDT'',
               field_line ''table_id                 |      '' (unat (tdt_tableId t)),
               field_line ''section_length           |      '' (unat (tdt_sectionLength t)),
               ''MJD code                 |      '' @ show_u64_as_int (tdt_MJD t) @ newline_char]
              @ (case month_name (unat (tdt_tmpMonth t)) of
                   None \<Rightarrow> []
                 | Some m \<Rightarrow> [''INFO: Time read from stream: '' @ m @ ''/'' @ show_nat (unat (tdt_day t))
                     @ ''/'' @ show_nat (unat (tdt_Year t)) @ '' '' @ newline_char])
              @ [banner ''TDT'']))"

subsection \<open>TOT\<close>

abbreviation hashes :: string where
  "hashes \<equiv> ''###########################################'' @ newline_char"

definition printTot_info :: "LocalTimeOffsetDescriptor \<Rightarrow> u8 \<Rightarrow> string list c_res" where
  "printTot_info d j =
     c_bind (array_get (ltoInfo d) (unat j)) (\<lambda>l.
     Inr [hashes,
          show_nat (unat j + 1) @ ''. LTO info                              '' @ newline_char,
          ''counrty code              |        '' @ show_hex (unat (countryCH1 l))
            @ show_hex (unat (countryCH2 l)) @ show_hex (unat (countryCH3 l)) @ newline_char,
          field_line ''counrty region id         |        '' (unat (countryRegionId l)),
          field_line ''localTimeOffsetPolarity   |        '' (unat (localTimeOffsetPolarity l)),
          ''local time offset         |        '' @ pad_zeros 2 (show_nat (unat (localTimeOffsetHours l)))
            @ '':'' @ pad_zeros 2 (show_nat (unat (localTimeOffsetMinutes l))) @ newline_char,
          hashes])"

definition printTot_row :: "TotTable \<Rightarrow> u8 \<Rightarrow> string list c_res" where
  "printTot_row t i =
     c_bind (tot_descriptor t (unat i)) (\<lambda>d.
     c_bind (for_rows (printTot_info d) 0 (numberOfInfos d)) (\<lambda>infos.
     Inr ([newline_char @ show_nat (unat i + 1) @ ''. descriptor:'' @ newline_char,
           ''descriptor tag           |        '' @ pad_zeros 2 (show_hex (unat (descriptorTag d))) @ newline_char,
           field_line ''descriptor length        |        '' (unat (descriptorLength d))] @ infos)))"

definition printTotTable :: "TotTable option \<Rightarrow> (ParseErrorCode \<times> string list) c_res" where
  "printTotTable totTable =
    (case totTable of
       None \<Rightarrow> Inr (TABLES_PARSE_ERROR, parameter_error ''printTotTable'')
     | Some t \<Rightarrow>
         c_bind (for_rows (printTot_row t) 0 (descriptorsCount t)) (\<lambda>rows.
         Inr (TABLES_PARSE_OK,
              [banner ''TOT'',
               ''table_id                 |      '' @ pad_zeros 2 (show_hex (unat (tot_tableId t))) @ newline_char,
               field_line ''section_length           |      '' (unat (tot_sectionLength t)),
               field_line ''MJD code                 |      '' (unat (tot_MJD t))]
              @ rows @ [banner ''TOT''])))"

subsection \<open>Rows of a table\<close>

text \<open>
  The row loops share a contract: row \<open>i\<close> prints \<open>lines\<close> of element \<open>i\<close> of an array. With
  the count inside the array the loop prints every counted element, in order; if moreover
  the lines determine the element, the printout determines the counted elements.
\<close>

locale table_rows =
  fixes elems :: "'t \<Rightarrow> 'e list" and count :: "'t \<Rightarrow> u8"
    and row :: "'t \<Rightarrow> u8 \<Rightarrow> string list c_res" and lines :: "nat \<Rightarrow> 'e \<Rightarrow> string list"
  assumes row_law: "row t i = c_bind (array_get (elems t) (unat i)) (\<lambda>e. Inr (lines (unat i) e))"
begin

definition counted :: "'t \<Rightarrow> 'e list" where
  "counted t = take (unat (count t)) (elems t)"

lemma rows_printed:
  assumes "unat (count t) \<le> length (elems t)"
  shows "for_rows (row t) 0 (count t) =
    Inr (concat (map (\<lambda>k. lines k (elems t ! k)) [0..<unat (count t)]))"
proof (rule for_rows_concat)
  fix k assume k: "k < unat (count t)"
  moreover have "k < 256" using k unat_u8_less [of "count t"] by linarith
  ultimately show "row t (of_nat k) = Inr (lines k (elems t ! k))"
    using assms by (simp add: row_law unat_of_nat_u8)
qed

end

locale faithful_rows = table_rows +
  fixes key :: "'b \<Rightarrow> 'c" and width :: nat
  assumes lines_inject: "lines i x = lines i y \<longleftrightarrow> key x = key y"
    and lines_width: "length (lines i x) = width" and width_pos: "0 < width"
begin

lemma length_concat_lines: "length (concat (map (\<lambda>k. lines k (h k)) [0..<n])) = width * n"
  by (induction n) (simp_all add: lines_width)

lemma concat_lines_eq:
  "concat (map (\<lambda>k. lines k (f k)) [0..<n]) = concat (map (\<lambda>k. lines k (g k)) [0..<n])
   \<longleftrightarrow> (\<forall>k < n. key (f k) = key (g k))"
proof (induction n)
  case (Suc n)
  have "concat (map (\<lambda>k. lines k (f k)) [0..<Suc n]) = concat (map (\<lambda>k. lines k (g k)) [0..<Suc n])
    \<longleftrightarrow> concat (map (\<lambda>k. lines k (f k)) [0..<n]) = concat (map (\<lambda>k. lines k (g k)) [0..<n])
      \<and> lines n (f n) = lines n (g n)"
    by (simp add: append_eq_append_conv length_concat_lines)
  then show ?case using Suc lines_inject by (auto simp: less_Suc_eq)
qed simp

lemma rows_determine:
  assumes t: "unat (count t) \<le> length (elems t)" and u: "unat (count u) \<le> length (elems u)"
  shows "for_rows (row t) 0 (count t) = for_rows (row u) 0 (count u)
    \<longleftrightarrow> map key (counted t) = map key (counted u)"
proof (cases "count t = count u")
  case True
  then have "map key (counted t) = map key (counted u)
      \<longleftrightarrow> (\<forall>k < unat (count u). key (elems t ! k) = key (elems u ! k))"
    using t u by (simp add: counted_def list_eq_iff_nth_eq [where ?'a = 'c])
  then show ?thesis
    using True rows_printed [OF t] rows_printed [OF u] by (simp add: concat_lines_eq)
next
  case False
  then have n: "unat (count t) \<noteq> unat (count u)" by (simp add: word_unat_eq_iff)
  then have "length (concat (map (\<lambda>k. lines k (elems t ! k)) [0..<unat (count t)]))
      \<noteq> length (concat (map (\<lambda>k. lines k (elems u ! k)) [0..<unat (count u)]))"
    using width_pos by (simp only: length_concat_lines) simp
  then have "for_rows (row t) 0 (count t) \<noteq> for_rows (row u) 0 (count u)"
    unfolding rows_printed [OF t] rows_printed [OF u] by auto
  moreover have "length (map key (counted t)) \<noteq> length (map key (counted u))"
    using t u n by (simp add: counted_def)
  then have "map key (counted t) \<noteq> map key (counted u)" by (rule contrapos_nn) (rule arg_cong)
  ultimately show ?thesis by blast
qed

end

definition pat_service_lines :: "PatServiceInfo \<Rightarrow> string list" where
  "pat_service_lines s = [separator,
     field_line ''program_number           |      '' (unat (pat_programNumber s)),
     field_line ''pid                      |      '' (unat (pat_pid s))]"

definition pmt_stream_lines :: "PmtElementaryInfo \<Rightarrow> string list" where
  "pmt_stream_lines e = [separator,
     field_line ''stream_type              |      '' (unat (streamType e)),
     field_line ''elementary_pid           |      '' (unat (elementaryPid e))]"

lemma pat_service_lines_eq: "pat_service_lines s = pat_service_lines s' \<longleftrightarrow> s = s'"
  by (cases s; cases s') (simp add: pat_service_lines_def field_line_def flip: word_unat_eq_iff)

interpretation pat_rows: faithful_rows patServiceInfoArray serviceInfoCount printPat_row
  "\<lambda>_. pat_service_lines" "\<lambda>s. s" 3
  by unfold_locales (simp_all add: printPat_row_def pat_service_lines_eq, simp_all add: pat_service_lines_def)

interpretation pmt_rows: faithful_rows pmtElementaryInfoArray elementaryInfoCount printPmt_row
  "\<lambda>_. pmt_stream_lines" "\<lambda>e. (streamType e, elementaryPid e)" 3
  by unfold_locales
    (simp_all add: printPmt_row_def pmt_stream_lines_def field_line_def flip: word_unat_eq_iff)

interpretation tot_info_rows: table_rows ltoInfo numberOfInfos printTot_info
  "\<lambda>j l. [hashes,
     show_nat (j + 1) @ ''. LTO info                              '' @ newline_char,
     ''counrty code              |        '' @ show_hex (unat (countryCH1 l))
       @ show_hex (unat (countryCH2 l)) @ show_hex (unat (countryCH3 l)) @ newline_char,
     field_line ''counrty region id         |        '' (unat (countryRegionId l)),
     field_line ''localTimeOffsetPolarity   |        '' (unat (localTimeOffsetPolarity l)),
     ''local time offset         |        '' @ pad_zeros 2 (show_nat (unat (localTimeOffsetHours l)))
       @ '':'' @ pad_zeros 2 (show_nat (unat (localTimeOffsetMinutes l))) @ newline_char,
     hashes]"
  by unfold_locales (simp add: printTot_info_def)

subsection \<open>Properties\<close>

lemma field_line_inject [simp]: "field_line l (unat v) = field_line l (unat w) \<longleftrightarrow> v = w"
  by (simp add: field_line_def flip: word_unat_eq_iff)

definition pat_services :: "PatTable \<Rightarrow> PatServiceInfo list" where
  "pat_services t = take (unat (serviceInfoCount t)) (patServiceInfoArray t)"

definition pmt_streams :: "PmtTable \<Rightarrow> PmtElementaryInfo list" where
  "pmt_streams t = take (unat (elementaryInfoCount t)) (pmtElementaryInfoArray t)"

lemma wf_pat_count: "wf_pat t \<Longrightarrow> unat (serviceInfoCount t) \<le> length (patServiceInfoArray t)"
  by (simp add: wf_pat_def)

lemma wf_pmt_count: "wf_pmt t \<Longrightarrow> unat (elementaryInfoCount t) \<le> length (pmtElementaryInfoArray t)"
  by (simp add: wf_pmt_def)

text \<open>
  C26. Printing a well-formed PAT or PMT neither fails nor reads outside the array of
  services or streams, and the printout determines what the table holds: it is the same
  for two tables exactly if they agree in the printed header fields and in
  their services (number and PID) or streams (type and PID), in number and order.
\<close>

theorem printed_tables_faithful:
  assumes "wf_pat t" and "wf_pat t'" and "wf_pmt u" and "wf_pmt u'"
  shows "(\<exists>out. printPatTable (Some t) = Inr (TABLES_PARSE_OK, out))
    \<and> (\<exists>out. printPmtTable (Some u) = Inr (TABLES_PARSE_OK, out))
    \<and> (printPatTable (Some t) = printPatTable (Some t') \<longleftrightarrow>
        pat_services t = pat_services t'
        \<and> (patHeader t)\<lparr>pat_sectionSyntaxIndicator := 0, pat_versionNumber := 0, pat_currentNextIndicator := 0\<rparr>
          = (patHeader t')\<lparr>pat_sectionSyntaxIndicator := 0, pat_versionNumber := 0, pat_currentNextIndicator := 0\<rparr>)
    \<and> (printPmtTable (Some u) = printPmtTable (Some u') \<longleftrightarrow>
        map (\<lambda>e. (streamType e, elementaryPid e)) (pmt_streams u)
          = map (\<lambda>e. (streamType e, elementaryPid e)) (pmt_streams u')
        \<and> (pmtHeader u)\<lparr>pmt_sectionSyntaxIndicator := 0, pmt_versionNumber := 0, pmt_currentNextIndicator := 0, pcrPid := 0\<rparr>
          = (pmtHeader u')\<lparr>pmt_sectionSyntaxIndicator := 0, pmt_versionNumber := 0, pmt_currentNextIndicator := 0, pcrPid := 0\<rparr>)"
proof -
  obtain o1 o2 o3 o4 where r: "for_rows (printPat_row t) 0 (serviceInfoCount t) = Inr o1"
    "for_rows (printPat_row t') 0 (serviceInfoCount t') = Inr o2"
    "for_rows (printPmt_row u) 0 (elementaryInfoCount u) = Inr o3"
    "for_rows (printPmt_row u') 0 (elementaryInfoCount u') = Inr o4"
    using assms pat_rows.rows_printed pmt_rows.rows_printed wf_pat_count wf_pmt_count by blast
  have "o1 = o2 \<longleftrightarrow> pat_services t = pat_services t'"
    using pat_rows.rows_determine [OF wf_pat_count [OF assms(1)] wf_pat_count [OF assms(2)]]
    by (simp add: r pat_services_def pat_rows.counted_def)
  moreover have "o3 = o4 \<longleftrightarrow> map (\<lambda>e. (streamType e, elementaryPid e)) (pmt_streams u)
      = map (\<lambda>e. (streamType e, elementaryPid e)) (pmt_streams u')"
    using pmt_rows.rows_determine [OF wf_pmt_count [OF assms(3)] wf_pmt_count [OF assms(4)]]
    by (simp add: r pmt_streams_def pmt_rows.counted_def)
  ultimately show ?thesis
    by (cases "patHeader t"; cases "patHeader t'"; cases "pmtHeader u"; cases "pmtHeader u'")
      (auto simp: printPatTable_def printPmtTable_def r)
qed

theorem printed_tables_faithful_witness:
  "printPatTable (Some zero_PatTable) \<noteq> printPatTable (Some (zero_PatTable\<lparr>serviceInfoCount := 1\<rparr>))
   \<and> printPmtTable (Some zero_PmtTable) = printPmtTable (Some (zero_PmtTable\<lparr>pmtHeader :=
       (pmtHeader zero_PmtTable)\<lparr>pcrPid := 7\<rparr>\<rparr>))"
proof -
  have "wf_pat zero_PatTable" by code_simp
  moreover have "wf_pat (zero_PatTable\<lparr>serviceInfoCount := 1\<rparr>)" by code_simp
  moreover have "wf_pmt zero_PmtTable" by code_simp
  moreover have "wf_pmt (zero_PmtTable\<lparr>pmtHeader := (pmtHeader zero_PmtTable)\<lparr>pcrPid := 7\<rparr>\<rparr>)" by code_simp
  ultimately show ?thesis
    using printed_tables_faithful [of zero_PatTable "zero_PatTable\<lparr>serviceInfoCount := 1\<rparr>" zero_PmtTable
        "zero_PmtTable\<lparr>pmtHeader := (pmtHeader zero_PmtTable)\<lparr>pcrPid := 7\<rparr>\<rparr>"]
    by (simp add: pat_services_def pmt_streams_def) (simp add: zero_PatTable_def)
qed

lemma printTot_row_ok:
  assumes "wf_tot t" and "k < 20"
  shows "\<exists>out. printTot_row t (of_nat k) = Inr out \<and> length out = 3 + 7 * unat (numberOfInfos (descriptors t ! k))"
proof -
  let ?d = "descriptors t ! k"
  have d: "tot_descriptor t k = Inr ?d" "unat (numberOfInfos ?d) \<le> length (ltoInfo ?d)"
    using assms by (auto simp: wf_tot_def wf_lto_def tot_descriptor_def tot_consts list_all_length)
  have "unat (of_nat k :: u8) = k" using assms(2) by (intro unat_of_nat_u8) simp
  then show ?thesis
    using d tot_info_rows.rows_printed [OF d(2)]
    by (simp add: printTot_row_def length_concat sum_list_triv comp_def)
qed

text \<open>
  Printing a well-formed TOT neither fails nor reads outside its arrays: it writes
  five lines of frame and header, and for every counted descriptor three lines and
  seven for each of its regions.
\<close>

lemma printTotTable_lines:
  assumes "wf_tot t"
  shows "\<exists>out. printTotTable (Some t) = Inr (TABLES_PARSE_OK, out)
    \<and> length out = 5 + (\<Sum>k\<leftarrow>[0..<unat (descriptorsCount t)]. 3 + 7 * unat (numberOfInfos (descriptors t ! k)))"
proof -
  define f where "f k = (SOME out. printTot_row t (of_nat k) = Inr out)" for k
  have "unat (descriptorsCount t) \<le> 20" using assms by (simp add: wf_tot_def tot_consts)
  then have row: "printTot_row t (of_nat k) = Inr (f k)
      \<and> length (f k) = 3 + 7 * unat (numberOfInfos (descriptors t ! k))" if "k < unat (descriptorsCount t)" for k
    using printTot_row_ok [OF assms, of k] that by (auto simp: f_def)
  then have "for_rows (printTot_row t) 0 (descriptorsCount t) = Inr (concat (map f [0..<unat (descriptorsCount t)]))"
    by (intro for_rows_concat) simp
  moreover have "length (concat (map f [0..<unat (descriptorsCount t)])) =
      (\<Sum>k\<leftarrow>[0..<unat (descriptorsCount t)]. 3 + 7 * unat (numberOfInfos (descriptors t ! k)))"
    unfolding length_concat map_map comp_def using row by (intro arg_cong [of _ _ sum_list] map_cong) simp_all
  ultimately show ?thesis by (simp add: printTotTable_def)
qed

text \<open>
  The date on the screen of the log: parsing a TDT of a calendar date and printing the
  table writes exactly one line with the name of the month, the
  day as the parser computes it and the year.
\<close>

theorem printTdtTable_date_line:
  assumes "valid_date y m d" and "15079 \<le> mjd_of_date y m d" and "mjd_of_date y m d < 65536"
    and "unat len < 4096"
  shows "\<exists>t' out. parseTdtTable (Some (tdt_section len (of_nat (mjd_of_date y m d)) utc, 0)) (Some t) =
        Inr (TABLES_PARSE_OK, Some t')
    \<and> printTdtTable f (Some t') = Inr (TABLES_PARSE_OK, out) \<and> length out = 6
    \<and> out ! 4 = ''INFO: Time read from stream: '' @ month_names ! (m - 1) @ ''/''
         @ show_nat (unat (of_int (int d + day_skew y m) :: u16)) @ ''/'' @ show_nat y @ '' '' @ [NEWLINE]"
proof -
  let ?t = "tdt_date (t\<lparr>tdt_tableId := 0x70, tdt_sectionLength := len,
      tdt_MJD := ucast (of_nat (mjd_of_date y m d) :: u16)\<rparr>)"
  note fields = tdt_date_of_date [OF assms(1-3), of "t\<lparr>tdt_tableId := 0x70, tdt_sectionLength := len,
      tdt_MJD := ucast (of_nat (mjd_of_date y m d) :: u16)\<rparr>", simplified]
  have m: "1 \<le> m" "m \<le> 12" using assms(1) by (simp_all add: valid_date_def)
  have "y < 65536" using tdt_estimates_of_date(1) [OF assms(1-3)] by simp
  then have "unat (tdt_Year ?t) = y" "month_name (unat (tdt_tmpMonth ?t)) = Some (month_names ! (m - 1))"
    using m by (simp_all add: fields unat_of_nat_u16 month_name_def)
  then show ?thesis
    using parseTdtTable_section [OF assms(4), of "of_nat (mjd_of_date y m d)" utc t] fields(3)
    by (simp add: printTdtTable_def)
qed

theorem printTdtTable_date_line_witness:
  "\<exists>t' out. parseTdtTable (Some (tdt_section 5 55097 [0x12, 0x34, 0x56], 0)) (Some zero_TdtTable) =
       Inr (TABLES_PARSE_OK, Some t')
     \<and> printTdtTable (\<lambda>w. show_nat (unat w)) (Some t') = Inr (TABLES_PARSE_OK, out)
     \<and> out ! 4 = ''INFO: Time read from stream: September/23/2009 '' @ [NEWLINE]"
proof -
  note v = sample_dates(1) and mjd = sample_dates(3)
  have "day_skew 2009 9 = 0" by (rule sample_dates)
  moreover have "show_nat 23 = ''23''" "show_nat 2009 = ''2009''" by code_simp+
  moreover have "month_names ! 8 = ''September''" by (simp add: month_names_def)
  ultimately show ?thesis
    using printTdtTable_date_line [OF v, of 5 "[0x12, 0x34, 0x56]" zero_TdtTable "\<lambda>w. show_nat (unat w)"]
    by (fastforce simp: mjd)
qed

subsection \<open>All parsers come to an end\<close>

text \<open>
  C21. The parsers of PAT, PMT, TDT and TOT always come to an end, on every buffer and every
  table, well formed or not: their loops do not go on for ever, the branch of the PAT and PMT
  loops that would repeat the same entry is not reachable, and what they do otherwise than
  return is to stop at an access outside the buffer or an array or through a null pointer.
\<close>

theorem parsers_terminate:
  "memory_only (parsePatTable p pat) \<and> memory_only (parsePmtTable p pmt)
   \<and> memory_only (parseTdtTable p tdt) \<and> memory_only (parseTotTable p tot)"
proof -
  have "memory_only (parseTdtTable p tdt)"
    by (auto simp: parseTdtTable_def Let_def split: option.splits intro!: memory_only_bind)
  then show ?thesis using parsePatTable_ends parsePmtTable_ends parseTotTable_ends by blast
qed

end
