(* ===== verification/Stream_Controller.thy ===== *)
theory Stream_Controller
  imports Heap_Ptr Config_Loader Tables_Print
begin

section \<open>The stream controller (stream\_controller.h, stream\_controller.c)\<close>

text \<open>
  The state of the stream controller and its operations. The tuner, player and
  demultiplexer library, the memory allocator and the thread library answer calls; how they
  answer is the parameter \<open>plat\<close>. A function that waits for a condition is cut at
  the wait: the part before it ends at a program point \<open>start_pc\<close>, and the part behind it
  is a definition of its own. The theory \<open>Stream_Steps\<close> runs the parts in any interleaving.
\<close>

subsection \<open>Calls out of the program\<close>

datatype stream_kind = VIDEO_TYPE_MPEG2 | AUDIO_TYPE_MPEG_AUDIO

datatype 'm tdp_call =
    Tuner_Init
  | Tuner_Register_Status_Callback
  | Tuner_Lock_To_Frequency u32 u32 'm
  | Tuner_Deinit
  | Player_Init
  | Player_Source_Open u32
  | Player_Source_Close u32 u32
  | Player_Deinit u32
  | Player_Stream_Create u32 u32 i16 stream_kind
  | Player_Stream_Remove u32 u32 u32
  | Player_Volume_Set u32 u32
  | Demux_Register_Section_Filter_Callback
  | Demux_Set_Filter u32 u16 u8
  | Demux_Free_Filter u32 u32
  | MV_PE_ClearScreen u32
  | Malloc
  | Pthread_Create
  | Pthread_Join

text \<open>
  An answer says whether the call failed (a nonzero error code, a null pointer from
  \<open>malloc\<close>), the handle it stored through its out-parameter if it did, and the
  state of the platform after it. \<open>print_u64\<close> is the parameter of \<open>printTdtTable\<close>.
\<close>

record ('m, 'd) platform =
  respond :: "'m tdp_call \<Rightarrow> 'd \<Rightarrow> bool \<times> u32 option \<times> 'd"
  print_u64 :: "u64 \<Rightarrow> string"
  dvb_t :: 'm

subsection \<open>State\<close>

record ChannelInfo =
  channel_programNumber :: i16
  channel_audioPid :: i16
  channel_videoPid :: i16

record CurrentDate =
  date_Year :: u16
  date_tmpMonth :: u8
  date_day :: u8

text \<open>
  The file-scope variables. A registered callback is a function on the state of the
  client that registered it, which is the field \<open>client\<close>; \<open>calls\<close> records the calls made
  to the platform and \<open>device\<close> is the platform's state. The mutex is \<open>True\<close> while held.
\<close>

record ('m, 'd, 'a) sc_state =
  patTable :: "PatTable heap_ptr"
  pmtTable :: "PmtTable heap_ptr"
  tdtTable :: "TdtTable heap_ptr"
  totTable :: "TotTable heap_ptr"
  statusMutex :: bool
  playerHandle :: u32
  sourceHandle :: u32
  streamHandleA :: u32
  streamHandleV :: u32
  filterHandle :: u32
  threadExit :: u8
  changeChannelFlag :: bool
  programNumber :: i16
  currentChannel :: ChannelInfo
  isInitialized :: bool
  timeTablesRecieved :: bool
  dateRecievedCallback :: "(CurrentDate \<Rightarrow> 'a \<Rightarrow> 'a) option"
  volumeReportCallback :: "(u8 \<Rightarrow> 'a \<Rightarrow> 'a) option"
  configFile :: "'m InitialInfo"
  currentDate :: CurrentDate
  sc_currentVolume :: u32
  client :: 'a
  calls :: "'m tdp_call list"
  device :: 'd

definition volumeConstant :: u32 where
  "volumeConstant = 160400000"

text \<open>One call: it is recorded, answered, and changes the state of the platform.\<close>

definition call_out ::
  "('m, 'd) platform \<Rightarrow> 'm tdp_call \<Rightarrow> ('m, 'd, 'a) sc_state \<Rightarrow> bool \<times> u32 option \<times> ('m, 'd, 'a) sc_state" where
  "call_out plat c s =
    (case respond plat c (device s) of (failed, out, d) \<Rightarrow> (failed, out, s\<lparr>calls := calls s @ [c], device := d\<rparr>))"

definition call_void ::
  "('m, 'd) platform \<Rightarrow> 'm tdp_call \<Rightarrow> ('m, 'd, 'a) sc_state \<Rightarrow> ('m, 'd, 'a) sc_state" where
  "call_void plat c s = snd (snd (call_out plat c s))"

definition stored_handle :: "u32 option \<Rightarrow> u32 \<Rightarrow> u32" where
  "stored_handle out old = (case out of None \<Rightarrow> old | Some h \<Rightarrow> h)"

subsection \<open>Deinitialisation\<close>

definition free_tables :: "('m, 'd, 'a) sc_state \<Rightarrow> ('m, 'd, 'a) sc_state c_res" where
  "free_tables s =
    c_bind (ptr_free (patTable s)) (\<lambda>pat.
    c_bind (ptr_free (pmtTable s)) (\<lambda>pmt.
    c_bind (ptr_free (tdtTable s)) (\<lambda>tdt.
    c_bind (ptr_free (totTable s)) (\<lambda>tot.
    Inr (s\<lparr>patTable := pat, pmtTable := pmt, tdtTable := tdt, totTable := tot\<rparr>)))))"

text \<open>The part behind \<open>pthread_join\<close>.\<close>

definition streamControllerDeinit_finish ::
  "('m, 'd) platform \<Rightarrow> ('m, 'd, 'a) sc_state \<Rightarrow> ('m, 'd, 'a) sc_state c_res" where
  "streamControllerDeinit_finish plat s =
    (let s = call_void plat (Demux_Free_Filter (playerHandle s) (filterHandle s)) s;
         s = call_void plat (Player_Stream_Remove (playerHandle s) (sourceHandle s) (streamHandleA s)) s;
         s = call_void plat (Player_Stream_Remove (playerHandle s) (sourceHandle s) (streamHandleV s)) s;
         s = call_void plat (Player_Source_Close (playerHandle s) (sourceHandle s)) s;
         s = call_void plat (Player_Deinit (playerHandle s)) s;
         s = call_void plat Tuner_Deinit s
     in c_bind (free_tables s) (\<lambda>s. Inr (s\<lparr>isInitialized := False\<rparr>)))"

text \<open>\<open>streamControllerDeinit\<close> up to its join (\<open>None\<close>: the module is not initialised), and from the join on.\<close>

definition streamControllerDeinit_begin :: "('m, 'd, 'a) sc_state \<Rightarrow> ('m, 'd, 'a) sc_state option" where
  "streamControllerDeinit_begin s = (if \<not> isInitialized s then None else Some (s\<lparr>threadExit := 1\<rparr>))"

definition streamControllerDeinit_join ::
  "('m, 'd) platform \<Rightarrow> ('m, 'd, 'a) sc_state \<Rightarrow> (StreamControllerError \<times> ('m, 'd, 'a) sc_state) c_res" where
  "streamControllerDeinit_join plat s =
    (case call_out plat Pthread_Join s of
       (failed, _, s) \<Rightarrow>
         if failed then Inr (SC_THREAD_ERROR, s)
         else c_bind (streamControllerDeinit_finish plat s) (\<lambda>s. Inr (SC_NO_ERROR, s)))"

definition streamControllerDeinit ::
  "('m, 'd) platform \<Rightarrow> ('m, 'd, 'a) sc_state \<Rightarrow> (StreamControllerError \<times> ('m, 'd, 'a) sc_state) c_res" where
  "streamControllerDeinit plat s =
    (case streamControllerDeinit_begin s of
       None \<Rightarrow> Inr (SC_ERROR, s)
     | Some s \<Rightarrow> streamControllerDeinit_join plat s)"

subsection \<open>Keys: channels and volume\<close>

text \<open>
  \<open>programNumber\<close> is an \<open>int16_t\<close>; the comparison and the subtraction \<open>serviceInfoCount - 2\<close>
  are done in \<open>int\<close>.
\<close>

definition channelUp :: "('m, 'd, 'a) sc_state \<Rightarrow> (StreamControllerError \<times> ('m, 'd, 'a) sc_state) c_res" where
  "channelUp s =
    c_bind (ptr_read (patTable s)) (\<lambda>pat.
    let s = (if sint (programNumber s) \<ge> int (unat (serviceInfoCount pat)) - 2
             then s\<lparr>programNumber := 0\<rparr>
             else s\<lparr>programNumber := programNumber s + 1\<rparr>)
    in Inr (SC_NO_ERROR, s\<lparr>changeChannelFlag := True\<rparr>))"

definition channelDown :: "('m, 'd, 'a) sc_state \<Rightarrow> (StreamControllerError \<times> ('m, 'd, 'a) sc_state) c_res" where
  "channelDown s =
    (if sint (programNumber s) \<le> 0 then
       c_bind (ptr_read (patTable s)) (\<lambda>pat.
       Inr (SC_NO_ERROR, s\<lparr>programNumber := of_int (int (unat (serviceInfoCount pat)) - 2), changeChannelFlag := True\<rparr>))
     else Inr (SC_NO_ERROR, s\<lparr>programNumber := programNumber s - 1, changeChannelFlag := True\<rparr>))"

definition getChannelInfo ::
  "ChannelInfo option \<Rightarrow> ('m, 'd, 'a) sc_state \<Rightarrow> StreamControllerError \<times> ChannelInfo option" where
  "getChannelInfo channelInfo s =
    (case channelInfo of
       None \<Rightarrow> (SC_ERROR, None)
     | Some _ \<Rightarrow> (SC_NO_ERROR,
         Some \<lparr>channel_programNumber = channel_programNumber (currentChannel s),
               channel_audioPid = channel_audioPid (currentChannel s),
               channel_videoPid = channel_videoPid (currentChannel s)\<rparr>))"

definition report_volume :: "('m, 'd, 'a) sc_state \<Rightarrow> ('m, 'd, 'a) sc_state c_res" where
  "report_volume s =
    (case volumeReportCallback s of
       None \<Rightarrow> Inl Null_Dereference
     | Some f \<Rightarrow> Inr (s\<lparr>client := f (ucast (sc_currentVolume s)) (client s)\<rparr>))"

definition volumeUp ::
  "('m, 'd) platform \<Rightarrow> ('m, 'd, 'a) sc_state \<Rightarrow> ('m, 'd, 'a) sc_state c_res" where
  "volumeUp plat s =
    (let s = s\<lparr>sc_currentVolume := sc_currentVolume s + 1\<rparr>;
         s = (if sc_currentVolume s > 10 then s\<lparr>sc_currentVolume := 10\<rparr> else s)
     in report_volume (call_void plat (Player_Volume_Set (playerHandle s) (sc_currentVolume s * volumeConstant)) s))"

definition volumeDown ::
  "('m, 'd) platform \<Rightarrow> ('m, 'd, 'a) sc_state \<Rightarrow> ('m, 'd, 'a) sc_state c_res" where
  "volumeDown plat s =
    (let s = (if sc_currentVolume s > 0 then s\<lparr>sc_currentVolume := sc_currentVolume s - 1\<rparr> else s)
     in report_volume (call_void plat (Player_Volume_Set (playerHandle s) (sc_currentVolume s * volumeConstant)) s))"

definition volumeMute ::
  "('m, 'd) platform \<Rightarrow> ('m, 'd, 'a) sc_state \<Rightarrow> ('m, 'd, 'a) sc_state" where
  "volumeMute plat s = (call_void plat (Player_Volume_Set (playerHandle s) 0) s)\<lparr>sc_currentVolume := 0\<rparr>"

definition registerDateCallback ::
  "(CurrentDate \<Rightarrow> 'a \<Rightarrow> 'a) option \<Rightarrow> ('m, 'd, 'a) sc_state \<Rightarrow> StreamControllerError \<times> ('m, 'd, 'a) sc_state" where
  "registerDateCallback dateCallback s =
    (case dateCallback of
       None \<Rightarrow> (SC_ERROR, s)
     | Some f \<Rightarrow> (SC_NO_ERROR, s\<lparr>dateRecievedCallback := Some f\<rparr>))"

definition registerVolumeCallback ::
  "(u8 \<Rightarrow> 'a \<Rightarrow> 'a) option \<Rightarrow> ('m, 'd, 'a) sc_state \<Rightarrow> StreamControllerError \<times> ('m, 'd, 'a) sc_state" where
  "registerVolumeCallback volumeCallback s =
    (case volumeCallback of
       None \<Rightarrow> (SC_ERROR, s)
     | Some f \<Rightarrow> (SC_NO_ERROR, s\<lparr>volumeReportCallback := Some f\<rparr>))"

text \<open>\<open>loadInitialInfo\<close>; the file config.ini is an argument, \<open>None\<close> if it cannot be opened.\<close>

definition loadInitialInfo ::
  "('m, 'd) platform \<Rightarrow> char list option \<Rightarrow> ('m, 'd, 'a) sc_state
   \<Rightarrow> (StreamControllerError \<times> ('m, 'd, 'a) sc_state) c_res" where
  "loadInitialInfo plat config_file s =
    c_bind (loadConfigFile (dvb_t plat) config_file (configFile s)) (\<lambda>(rc, info, _).
    let s = s\<lparr>configFile := info\<rparr> in
    if rc \<noteq> SC_NO_ERROR then Inr (SC_ERROR, s)
    else Inr (SC_NO_ERROR, s\<lparr>programNumber := ucast (info_programNumber info)\<rparr>))"

subsection \<open>Starting a channel\<close>

text \<open>
  Where a call of \<open>startChannel\<close> (with the \<open>parseTimeTables\<close> inside it) stands between two
  of its parts: behind a successful \<open>Demux_Set_Filter\<close>, inside the wait that follows, or
  returned. The waits are for the PMT, the TDT and the TOT.
\<close>

datatype start_pc =
    Pmt_Set int | Pmt_Wait int
  | Tdt_Set | Tdt_Wait
  | Tot_Set | Tot_Wait
  | Returned

text \<open>The expression \<open>patTable->patServiceInfoArray[channelNumber + 1].pid\<close>.\<close>

definition service_pid :: "PatTable \<Rightarrow> int \<Rightarrow> u16 c_res" where
  "service_pid pat channelNumber =
    (if 0 \<le> channelNumber + 1
     then c_bind (array_get (patServiceInfoArray pat) (nat (channelNumber + 1))) (\<lambda>info. Inr (pat_pid info))
     else Inl Read_Out_Of_Bounds)"

definition startChannel_begin ::
  "('m, 'd) platform \<Rightarrow> int \<Rightarrow> ('m, 'd, 'a) sc_state \<Rightarrow> (start_pc \<times> ('m, 'd, 'a) sc_state) c_res" where
  "startChannel_begin plat channelNumber s =
    (let s = call_void plat (Demux_Free_Filter (playerHandle s) (filterHandle s)) s in
     c_bind (ptr_read (patTable s)) (\<lambda>pat.
     c_bind (service_pid pat channelNumber) (\<lambda>pid.
     case call_out plat (Demux_Set_Filter (playerHandle s) pid 0x02) s of
       (failed, out, s) \<Rightarrow>
         let s = s\<lparr>filterHandle := stored_handle out (filterHandle s)\<rparr> in
         if failed then Inr (Returned, s) else Inr (Pmt_Set channelNumber, s))))"

text \<open>The loop that picks the PIDs: \<open>-1\<close> stands for a PID not found yet.\<close>

definition is_video_type :: "u8 \<Rightarrow> bool" where
  "is_video_type t \<longleftrightarrow> t = 0x1 \<or> t = 0x2 \<or> t = 0x1b"

definition is_audio_type :: "u8 \<Rightarrow> bool" where
  "is_audio_type t \<longleftrightarrow> t = 0x3 \<or> t = 0x4"

function select_pids :: "PmtTable \<Rightarrow> u8 \<Rightarrow> i16 \<Rightarrow> i16 \<Rightarrow> (i16 \<times> i16) c_res" where
  "select_pids pmt i audioPid videoPid =
    (if i < elementaryInfoCount pmt then
       c_bind (array_get (pmtElementaryInfoArray pmt) (unat i)) (\<lambda>e.
       if is_video_type (streamType e) \<and> videoPid = -1
       then select_pids pmt (i + 1) audioPid (elementaryPid e)
       else if is_audio_type (streamType e) \<and> audioPid = -1
       then select_pids pmt (i + 1) (elementaryPid e) videoPid
       else select_pids pmt (i + 1) audioPid videoPid)
     else Inr (audioPid, videoPid))"
  by pat_completeness auto
termination
  by (relation "measure (\<lambda>(pmt, i, a, v). unat (elementaryInfoCount pmt) - unat i)")
    (auto simp: u8_loop_measure)

declare select_pids.simps [simp del]

text \<open>A failed creation of a stream deinitialises the module and goes on.\<close>

definition create_stream_failed ::
  "('m, 'd) platform \<Rightarrow> bool \<Rightarrow> ('m, 'd, 'a) sc_state \<Rightarrow> ('m, 'd, 'a) sc_state c_res" where
  "create_stream_failed plat failed s =
    (if failed then c_bind (streamControllerDeinit plat s) (\<lambda>(_, s). Inr s) else Inr s)"

definition start_video ::
  "('m, 'd) platform \<Rightarrow> i16 \<Rightarrow> ('m, 'd, 'a) sc_state \<Rightarrow> ('m, 'd, 'a) sc_state c_res" where
  "start_video plat videoPid s =
    (if videoPid \<noteq> -1 then
       let s = (if streamHandleV s \<noteq> 0
                then (call_void plat (Player_Stream_Remove (playerHandle s) (sourceHandle s) (streamHandleV s)) s)
                       \<lparr>streamHandleV := 0\<rparr>
                else s)
       in case call_out plat (Player_Stream_Create (playerHandle s) (sourceHandle s) videoPid VIDEO_TYPE_MPEG2) s of
            (failed, out, s) \<Rightarrow>
              create_stream_failed plat failed (s\<lparr>streamHandleV := stored_handle out (streamHandleV s)\<rparr>)
     else
       let s = (call_void plat (Player_Stream_Remove (playerHandle s) (sourceHandle s) (streamHandleV s)) s)
                 \<lparr>streamHandleV := 0\<rparr>
       in Inr (call_void plat (MV_PE_ClearScreen (playerHandle s)) s))"

definition start_audio ::
  "('m, 'd) platform \<Rightarrow> i16 \<Rightarrow> ('m, 'd, 'a) sc_state \<Rightarrow> ('m, 'd, 'a) sc_state c_res" where
  "start_audio plat audioPid s =
    (if audioPid \<noteq> -1 then
       let s = (if streamHandleA s \<noteq> 0
                then (call_void plat (Player_Stream_Remove (playerHandle s) (sourceHandle s) (streamHandleA s)) s)
                       \<lparr>streamHandleA := 0\<rparr>
                else s)
       in case call_out plat (Player_Stream_Create (playerHandle s) (sourceHandle s) audioPid AUDIO_TYPE_MPEG_AUDIO) s of
            (failed, out, s) \<Rightarrow>
              create_stream_failed plat failed (s\<lparr>streamHandleA := stored_handle out (streamHandleA s)\<rparr>)
     else Inr s)"

text \<open>\<open>parseTimeTables\<close> up to its first wait.\<close>

definition parseTimeTables_begin ::
  "('m, 'd) platform \<Rightarrow> ('m, 'd, 'a) sc_state \<Rightarrow> start_pc \<times> ('m, 'd, 'a) sc_state" where
  "parseTimeTables_begin plat s =
    (let s = call_void plat (Demux_Free_Filter (playerHandle s) (filterHandle s)) s in
     case call_out plat (Demux_Set_Filter (playerHandle s) 0x0014 0x70) s of
       (failed, out, s) \<Rightarrow>
         let s = s\<lparr>filterHandle := stored_handle out (filterHandle s)\<rparr> in
         if failed then (Returned, s) else (Tdt_Set, s))"

text \<open>Behind a wait for a section: \<open>timed_out\<close> is the test \<open>ETIMEDOUT == pthread_cond_wait (...)\<close>.\<close>

definition wait_over ::
  "('m, 'd) platform \<Rightarrow> bool \<Rightarrow> ('m, 'd, 'a) sc_state \<Rightarrow> ('m, 'd, 'a) sc_state c_res" where
  "wait_over plat timed_out s =
    (if timed_out then c_bind (streamControllerDeinit plat s) (\<lambda>(_, s). Inr s) else Inr s)"

definition startChannel_pmt ::
  "('m, 'd) platform \<Rightarrow> int \<Rightarrow> bool \<Rightarrow> ('m, 'd, 'a) sc_state \<Rightarrow> (start_pc \<times> ('m, 'd, 'a) sc_state) c_res" where
  "startChannel_pmt plat channelNumber timed_out s =
    c_bind (wait_over plat timed_out s) (\<lambda>s.
    c_bind (ptr_read (pmtTable s)) (\<lambda>pmt.
    c_bind (select_pids pmt 0 (-1) (-1)) (\<lambda>(audioPid, videoPid).
    c_bind (start_video plat videoPid s) (\<lambda>s.
    c_bind (start_audio plat audioPid s) (\<lambda>s.
    let s = s\<lparr>currentChannel := \<lparr>channel_programNumber = of_int (channelNumber + 1),
               channel_audioPid = audioPid, channel_videoPid = videoPid\<rparr>\<rparr>
    in if \<not> timeTablesRecieved s then Inr (parseTimeTables_begin plat s) else Inr (Returned, s))))))"

definition parseTimeTables_tdt ::
  "('m, 'd) platform \<Rightarrow> bool \<Rightarrow> ('m, 'd, 'a) sc_state \<Rightarrow> (start_pc \<times> ('m, 'd, 'a) sc_state) c_res" where
  "parseTimeTables_tdt plat timed_out s =
    c_bind (wait_over plat timed_out s) (\<lambda>s.
    let s = call_void plat (Demux_Free_Filter (playerHandle s) (filterHandle s)) s in
    case call_out plat (Demux_Set_Filter (playerHandle s) 0x0014 0x73) s of
      (failed, out, s) \<Rightarrow>
        let s = s\<lparr>filterHandle := stored_handle out (filterHandle s)\<rparr> in
        if failed then Inr (Returned, s) else Inr (Tot_Set, s))"

text \<open>
  The last part reads the offsets of the first region, which it does not use, and reports
  the date; \<open>tmpMonth\<close> and \<open>day\<close> are narrowed to \<open>uint8_t\<close>.
\<close>

definition parseTimeTables_tot ::
  "('m, 'd) platform \<Rightarrow> bool \<Rightarrow> ('m, 'd, 'a) sc_state \<Rightarrow> (start_pc \<times> ('m, 'd, 'a) sc_state) c_res" where
  "parseTimeTables_tot plat timed_out s =
    c_bind (wait_over plat timed_out s) (\<lambda>s.
    c_bind (ptr_read (totTable s)) (\<lambda>tot.
    c_bind (tot_descriptor tot 0) (\<lambda>desc.
    c_bind (array_get (ltoInfo desc) 0) (\<lambda>lto.
    c_bind (ptr_read (tdtTable s)) (\<lambda>tdt.
    let date = \<lparr>date_Year = tdt_Year tdt, date_tmpMonth = ucast (tdt_tmpMonth tdt), date_day = ucast (tdt_day tdt)\<rparr>;
        s = s\<lparr>currentDate := date\<rparr>
    in case dateRecievedCallback s of
         None \<Rightarrow> Inl Null_Dereference
       | Some f \<Rightarrow> Inr (Returned, s\<lparr>client := f date (client s), timeTablesRecieved := True\<rparr>))))))"

text \<open>The next part of a call of \<open>startChannel\<close> whose wait is over.\<close>

fun startChannel_resume ::
  "('m, 'd) platform \<Rightarrow> bool \<Rightarrow> start_pc \<Rightarrow> ('m, 'd, 'a) sc_state \<Rightarrow> (start_pc \<times> ('m, 'd, 'a) sc_state) c_res" where
  "startChannel_resume plat timed_out (Pmt_Wait ch) s = startChannel_pmt plat ch timed_out s"
| "startChannel_resume plat timed_out Tdt_Wait s = parseTimeTables_tdt plat timed_out s"
| "startChannel_resume plat timed_out Tot_Wait s = parseTimeTables_tot plat timed_out s"
| "startChannel_resume plat timed_out pc s = Inr (pc, s)"

text \<open>\<open>changeChannelKey\<close>: the test, then \<open>startChannel\<close>.\<close>

definition changeChannelKey_begin ::
  "('m, 'd) platform \<Rightarrow> int \<Rightarrow> ('m, 'd, 'a) sc_state \<Rightarrow> (start_pc \<times> ('m, 'd, 'a) sc_state) c_res" where
  "changeChannelKey_begin plat channelNumber s =
    (if channelNumber > -1 then
       c_bind (ptr_read (patTable s)) (\<lambda>pat.
       if channelNumber < int (unat (serviceInfoCount pat))
       then startChannel_begin plat channelNumber s
       else Inr (Returned, s))
     else Inr (Returned, s))"

subsection \<open>The controller thread\<close>

text \<open>
  Where \<open>streamControllerTask\<close> stands between two of its parts: before it locks the status
  mutex, inside \<open>pthread_cond_timedwait\<close>, before and inside the wait for the PAT, inside one
  of its two calls of \<open>startChannel\<close>, at the head of its loop, or returned. The end of the
  function is reached without a \<open>return\<close>.
\<close>

datatype task_pc =
    Status_Lock | Status_Wait
  | Pat_Set | Pat_Wait
  | First_Start start_pc
  | Task_Loop
  | Loop_Start start_pc
  | Task_Returned StreamControllerError
  | Task_Ended

definition streamControllerInit ::
  "('m, 'd) platform \<Rightarrow> ('m, 'd, 'a) sc_state \<Rightarrow> StreamControllerError \<times> ('m, 'd, 'a) sc_state" where
  "streamControllerInit plat s =
    (case call_out plat Pthread_Create s of
       (failed, _, s) \<Rightarrow> if failed then (SC_THREAD_ERROR, s) else (SC_NO_ERROR, s))"

text \<open>\<open>malloc\<close> followed by \<open>memset\<close> to zero.\<close>

definition alloc_zeroed ::
  "('m, 'd) platform \<Rightarrow> 't \<Rightarrow> ('m, 'd, 'a) sc_state \<Rightarrow> 't heap_ptr \<times> ('m, 'd, 'a) sc_state" where
  "alloc_zeroed plat zero s =
    (case call_out plat Malloc s of (failed, _, s) \<Rightarrow> (if failed then Null else Ptr zero, s))"

definition free_and_return ::
  "('m, 'd) platform \<Rightarrow> 'm tdp_call list \<Rightarrow> ('m, 'd, 'a) sc_state \<Rightarrow> (task_pc \<times> ('m, 'd, 'a) sc_state) c_res" where
  "free_and_return plat cs s =
    c_bind (free_tables s) (\<lambda>s. Inr (Task_Returned SC_ERROR, fold (call_void plat) cs s))"

text \<open>From the tuner on, up to the wait for its lock.\<close>

definition task_tuner ::
  "('m, 'd) platform \<Rightarrow> ('m, 'd, 'a) sc_state \<Rightarrow> (task_pc \<times> ('m, 'd, 'a) sc_state) c_res" where
  "task_tuner plat s =
    (case call_out plat Tuner_Init s of
       (failed, _, s) \<Rightarrow>
         if failed then free_and_return plat [] s
         else
         let s = call_void plat Tuner_Register_Status_Callback s in
         case call_out plat (Tuner_Lock_To_Frequency (tuneFrequency (configFile s))
                (tuneBandwidth (configFile s)) (tuneModule (configFile s))) s of
           (failed, _, s) \<Rightarrow>
             if failed then free_and_return plat [Tuner_Deinit] s else Inr (Status_Lock, s))"

definition streamControllerTask_begin ::
  "('m, 'd) platform \<Rightarrow> ('m, 'd, 'a) sc_state \<Rightarrow> (task_pc \<times> ('m, 'd, 'a) sc_state) c_res" where
  "streamControllerTask_begin plat s =
    (case alloc_zeroed plat zero_PatTable s of (p, s) \<Rightarrow>
     let s = s\<lparr>patTable := p\<rparr> in
     if p = Null then Inr (Task_Returned SC_ERROR, s) else
     case alloc_zeroed plat zero_PmtTable s of (p, s) \<Rightarrow>
     let s = s\<lparr>pmtTable := p\<rparr> in
     if p = Null then Inr (Task_Returned SC_ERROR, s) else
     case alloc_zeroed plat zero_TdtTable s of (p, s) \<Rightarrow>
     let s = s\<lparr>tdtTable := p\<rparr> in
     if p = Null then Inr (Task_Returned SC_ERROR, s) else
     case alloc_zeroed plat zero_TotTable s of (p, s) \<Rightarrow>
     let s = s\<lparr>totTable := p\<rparr> in
     if p = Null then Inr (Task_Returned SC_ERROR, s) else
     task_tuner plat s)"

text \<open>
  Behind the timed wait, which returns with the mutex held. On a timeout the function
  returns without unlocking it.
\<close>

definition streamControllerTask_status ::
  "('m, 'd) platform \<Rightarrow> bool \<Rightarrow> ('m, 'd, 'a) sc_state \<Rightarrow> (task_pc \<times> ('m, 'd, 'a) sc_state) c_res" where
  "streamControllerTask_status plat timed_out s =
    (let s = s\<lparr>statusMutex := True\<rparr> in
     if timed_out then free_and_return plat [Tuner_Deinit] s
     else
     let s = s\<lparr>statusMutex := False\<rparr> in
     case call_out plat Player_Init s of
       (failed, out, s) \<Rightarrow>
         let s = s\<lparr>playerHandle := stored_handle out (playerHandle s)\<rparr> in
         if failed then free_and_return plat [Tuner_Deinit] s
         else
         case call_out plat (Player_Source_Open (playerHandle s)) s of
           (failed, out, s) \<Rightarrow>
             let s = s\<lparr>sourceHandle := stored_handle out (sourceHandle s)\<rparr> in
             if failed then free_and_return plat [Player_Deinit (playerHandle s), Tuner_Deinit] s
             else
             case call_out plat (Demux_Set_Filter (playerHandle s) 0x00 0x00) s of
               (_, out, s) \<Rightarrow>
                 let s = s\<lparr>filterHandle := stored_handle out (filterHandle s)\<rparr> in
                 Inr (Pat_Set, call_void plat Demux_Register_Section_Filter_Callback s))"

text \<open>A call of \<open>startChannel\<close> that has returned leads on to the loop.\<close>

definition after_first :: "start_pc \<times> ('m, 'd, 'a) sc_state \<Rightarrow> task_pc \<times> ('m, 'd, 'a) sc_state" where
  "after_first r = (case r of (pc, s) \<Rightarrow>
     if pc = Returned then (Task_Loop, s\<lparr>isInitialized := True\<rparr>) else (First_Start pc, s))"

definition after_loop_start :: "start_pc \<times> ('m, 'd, 'a) sc_state \<Rightarrow> task_pc \<times> ('m, 'd, 'a) sc_state" where
  "after_loop_start r = (case r of (pc, s) \<Rightarrow> if pc = Returned then (Task_Loop, s) else (Loop_Start pc, s))"

definition streamControllerTask_pat ::
  "('m, 'd) platform \<Rightarrow> bool \<Rightarrow> ('m, 'd, 'a) sc_state \<Rightarrow> (task_pc \<times> ('m, 'd, 'a) sc_state) c_res" where
  "streamControllerTask_pat plat timed_out s =
    (if timed_out then free_and_return plat [Player_Deinit (playerHandle s), Tuner_Deinit] s
     else c_bind (startChannel_begin plat (sint (programNumber s)) s) (\<lambda>r. Inr (after_first r)))"

text \<open>One round of \<open>while (!threadExit)\<close>.\<close>

definition streamControllerTask_round ::
  "('m, 'd) platform \<Rightarrow> ('m, 'd, 'a) sc_state \<Rightarrow> (task_pc \<times> ('m, 'd, 'a) sc_state) c_res" where
  "streamControllerTask_round plat s =
    (if threadExit s \<noteq> 0 then Inr (Task_Ended, s)
     else if changeChannelFlag s then
       c_bind (startChannel_begin plat (sint (programNumber s)) (s\<lparr>changeChannelFlag := False\<rparr>))
         (\<lambda>r. Inr (after_loop_start r))
     else Inr (Task_Loop, s))"

subsection \<open>Callbacks of the platform\<close>

text \<open>
  \<open>sectionReceivedCallback\<close>: the table id selects the parser; the result says whether
  \<open>demuxCond\<close> is signalled. TDT and TOT are printed first.
\<close>

definition sectionReceivedCallback ::
  "('m, 'd) platform \<Rightarrow> byte_ptr option \<Rightarrow> ('m, 'd, 'a) sc_state \<Rightarrow> (bool \<times> ('m, 'd, 'a) sc_state) c_res" where
  "sectionReceivedCallback plat buffer s =
    (case buffer of
       None \<Rightarrow> Inl Null_Dereference
     | Some buf \<Rightarrow>
         c_bind (deref buf 0) (\<lambda>tableId.
         if tableId = 0x00 then
           c_bind (ptr_arg (patTable s)) (\<lambda>p.
           c_bind (parsePatTable buffer p) (\<lambda>(rc, p).
           Inr (rc = TABLES_PARSE_OK, s\<lparr>patTable := ptr_back p\<rparr>)))
         else if tableId = 0x02 then
           c_bind (ptr_arg (pmtTable s)) (\<lambda>p.
           c_bind (parsePmtTable buffer p) (\<lambda>(rc, p).
           Inr (rc = TABLES_PARSE_OK, s\<lparr>pmtTable := ptr_back p\<rparr>)))
         else if tableId = 0x70 then
           c_bind (ptr_arg (tdtTable s)) (\<lambda>p.
           c_bind (parseTdtTable buffer p) (\<lambda>(rc, p).
           if rc = TABLES_PARSE_OK then
             c_bind (printTdtTable (print_u64 plat) p) (\<lambda>_. Inr (True, s\<lparr>tdtTable := ptr_back p\<rparr>))
           else Inr (False, s\<lparr>tdtTable := ptr_back p\<rparr>)))
         else if tableId = 0x73 then
           c_bind (ptr_arg (totTable s)) (\<lambda>p.
           c_bind (parseTotTable buffer p) (\<lambda>(rc, p).
           if rc = TABLES_PARSE_OK then
             c_bind (printTotTable p) (\<lambda>_. Inr (True, s\<lparr>totTable := ptr_back p\<rparr>))
           else Inr (False, s\<lparr>totTable := ptr_back p\<rparr>)))
         else Inr (False, s)))"

text \<open>
  \<open>tunerStatusCallback\<close>: \<open>None\<close> if it blocks on the status mutex, otherwise whether
  \<open>statusCondition\<close> is signalled.
\<close>

definition tunerStatusCallback :: "bool \<Rightarrow> ('m, 'd, 'a) sc_state \<Rightarrow> bool option" where
  "tunerStatusCallback locked s =
    (if locked then if statusMutex s then None else Some True else Some False)"

end
