(* ===== verification/Stream_Channel.thy ===== *)
theory Stream_Channel
  imports Stream_Controller
begin

section \<open>Channels and volume\<close>

text \<open>
  The behaviour of the key operations of the stream controller: P+ and P- walk around the
  ring of the programs of the PAT, the dialled number selects one, the PIDs are those of the
  first matching streams, the volume stays within its scale.
\<close>

lemma call_out_eq:
  "call_out plat c s =
    (fst (respond plat c (device s)), fst (snd (respond plat c (device s))),
     s\<lparr>calls := calls s @ [c], device := snd (snd (respond plat c (device s)))\<rparr>)"
  by (simp add: call_out_def split: prod.split)

lemma call_void_eq:
  "call_void plat c s = s\<lparr>calls := calls s @ [c], device := snd (snd (respond plat c (device s)))\<rparr>"
  by (simp add: call_void_def call_out_eq)

lemmas call_simps = call_out_eq call_void_eq

subsection \<open>The ring of channels\<close>

text \<open>
  Two operations that move a position by one around a ring of fixed size. Any number of
  moves adds up modulo the size, every position is reached, and the two undo each other.
\<close>

locale ring_walk =
  fixes up down :: "'s \<Rightarrow> 's" and pos :: "'s \<Rightarrow> int" and size :: "'s \<Rightarrow> int" and ok :: "'s \<Rightarrow> bool"
  assumes range: "ok s \<Longrightarrow> 0 \<le> pos s \<and> pos s < size s"
    and up: "ok s \<Longrightarrow> ok (up s) \<and> size (up s) = size s \<and> pos (up s) = (pos s + 1) mod size s"
    and down: "ok s \<Longrightarrow> ok (down s) \<and> size (down s) = size s \<and> pos (down s) = (pos s - 1) mod size s"
begin

lemma up_iter:
  "ok s \<Longrightarrow> ok ((up ^^ k) s) \<and> size ((up ^^ k) s) = size s \<and> pos ((up ^^ k) s) = (pos s + int k) mod size s"
proof (induction k)
  case 0
  then show ?case using range by simp
next
  case (Suc k)
  then show ?case using up [of "(up ^^ k) s"] by (simp add: mod_simps ac_simps)
qed

lemma down_up: "ok s \<Longrightarrow> pos (down (up s)) = pos s"
  using range [of s] up [of s] down [of "up s"] by (simp add: mod_simps)

lemma up_down: "ok s \<Longrightarrow> pos (up (down s)) = pos s"
  using range [of s] down [of s] up [of "down s"] by (simp add: mod_simps)

lemma reaches:
  assumes "ok s" and "0 \<le> q" and "q < size s"
  shows "\<exists>k. int k < size s \<and> pos ((up ^^ k) s) = q"
proof (intro exI conjI)
  have "0 < size s" using assms by linarith
  then show "int (nat ((q - pos s) mod size s)) < size s" by simp
  show "pos ((up ^^ nat ((q - pos s) mod size s)) s) = q"
    using up_iter [OF assms(1)] assms \<open>0 < size s\<close> by (simp add: mod_simps)
qed

end

text \<open>
  The programs of a PAT with \<open>n\<close> services are numbered from 0 to \<open>n - 2\<close>: the first
  service entry is the network information.
\<close>

definition channel_ok :: "('m, 'd, 'a) sc_state \<Rightarrow> bool" where
  "channel_ok s \<longleftrightarrow> (case patTable s of
     Ptr pat \<Rightarrow> wf_pat pat \<and> 2 \<le> unat (serviceInfoCount pat) \<and> 0 \<le> sint (programNumber s)
       \<and> sint (programNumber s) \<le> int (unat (serviceInfoCount pat)) - 2
   | _ \<Rightarrow> False)"

definition program_count :: "('m, 'd, 'a) sc_state \<Rightarrow> int" where
  "program_count s = (case patTable s of Ptr pat \<Rightarrow> int (unat (serviceInfoCount pat)) - 1 | _ \<Rightarrow> 0)"

text \<open>The state after a key operation that returns.\<close>

definition after :: "(StreamControllerError \<times> 's) c_res \<Rightarrow> 's \<Rightarrow> 's" where
  "after r s = (case r of Inl _ \<Rightarrow> s | Inr (_, s') \<Rightarrow> s')"

lemma after_Inr [simp]: "after (Inr (rc, s')) s = s'"
  by (simp add: after_def)

lemma sint_of_int_i16: "- 32768 \<le> k \<Longrightarrow> k < 32768 \<Longrightarrow> sint (of_int k :: i16) = k"
  by (simp add: sint_sbintrunc' signed_take_bit_int_eq_self)

lemma sint_step_i16:
  "sint (w :: i16) < 32767 \<Longrightarrow> sint (w + 1) = sint w + 1"
  "- 32768 < sint (w :: i16) \<Longrightarrow> sint (w - 1) = sint w - 1"
  using sint_of_int_i16 [of "sint w + 1"] sint_of_int_i16 [of "sint w - 1"]
    sint_ge [of w] sint_lt [of w] by simp_all

definition moved_to :: "i16 \<Rightarrow> ('m, 'd, 'a) sc_state \<Rightarrow> ('m, 'd, 'a) sc_state" where
  "moved_to p s = s\<lparr>programNumber := p, changeChannelFlag := True\<rparr>"

lemma channel_okE:
  assumes "channel_ok s"
  obtains pat where "patTable s = Ptr pat" "wf_pat pat" "2 \<le> int (unat (serviceInfoCount pat))"
    "int (unat (serviceInfoCount pat)) \<le> 20" "0 \<le> sint (programNumber s)"
    "sint (programNumber s) \<le> int (unat (serviceInfoCount pat)) - 2"
    "program_count s = int (unat (serviceInfoCount pat)) - 1"
  using assms
  by (auto simp: channel_ok_def program_count_def wf_pat_def TABLES_MAX_NUMBER_OF_PIDS_IN_PAT_def
      simp del: of_nat_unat split: heap_ptr.splits)

lemma channelUp_moves:
  assumes "channel_ok s"
  shows "\<exists>p. channelUp s = Inr (SC_NO_ERROR, moved_to p s)
    \<and> sint p = (sint (programNumber s) + 1) mod program_count s"
  using assms
proof (rule channel_okE)
  fix pat :: PatTable
  let ?p = "sint (programNumber s)" and ?n = "int (unat (serviceInfoCount pat))"
  assume pat: "patTable s = Ptr pat" and n: "2 \<le> ?n" "?n \<le> 20" "0 \<le> ?p" "?p \<le> ?n - 2"
    and cnt: "program_count s = ?n - 1"
  show ?thesis
  proof (cases "?p = ?n - 2")
    case True
    then show ?thesis
      by (intro exI [of _ 0]) (simp add: channelUp_def pat cnt moved_to_def del: of_nat_unat)
  next
    case False
    then have "(?p + 1) mod (?n - 1) = ?p + 1" using n by (intro mod_pos_pos_trivial) linarith+
    moreover have "sint (programNumber s + 1) = ?p + 1" using n by (intro sint_step_i16) linarith
    ultimately show ?thesis
      using False n by (intro exI [of _ "programNumber s + 1"])
        (simp add: channelUp_def pat cnt moved_to_def del: of_nat_unat)
  qed
qed

lemma channelDown_moves:
  assumes "channel_ok s"
  shows "\<exists>p. channelDown s = Inr (SC_NO_ERROR, moved_to p s)
    \<and> sint p = (sint (programNumber s) - 1) mod program_count s"
  using assms
proof (rule channel_okE)
  fix pat :: PatTable
  let ?p = "sint (programNumber s)" and ?n = "int (unat (serviceInfoCount pat))"
  assume pat: "patTable s = Ptr pat" and n: "2 \<le> ?n" "?n \<le> 20" "0 \<le> ?p" "?p \<le> ?n - 2"
    and cnt: "program_count s = ?n - 1"
  show ?thesis
  proof (cases "?p = 0")
    case True
    have "sint (of_int (?n - 2) :: i16) = ?n - 2" using n by (intro sint_of_int_i16) linarith+
    moreover have "(- 1) mod (?n - 1) = ?n - 2" using n zmod_minus1 [of "?n - 1"] by simp
    ultimately show ?thesis
      using True by (intro exI [of _ "of_int (?n - 2)"])
        (simp add: channelDown_def pat cnt moved_to_def del: of_nat_unat)
  next
    case False
    then have "(?p - 1) mod (?n - 1) = ?p - 1" using n by (intro mod_pos_pos_trivial) linarith+
    moreover have "sint (programNumber s - 1) = ?p - 1" using n by (intro sint_step_i16) linarith
    ultimately show ?thesis
      using False n by (intro exI [of _ "programNumber s - 1"])
        (simp add: channelDown_def cnt moved_to_def del: of_nat_unat)
  qed
qed

lemma channel_ok_moved:
  assumes "channel_ok s" and "sint p = q mod program_count s"
  shows "channel_ok (moved_to p s) \<and> program_count (moved_to p s) = program_count s"
  using assms(1)
proof (rule channel_okE)
  fix pat :: PatTable
  let ?n = "int (unat (serviceInfoCount pat))"
  assume pat: "patTable s = Ptr pat" "wf_pat pat" "2 \<le> ?n" "program_count s = ?n - 1"
  then have "0 \<le> q mod (?n - 1)" "q mod (?n - 1) < ?n - 1"
    by (auto intro: pos_mod_sign pos_mod_bound simp del: of_nat_unat)
  then have "0 \<le> q mod (?n - 1)" "q mod (?n - 1) \<le> ?n - 2" by linarith+
  then show ?thesis
    using assms(2) pat by (simp add: channel_ok_def program_count_def moved_to_def del: of_nat_unat)
qed

interpretation channels: ring_walk "\<lambda>s. after (channelUp s) s" "\<lambda>s. after (channelDown s) s"
  "\<lambda>s. sint (programNumber s)" program_count channel_ok
proof (unfold_locales, goal_cases)
  case (1 s)
  then show ?case by (elim channel_okE) simp
next
  case (2 s)
  then obtain p where "channelUp s = Inr (SC_NO_ERROR, moved_to p s)"
    "sint p = (sint (programNumber s) + 1) mod program_count s"
    using channelUp_moves by blast
  then show ?case using channel_ok_moved [OF 2] by (simp add: moved_to_def)
next
  case (3 s)
  then obtain p where "channelDown s = Inr (SC_NO_ERROR, moved_to p s)"
    "sint p = (sint (programNumber s) - 1) mod program_count s"
    using channelDown_moves by blast
  then show ?case using channel_ok_moved [OF 3] by (simp add: moved_to_def)
qed

text \<open>
  C10. P+ and P- walk around the programs of the PAT. With a PAT of \<open>n \<ge> 2\<close> services and the
  current program between 0 and \<open>n - 2\<close>, neither key faults, both ask for the new channel to
  be started and keep that range; \<open>k\<close> presses of P+ add \<open>k\<close> modulo \<open>n - 1\<close>; each key undoes the
  other; and every program is reached by less than \<open>n - 1\<close> presses.
\<close>

theorem channel_keys_ring:
  assumes "channel_ok s"
  shows "no_fault (channelUp s) \<and> no_fault (channelDown s)
    \<and> changeChannelFlag (after (channelUp s) s) \<and> changeChannelFlag (after (channelDown s) s)
    \<and> channel_ok (((\<lambda>s. after (channelUp s) s) ^^ k) s)
    \<and> sint (programNumber (((\<lambda>s. after (channelUp s) s) ^^ k) s)) =
        (sint (programNumber s) + int k) mod program_count s
    \<and> sint (programNumber (after (channelDown (after (channelUp s) s)) (after (channelUp s) s))) = sint (programNumber s)
    \<and> sint (programNumber (after (channelUp (after (channelDown s) s)) (after (channelDown s) s))) = sint (programNumber s)
    \<and> (\<forall>q \<ge> 0. q < program_count s \<longrightarrow>
        (\<exists>k. int k < program_count s \<and> sint (programNumber (((\<lambda>s. after (channelUp s) s) ^^ k) s)) = q))"
proof -
  obtain p q where "channelUp s = Inr (SC_NO_ERROR, moved_to p s)" "channelDown s = Inr (SC_NO_ERROR, moved_to q s)"
    using channelUp_moves [OF assms] channelDown_moves [OF assms] by blast
  then have "no_fault (channelUp s)" "no_fault (channelDown s)"
    "changeChannelFlag (after (channelUp s) s)" "changeChannelFlag (after (channelDown s) s)"
    by (simp_all add: moved_to_def)
  then show ?thesis
    using channels.up_iter [OF assms] channels.down_up [OF assms] channels.up_down [OF assms]
      channels.reaches [OF assms]
    by blast
qed

text \<open>A platform on which every call succeeds and hands out handle 1, and the state at start.\<close>

definition ideal_platform :: "(nat, unit) platform" where
  "ideal_platform = \<lparr>respond = (\<lambda>_ _. (False, Some 1, ())), print_u64 = (\<lambda>w. show_nat (unat w)), dvb_t = 0\<rparr>"

definition initial_state :: "'m \<Rightarrow> 'd \<Rightarrow> 'a \<Rightarrow> ('m, 'd, 'a) sc_state" where
  "initial_state m d a = \<lparr>patTable = Null, pmtTable = Null, tdtTable = Null, totTable = Null,
     statusMutex = False, playerHandle = 0, sourceHandle = 0, streamHandleA = 0, streamHandleV = 0,
     filterHandle = 0, threadExit = 0, changeChannelFlag = False, programNumber = 0,
     currentChannel = \<lparr>channel_programNumber = 0, channel_audioPid = 0, channel_videoPid = 0\<rparr>,
     isInitialized = False, timeTablesRecieved = False, dateRecievedCallback = None,
     volumeReportCallback = None,
     configFile = \<lparr>tuneFrequency = 0, tuneBandwidth = 0, info_programNumber = 0, tuneModule = m\<rparr>,
     currentDate = \<lparr>date_Year = 0, date_tmpMonth = 0, date_day = 0\<rparr>,
     sc_currentVolume = 5, client = a, calls = [], device = d\<rparr>"

definition example_pat :: PatTable where
  "example_pat = zero_PatTable\<lparr>serviceInfoCount := 4,
     patServiceInfoArray := [\<lparr>pat_programNumber = 0, pat_pid = 16\<rparr>, \<lparr>pat_programNumber = 5, pat_pid = 256\<rparr>,
       \<lparr>pat_programNumber = 6, pat_pid = 512\<rparr>, \<lparr>pat_programNumber = 7, pat_pid = 768\<rparr>]
       @ replicate 16 \<lparr>pat_programNumber = 0, pat_pid = 0\<rparr>\<rparr>"

lemma wf_example_pat: "wf_pat example_pat"
  by (simp add: wf_pat_def example_pat_def TABLES_MAX_NUMBER_OF_PIDS_IN_PAT_def)

theorem channel_keys_ring_witness:
  "sint (programNumber (((\<lambda>s. after (channelUp s) s) ^^ 5)
     ((initial_state (0 :: nat) () ())\<lparr>patTable := Ptr example_pat\<rparr>))) = 2"
proof -
  let ?s = "(initial_state (0 :: nat) () ())\<lparr>patTable := Ptr example_pat\<rparr>"
  have ok: "channel_ok ?s"
    by (simp add: channel_ok_def wf_example_pat) (simp add: initial_state_def example_pat_def)
  have "program_count ?s = 3" by (simp add: program_count_def example_pat_def)
  then show ?thesis
    using channel_keys_ring [OF ok, of 5] by (simp add: initial_state_def)
qed



subsection \<open>A dialled channel\<close>

text \<open>
  C31. \<open>changeChannelKey\<close> with a well-formed PAT of \<open>n\<close> services: a number outside 0 to \<open>n - 1\<close>
  changes nothing and makes no call. A number from 0 to \<open>n - 1\<close> frees the filter and sets it
  to the PID of the service one behind, with table id 2: for \<open>n - 1\<close> that is the slot after
  the last service, and with 20 services dialling 19 reads past the end of the array.
\<close>

theorem changeChannelKey_selects:
  assumes "patTable s = Ptr pat" and "wf_pat pat"
  shows "(ch < 0 \<or> int (unat (serviceInfoCount pat)) \<le> ch \<longrightarrow> changeChannelKey_begin plat ch s = Inr (Returned, s))
    \<and> (0 \<le> ch \<and> ch < int (unat (serviceInfoCount pat)) \<and> ch < 19 \<longrightarrow>
        (\<exists>pc s'. changeChannelKey_begin plat ch s = Inr (pc, s') \<and> (pc = Pmt_Set ch \<or> pc = Returned)
          \<and> calls s' = calls s @ [Demux_Free_Filter (playerHandle s) (filterHandle s),
               Demux_Set_Filter (playerHandle s) (pat_pid (patServiceInfoArray pat ! nat (ch + 1))) 0x02]))
    \<and> (serviceInfoCount pat = 20 \<and> ch = 19 \<longrightarrow> changeChannelKey_begin plat ch s = Inl Read_Out_Of_Bounds)"
  using assms
  by (auto simp: changeChannelKey_begin_def startChannel_begin_def service_pid_def call_simps array_get_def
      wf_pat_def TABLES_MAX_NUMBER_OF_PIDS_IN_PAT_def Let_def)

theorem changeChannelKey_selects_witness:
  "changeChannelKey_begin ideal_platform 19 ((initial_state 0 () ())\<lparr>patTable := Ptr (example_pat\<lparr>serviceInfoCount := 20\<rparr>)\<rparr>) =
     Inl Read_Out_Of_Bounds
   \<and> (\<exists>pc s'. changeChannelKey_begin ideal_platform 1 ((initial_state 0 () ())\<lparr>patTable := Ptr example_pat\<rparr>) = Inr (pc, s')
      \<and> calls s' = [Demux_Free_Filter 0 0, Demux_Set_Filter 0 512 2])"
proof -
  have wf: "wf_pat (example_pat\<lparr>serviceInfoCount := 20\<rparr>)"
    by (simp add: wf_pat_def example_pat_def TABLES_MAX_NUMBER_OF_PIDS_IN_PAT_def)
  let ?s = "(initial_state (0 :: nat) () ())\<lparr>patTable := Ptr example_pat\<rparr>"
  show ?thesis
    using changeChannelKey_selects [OF _ wf, of "?s\<lparr>patTable := Ptr (example_pat\<lparr>serviceInfoCount := 20\<rparr>)\<rparr>" 19 ideal_platform]
      changeChannelKey_selects [OF _ wf_example_pat, of ?s 1 ideal_platform]
    by (auto simp: initial_state_def example_pat_def)
qed

subsection \<open>The choice of the PIDs\<close>

definition first_pid :: "(u8 \<Rightarrow> bool) \<Rightarrow> PmtElementaryInfo list \<Rightarrow> i16" where
  "first_pid P es = (case find (\<lambda>e. P (streamType e)) es of None \<Rightarrow> -1 | Some e \<Rightarrow> elementaryPid e)"

lemma first_pid_simps [simp]:
  "first_pid P [] = -1"
  "first_pid P (e # es) = (if P (streamType e) then elementaryPid e else first_pid P es)"
  by (simp_all add: first_pid_def)

lemma pid_not_minus1: "unat (p :: u16) < 8192 \<Longrightarrow> p \<noteq> -1"
  by (auto simp: unsigned_minus_1_eq_mask mask_eq_exp_minus_1)

lemma video_not_audio: "is_video_type t \<Longrightarrow> \<not> is_audio_type t"
  by (auto simp: is_video_type_def is_audio_type_def)

definition pmt_pids_ok :: "PmtTable \<Rightarrow> bool" where
  "pmt_pids_ok pmt \<longleftrightarrow> wf_pmt pmt \<and> list_all (\<lambda>e. unat (elementaryPid e) < 8192) (pmt_streams pmt)"

lemma select_pids_from:
  assumes "pmt_pids_ok pmt" and "unat i \<le> unat (elementaryInfoCount pmt)"
  shows "select_pids pmt i a v =
    Inr (if a = -1 then first_pid is_audio_type (drop (unat i) (pmt_streams pmt)) else a,
         if v = -1 then first_pid is_video_type (drop (unat i) (pmt_streams pmt)) else v)"
  using assms(2)
proof (induction "unat (elementaryInfoCount pmt) - unat i" arbitrary: i a v)
  case 0
  then show ?case
    using assms(1) by (simp add: select_pids.simps [of pmt i] word_less_nat_alt pmt_streams_def)
next
  case (Suc k)
  have lt: "unat i < unat (elementaryInfoCount pmt)" using Suc.hyps by linarith
  then have i: "unat (i + 1) = Suc (unat i)"
    using unat_u8_less [of "elementaryInfoCount pmt"] by (intro unat_Suc_u8) linarith
  have n: "unat (elementaryInfoCount pmt) \<le> length (pmtElementaryInfoArray pmt)"
    using assms(1) by (intro wf_pmt_count) (simp add: pmt_pids_ok_def)
  let ?e = "pmtElementaryInfoArray pmt ! unat i"
  have e: "array_get (pmtElementaryInfoArray pmt) (unat i) = Inr ?e"
    "drop (unat i) (pmt_streams pmt) = ?e # drop (Suc (unat i)) (pmt_streams pmt)"
    using lt n by (simp_all add: pmt_streams_def Cons_nth_drop_Suc [symmetric])
  have "?e \<in> set (pmt_streams pmt)"
    unfolding pmt_streams_def using lt n by (metis in_set_conv_nth length_take min.absorb2 nth_take)
  then have "elementaryPid ?e \<noteq> -1"
    using assms(1) by (intro pid_not_minus1) (auto simp: pmt_pids_ok_def list_all_iff)
  moreover have "select_pids pmt (i + 1) a v =
    Inr (if a = -1 then first_pid is_audio_type (drop (Suc (unat i)) (pmt_streams pmt)) else a,
         if v = -1 then first_pid is_video_type (drop (Suc (unat i)) (pmt_streams pmt)) else v)" for a v
    using Suc.hyps(1) [of "i + 1" a v] Suc.hyps(2) lt by (simp add: i)
  ultimately show ?case
    using lt e video_not_audio [of "streamType ?e"]
    by (auto simp: select_pids.simps [of pmt i] word_less_nat_alt)
qed

lemma select_pids_first:
  "pmt_pids_ok pmt \<Longrightarrow> select_pids pmt 0 (-1) (-1) =
    Inr (first_pid is_audio_type (pmt_streams pmt), first_pid is_video_type (pmt_streams pmt))"
  using select_pids_from [of pmt 0 "-1" "-1"] by simp

subsection \<open>Starting the streams\<close>

text \<open>The calls by which a channel replaces the streams of the previous one.\<close>

definition video_calls :: "i16 \<Rightarrow> ('m, 'd, 'a) sc_state \<Rightarrow> 'm tdp_call list" where
  "video_calls v s =
    (if v = -1 then [Player_Stream_Remove (playerHandle s) (sourceHandle s) (streamHandleV s),
                     MV_PE_ClearScreen (playerHandle s)]
     else (if streamHandleV s = 0 then [] else [Player_Stream_Remove (playerHandle s) (sourceHandle s) (streamHandleV s)])
          @ [Player_Stream_Create (playerHandle s) (sourceHandle s) v VIDEO_TYPE_MPEG2])"

definition audio_calls :: "i16 \<Rightarrow> ('m, 'd, 'a) sc_state \<Rightarrow> 'm tdp_call list" where
  "audio_calls a s =
    (if a = -1 then []
     else (if streamHandleA s = 0 then [] else [Player_Stream_Remove (playerHandle s) (sourceHandle s) (streamHandleA s)])
          @ [Player_Stream_Create (playerHandle s) (sourceHandle s) a AUDIO_TYPE_MPEG_AUDIO])"

definition creates_streams :: "('m, 'd) platform \<Rightarrow> bool" where
  "creates_streams plat \<longleftrightarrow> (\<forall>p s pid k d. \<not> fst (respond plat (Player_Stream_Create p s pid k) d))"

lemma start_video_calls:
  assumes "creates_streams plat"
  shows "\<exists>h d. start_video plat v s = Inr (s\<lparr>streamHandleV := h, calls := calls s @ video_calls v s, device := d\<rparr>)"
  using assms
  by (cases s) (auto simp: start_video_def create_stream_failed_def call_simps Let_def video_calls_def creates_streams_def)

lemma start_audio_calls:
  assumes "creates_streams plat"
  shows "\<exists>h d. start_audio plat a s = Inr (s\<lparr>streamHandleA := h, calls := calls s @ audio_calls a s, device := d\<rparr>)"
proof (cases "a = -1")
  case True
  then have "start_audio plat a s = Inr (s\<lparr>streamHandleA := streamHandleA s, calls := calls s @ audio_calls a s, device := device s\<rparr>)"
    by (simp add: start_audio_def audio_calls_def)
  then show ?thesis by blast
next
  case False
  then show ?thesis
    using assms
    by (cases s) (auto simp: start_audio_def create_stream_failed_def call_simps Let_def audio_calls_def creates_streams_def)
qed

text \<open>
  C15. What \<open>startChannel\<close> does once the PMT has arrived, on a player that creates the
  streams it is asked for: the current channel is the program with the PIDs of the first
  video and the first audio stream of the PMT, -1 where there is none. The previous video
  stream is removed before the new one is created, or the screen is cleared; the previous audio
  stream is removed only if the new channel has audio. No table changes.
\<close>

theorem startChannel_switches_streams:
  assumes "pmtTable s = Ptr pmt" and "pmt_pids_ok pmt" and "creates_streams plat" and "timeTablesRecieved s"
  defines "a \<equiv> first_pid is_audio_type (pmt_streams pmt)" and "v \<equiv> first_pid is_video_type (pmt_streams pmt)"
  shows "\<exists>hv ha d. startChannel_pmt plat ch False s = Inr (Returned,
     s\<lparr>streamHandleV := hv, streamHandleA := ha,
       calls := calls s @ video_calls v s @ audio_calls a s, device := d,
       currentChannel := \<lparr>channel_programNumber = of_int (ch + 1), channel_audioPid = a, channel_videoPid = v\<rparr>\<rparr>)"
proof -
  obtain hv d1 where v: "start_video plat v s =
      Inr (s\<lparr>streamHandleV := hv, calls := calls s @ video_calls v s, device := d1\<rparr>)" (is "_ = Inr ?s1")
    using start_video_calls [OF assms(3)] by blast
  obtain ha d2 where "start_audio plat a ?s1 =
      Inr (?s1\<lparr>streamHandleA := ha, calls := calls ?s1 @ audio_calls a ?s1, device := d2\<rparr>)"
    using start_audio_calls [OF assms(3)] by blast
  moreover have "audio_calls a ?s1 = audio_calls a s" by (simp add: audio_calls_def)
  ultimately show ?thesis
    using v assms(1,4) select_pids_first [OF assms(2)]
    by (intro exI [of _ hv] exI [of _ ha] exI [of _ d2])
      (simp add: startChannel_pmt_def wait_over_def a_def v_def)
qed

definition example_pmt :: PmtTable where
  "example_pmt = zero_PmtTable\<lparr>elementaryInfoCount := 3,
     pmtElementaryInfoArray := [\<lparr>streamType = 4, elementaryPid = 101, esInfoLength = 0\<rparr>,
       \<lparr>streamType = 2, elementaryPid = 100, esInfoLength = 0\<rparr>, \<lparr>streamType = 3, elementaryPid = 102, esInfoLength = 0\<rparr>]
       @ drop 3 (pmtElementaryInfoArray zero_PmtTable)\<rparr>"

lemma example_pmt_ok: "pmt_pids_ok example_pmt" "pmt_streams example_pmt =
    [\<lparr>streamType = 4, elementaryPid = 101, esInfoLength = 0\<rparr>,
     \<lparr>streamType = 2, elementaryPid = 100, esInfoLength = 0\<rparr>, \<lparr>streamType = 3, elementaryPid = 102, esInfoLength = 0\<rparr>]"
  by (simp_all add: pmt_pids_ok_def wf_pmt_def example_pmt_def pmt_streams_def zero_PmtTable_def
      TABLES_MAX_NUMBER_OF_ELEMENTARY_PID_def)

theorem startChannel_switches_streams_witness:
  "\<exists>s'. startChannel_pmt ideal_platform 1 False ((initial_state (0 :: nat) () ())
      \<lparr>pmtTable := Ptr example_pmt, timeTablesRecieved := True, streamHandleV := 9\<rparr>) = Inr (Returned, s')
    \<and> currentChannel s' = \<lparr>channel_programNumber = 2, channel_audioPid = 101, channel_videoPid = 100\<rparr>
    \<and> calls s' = [Player_Stream_Remove 0 0 9, Player_Stream_Create 0 0 100 VIDEO_TYPE_MPEG2,
        Player_Stream_Create 0 0 101 AUDIO_TYPE_MPEG_AUDIO]"
proof -
  have c: "creates_streams ideal_platform" by (simp add: creates_streams_def ideal_platform_def)
  show ?thesis
    using startChannel_switches_streams [OF _ example_pmt_ok(1) c, of "(initial_state (0 :: nat) () ())
      \<lparr>pmtTable := Ptr example_pmt, timeTablesRecieved := True, streamHandleV := 9\<rparr>" 1]
    by (auto simp: example_pmt_ok(2) is_video_type_def is_audio_type_def video_calls_def audio_calls_def
        initial_state_def)
qed

subsection \<open>The volume\<close>

lemma volume_u32: "(w :: u32) > 10 \<longleftrightarrow> 10 < unat w" "(w :: u32) > 0 \<longleftrightarrow> 0 < unat w"
  by (simp_all add: word_less_nat_alt)

lemma unat_volume_product: "unat (w :: u32) \<le> 10 \<Longrightarrow> unat (w * volumeConstant) = unat w * 160400000"
  by (simp add: unat_word_ariths volumeConstant_def)

text \<open>What a volume key leaves behind: the level, the value handed to the player, the report.\<close>

definition volume_set ::
  "('m, 'd) platform \<Rightarrow> nat \<Rightarrow> (u8 \<Rightarrow> 'a \<Rightarrow> 'a) \<Rightarrow> ('m, 'd, 'a) sc_state \<Rightarrow> ('m, 'd, 'a) sc_state" where
  "volume_set plat n f s = s\<lparr>sc_currentVolume := of_nat n,
     calls := calls s @ [Player_Volume_Set (playerHandle s) (of_nat (n * 160400000))],
     device := snd (snd (respond plat (Player_Volume_Set (playerHandle s) (of_nat (n * 160400000))) (device s))),
     client := f (ucast (of_nat n :: u32)) (client s)\<rparr>"

lemma u32_of_nat_volume:
  "unat (w :: u32) = n \<Longrightarrow> w = of_nat n \<and> w * volumeConstant = of_nat (n * 160400000)"
  by (auto simp: volumeConstant_def)

lemma report_volume_set:
  assumes "unat w = n" and "volumeReportCallback s = Some f"
  shows "report_volume (call_void plat (Player_Volume_Set (playerHandle s) (w * volumeConstant)) (s\<lparr>sc_currentVolume := w\<rparr>)) =
    Inr (volume_set plat n f s)"
proof -
  have "w * volumeConstant = of_nat (n * 160400000)" and "w = of_nat n"
    using u32_of_nat_volume [OF assms(1)] by blast+
  then show ?thesis
    unfolding \<open>w * volumeConstant = of_nat (n * 160400000)\<close>
    using assms(2) by (simp add: report_volume_def call_simps volume_set_def)
qed

lemma volumeUp_sets:
  assumes "unat (sc_currentVolume s) \<le> 10" and "volumeReportCallback s = Some f"
  shows "volumeUp plat s = Inr (volume_set plat (min 10 (unat (sc_currentVolume s) + 1)) f s)"
proof -
  let ?v = "sc_currentVolume s"
  define w where "w = (if ?v + 1 > 10 then 10 else ?v + 1)"
  have up: "unat (?v + 1) = unat ?v + 1" using assms(1) by (simp add: unat_word_ariths)
  have "unat w = min 10 (unat ?v + 1)" by (simp add: w_def volume_u32 up)
  moreover have "volumeUp plat s = report_volume
      (call_void plat (Player_Volume_Set (playerHandle s) (w * volumeConstant)) (s\<lparr>sc_currentVolume := w\<rparr>))"
    by (simp add: volumeUp_def Let_def w_def)
  ultimately show ?thesis using report_volume_set [OF _ assms(2)] by simp
qed

lemma volumeDown_sets:
  assumes "unat (sc_currentVolume s) \<le> 10" and "volumeReportCallback s = Some f"
  shows "volumeDown plat s = Inr (volume_set plat (unat (sc_currentVolume s) - 1) f s)"
proof -
  let ?v = "sc_currentVolume s"
  define w where "w = (if ?v > 0 then ?v - 1 else ?v)"
  have "unat w = unat ?v - 1"
    by (cases "?v = 0") (simp_all add: w_def volume_u32 unat_minus_one unat_gt_0)
  moreover have "(if ?v > 0 then s\<lparr>sc_currentVolume := ?v - 1\<rparr> else s) = s\<lparr>sc_currentVolume := w\<rparr>"
    by (simp add: w_def)
  then have "volumeDown plat s = report_volume
      (call_void plat (Player_Volume_Set (playerHandle s) (w * volumeConstant)) (s\<lparr>sc_currentVolume := w\<rparr>))"
    by (simp only: volumeDown_def Let_def) simp
  ultimately show ?thesis using report_volume_set [OF _ assms(2)] by simp
qed

text \<open>
  C22. The volume keys, from a level of at most 10 and with a callback registered: V+ goes up by
  one and stops at 10, V- goes down by one and stops at 0; the player is given exactly
  level times 160400000, which does not wrap around in 32 bits, and the callback is given the
  level. Mute gives the player 0 and calls nobody. The level stays at most 10.
\<close>

theorem volume_keys:
  assumes "unat (sc_currentVolume s) \<le> 10" and "volumeReportCallback s = Some f"
  shows "\<exists>up down. volumeUp plat s = Inr up \<and> volumeDown plat s = Inr down
    \<and> unat (sc_currentVolume up) = min 10 (unat (sc_currentVolume s) + 1)
    \<and> unat (sc_currentVolume down) = unat (sc_currentVolume s) - 1
    \<and> client up = f (ucast (sc_currentVolume up)) (client s)
    \<and> client down = f (ucast (sc_currentVolume down)) (client s)
    \<and> (\<exists>w. calls up = calls s @ [Player_Volume_Set (playerHandle s) w] \<and> unat w = unat (sc_currentVolume up) * 160400000)
    \<and> (\<exists>w. calls down = calls s @ [Player_Volume_Set (playerHandle s) w] \<and> unat w = unat (sc_currentVolume down) * 160400000)
    \<and> sc_currentVolume (volumeMute plat s) = 0 \<and> client (volumeMute plat s) = client s
    \<and> calls (volumeMute plat s) = calls s @ [Player_Volume_Set (playerHandle s) 0]"
proof -
  have n: "unat (of_nat n :: u32) = n" "unat (of_nat (n * 160400000) :: u32) = n * 160400000" if "n \<le> 10" for n
    using that by (intro unat_of_nat_u32; simp)+
  show ?thesis
    unfolding volumeUp_sets [OF assms] volumeDown_sets [OF assms]
    using assms(1) n [of "min 10 (unat (sc_currentVolume s) + 1)"] n [of "unat (sc_currentVolume s) - 1"]
    by (auto simp: volume_set_def volumeMute_def call_simps simp del: of_nat_mult of_nat_diff of_nat_add)
qed

theorem volume_keys_witness:
  "\<exists>up. volumeUp ideal_platform ((initial_state (0 :: nat) () (5 :: u8))\<lparr>volumeReportCallback := Some (\<lambda>v _. v)\<rparr>) = Inr up
     \<and> client up = 6 \<and> calls up = [Player_Volume_Set 0 962400000]"
proof -
  let ?s = "(initial_state (0 :: nat) () (5 :: u8))\<lparr>volumeReportCallback := Some (\<lambda>v _. v)\<rparr>"
  have s: "unat (sc_currentVolume ?s) \<le> 10" "volumeReportCallback ?s = Some (\<lambda>v _. v)"
    by (simp_all add: initial_state_def)
  have "sc_currentVolume ?s = 5" "calls ?s = []" "playerHandle ?s = 0" by (simp_all add: initial_state_def)
  then obtain up w where "volumeUp ideal_platform ?s = Inr up" "client up = ucast (sc_currentVolume up)"
    "unat (sc_currentVolume up) = 6" "calls up = [Player_Volume_Set 0 w]" "unat w = 962400000"
    using volume_keys [OF s, of ideal_platform] by auto
  moreover have "w = 962400000" by (rule word_unat_eq_iff [THEN iffD2]) (simp add: calculation(5))
  moreover have "sc_currentVolume up = 6" by (rule word_unat_eq_iff [THEN iffD2]) (simp add: calculation(3))
  ultimately show ?thesis by simp
qed

end
