(* ===== verification/Stream_Lifecycle.thy ===== *)
theory Stream_Lifecycle
  imports Stream_Channel
begin

section \<open>Bringing the stream controller up and down\<close>

text \<open>
  The controller thread up to its loop with every error path, deinitialisation, and the
  callback that receives sections: which calls are made, which tables are allocated or
  freed, what is left behind.
\<close>

definition tables_live :: "('m, 'd, 'a) sc_state \<Rightarrow> bool" where
  "tables_live s \<longleftrightarrow> (\<exists>pat pmt tdt tot. patTable s = Ptr pat \<and> pmtTable s = Ptr pmt \<and> tdtTable s = Ptr tdt
     \<and> totTable s = Ptr tot)"

definition tables_freed :: "('m, 'd, 'a) sc_state \<Rightarrow> bool" where
  "tables_freed s \<longleftrightarrow> patTable s = Freed \<and> pmtTable s = Freed \<and> tdtTable s = Freed \<and> totTable s = Freed"

lemma free_tables_live:
  "tables_live s \<Longrightarrow> free_tables s = Inr (s\<lparr>patTable := Freed, pmtTable := Freed, tdtTable := Freed, totTable := Freed\<rparr>)"
  by (auto simp: tables_live_def free_tables_def)

lemma free_tables_freed: "tables_freed s \<Longrightarrow> free_tables s = Inl Dangling_Pointer"
  by (simp add: tables_freed_def free_tables_def)

text \<open>How the failure of one call is put: the platform's answer in the state it is made in.\<close>

definition mallocs_succeed :: "('m, 'd) platform \<Rightarrow> bool" where
  "mallocs_succeed plat \<longleftrightarrow> (\<forall>d. \<not> fst (respond plat Malloc d))"

lemma free_and_return_live:
  assumes "tables_live s"
  shows "\<exists>s'. free_and_return plat cs s = Inr (Task_Returned SC_ERROR, s') \<and> tables_freed s'
    \<and> calls s' = calls s @ cs \<and> statusMutex s' = statusMutex s \<and> isInitialized s' = isInitialized s"
proof -
  have "calls (fold (call_void plat) cs s) = calls s @ cs \<and> patTable (fold (call_void plat) cs s) = patTable s
    \<and> pmtTable (fold (call_void plat) cs s) = pmtTable s \<and> tdtTable (fold (call_void plat) cs s) = tdtTable s
    \<and> totTable (fold (call_void plat) cs s) = totTable s \<and> statusMutex (fold (call_void plat) cs s) = statusMutex s
    \<and> isInitialized (fold (call_void plat) cs s) = isInitialized s" for s :: "('a, 'b, 'c) sc_state"
    by (induction cs arbitrary: s) (simp_all add: call_simps)
  then show ?thesis
    using free_tables_live [OF assms] by (simp add: free_and_return_def tables_freed_def)
qed

lemma task_tuner_ends:
  assumes "tables_live s"
  shows "\<exists>pc s'. task_tuner plat s = Inr (pc, s') \<and> isInitialized s' = isInitialized s
    \<and> (let lock = Tuner_Lock_To_Frequency (tuneFrequency (configFile s)) (tuneBandwidth (configFile s))
                    (tuneModule (configFile s)) in
       pc = Status_Lock \<and> tables_live s' \<and> calls s' = calls s @ [Tuner_Init, Tuner_Register_Status_Callback, lock]
     \<or> pc = Task_Returned SC_ERROR \<and> tables_freed s' \<and> calls s' = calls s @ [Tuner_Init]
     \<or> pc = Task_Returned SC_ERROR \<and> tables_freed s'
       \<and> calls s' = calls s @ [Tuner_Init, Tuner_Register_Status_Callback, lock, Tuner_Deinit])"
proof -
  define lock where "lock = Tuner_Lock_To_Frequency (tuneFrequency (configFile s)) (tuneBandwidth (configFile s))
    (tuneModule (configFile s))"
  define r1 where "r1 = respond plat Tuner_Init (device s)"
  define s1 where "s1 = s\<lparr>calls := calls s @ [Tuner_Init], device := snd (snd r1)\<rparr>"
  define s2 where "s2 = call_void plat Tuner_Register_Status_Callback s1"
  define r3 where "r3 = respond plat lock (device s2)"
  define s3 where "s3 = s2\<lparr>calls := calls s2 @ [lock], device := snd (snd r3)\<rparr>"
  have live: "tables_live s1" "tables_live s3"
    using assms by (simp_all add: tables_live_def s1_def s2_def s3_def call_simps)
  have st: "task_tuner plat s = (if fst r1 then free_and_return plat [] s1
      else if fst r3 then free_and_return plat [Tuner_Deinit] s3 else Inr (Status_Lock, s3))"
    by (simp add: task_tuner_def call_out_eq r1_def r3_def s1_def s2_def s3_def lock_def call_void_eq Let_def)
  have c: "calls s1 = calls s @ [Tuner_Init]" "isInitialized s1 = isInitialized s" "isInitialized s3 = isInitialized s"
    "calls s3 = calls s @ [Tuner_Init, Tuner_Register_Status_Callback, lock]"
    by (simp_all add: s1_def s2_def s3_def call_simps)
  show ?thesis
    unfolding lock_def [symmetric] Let_def
    using st c live free_and_return_live [OF live(1), of plat "[]"]
      free_and_return_live [OF live(2), of plat "[Tuner_Deinit]"]
    by (cases "fst r1"; cases "fst r3") auto
qed

text \<open>The state with the four tables allocated and zeroed.\<close>

definition allocated :: "('m, 'd) platform \<Rightarrow> ('m, 'd, 'a) sc_state \<Rightarrow> ('m, 'd, 'a) sc_state" where
  "allocated plat s = s\<lparr>calls := calls s @ replicate 4 Malloc,
    device := ((\<lambda>d. snd (snd (respond plat Malloc d))) ^^ 4) (device s),
    patTable := Ptr zero_PatTable, pmtTable := Ptr zero_PmtTable, tdtTable := Ptr zero_TdtTable,
    totTable := Ptr zero_TotTable\<rparr>"

lemma task_begin_allocates:
  "mallocs_succeed plat \<Longrightarrow> streamControllerTask_begin plat s = task_tuner plat (allocated plat s)"
  by (cases s) (simp add: streamControllerTask_begin_def alloc_zeroed_def call_simps mallocs_succeed_def
      allocated_def Let_def numeral_eq_Suc)

text \<open>
  The controller thread up to its wait for the tuner, if memory can be allocated: it
  reaches the wait with the four tables allocated, or it returns \<open>SC_ERROR\<close> with all of them
  freed. The tuner is deinitialised exactly if it had been initialised. Nothing faults.
\<close>

theorem streamControllerTask_begin_ends:
  assumes "mallocs_succeed plat"
  shows "\<exists>pc s'. streamControllerTask_begin plat s = Inr (pc, s') \<and> isInitialized s' = isInitialized s
    \<and> (let lock = Tuner_Lock_To_Frequency (tuneFrequency (configFile s)) (tuneBandwidth (configFile s))
                    (tuneModule (configFile s)) in
       pc = Status_Lock \<and> tables_live s'
         \<and> calls s' = calls s @ replicate 4 Malloc @ [Tuner_Init, Tuner_Register_Status_Callback, lock]
     \<or> pc = Task_Returned SC_ERROR \<and> tables_freed s' \<and> calls s' = calls s @ replicate 4 Malloc @ [Tuner_Init]
     \<or> pc = Task_Returned SC_ERROR \<and> tables_freed s'
       \<and> calls s' = calls s @ replicate 4 Malloc @ [Tuner_Init, Tuner_Register_Status_Callback, lock, Tuner_Deinit])"
  using task_tuner_ends [of "allocated plat s" plat]
  by (simp add: task_begin_allocates [OF assms] allocated_def tables_live_def)

theorem streamControllerTask_begin_ends_witness:
  "mallocs_succeed ideal_platform
   \<and> (\<exists>pc s'. streamControllerTask_begin ideal_platform (initial_state 0 () ()) = Inr (pc, s')
       \<and> (tables_live s' \<or> tables_freed s'))"
proof -
  have m: "mallocs_succeed ideal_platform" by (simp add: mallocs_succeed_def ideal_platform_def)
  show ?thesis
    using streamControllerTask_begin_ends [OF m, of "initial_state 0 () ()"] m by (fastforce simp: Let_def)
qed

text \<open>
  A failing allocation is not undone: if the third \<open>malloc\<close> fails after two that
  succeeded, the thread returns \<open>SC_ERROR\<close> and leaves the PAT and the PMT allocated.
\<close>

theorem streamControllerTask_malloc_leak:
  assumes "respond plat Malloc (device s) = (False, h1, d1)" and "respond plat Malloc d1 = (False, h2, d2)"
    and "respond plat Malloc d2 = (True, h3, d3)"
  shows "\<exists>s'. streamControllerTask_begin plat s = Inr (Task_Returned SC_ERROR, s')
    \<and> patTable s' = Ptr zero_PatTable \<and> pmtTable s' = Ptr zero_PmtTable \<and> tdtTable s' = Null"
  using assms by (simp add: streamControllerTask_begin_def alloc_zeroed_def call_simps)

theorem streamControllerTask_malloc_leak_witness:
  "\<exists>s'. streamControllerTask_begin
       \<lparr>respond = (\<lambda>_ n. (n = 2, None, n + 1)), print_u64 = (\<lambda>w. show_nat (unat w)), dvb_t = (0 :: nat)\<rparr>
       (initial_state 0 (0 :: nat) ()) = Inr (Task_Returned SC_ERROR, s')
     \<and> patTable s' = Ptr zero_PatTable \<and> pmtTable s' = Ptr zero_PmtTable \<and> tdtTable s' = Null"
  using streamControllerTask_malloc_leak
    [of "\<lparr>respond = (\<lambda>_ n. (n = 2, None, n + 1)), print_u64 = (\<lambda>w. show_nat (unat w)), dvb_t = (0 :: nat)\<rparr>"
      "initial_state 0 (0 :: nat) ()" None 1 None 2 None 3]
  by (simp add: initial_state_def)

subsection \<open>Behind the wait for the tuner\<close>

lemma live_updates [simp]:
  "tables_live (s\<lparr>calls := c\<rparr>) = tables_live s" "tables_live (s\<lparr>device := d\<rparr>) = tables_live s"
  "tables_live (s\<lparr>statusMutex := b\<rparr>) = tables_live s" "tables_live (s\<lparr>playerHandle := h\<rparr>) = tables_live s"
  "tables_live (s\<lparr>sourceHandle := h\<rparr>) = tables_live s" "tables_live (s\<lparr>filterHandle := h\<rparr>) = tables_live s"
  by (simp_all add: tables_live_def)

text \<open>Behind the wait, when the tuner has reported its lock in time.\<close>

lemma status_locked_ends:
  assumes "tables_live s"
  shows "\<exists>pc s'. streamControllerTask_status plat False s = Inr (pc, s') \<and> \<not> statusMutex s'
    \<and> (\<exists>h. pc = Task_Returned SC_ERROR \<and> tables_freed s' \<and> calls s' = calls s @ [Player_Init, Tuner_Deinit]
       \<or> pc = Task_Returned SC_ERROR \<and> tables_freed s'
         \<and> calls s' = calls s @ [Player_Init, Player_Source_Open h, Player_Deinit h, Tuner_Deinit]
       \<or> pc = Pat_Set \<and> tables_live s' \<and> playerHandle s' = h
         \<and> calls s' = calls s @ [Player_Init, Player_Source_Open h, Demux_Set_Filter h 0 0,
              Demux_Register_Section_Filter_Callback])"
proof -
  define r1 where "r1 = respond plat Player_Init (device s)"
  define h where "h = stored_handle (fst (snd r1)) (playerHandle s)"
  define s1 where "s1 = s\<lparr>statusMutex := False, calls := calls s @ [Player_Init], device := snd (snd r1), playerHandle := h\<rparr>"
  define r2 where "r2 = respond plat (Player_Source_Open h) (device s1)"
  define s2 where "s2 = s1\<lparr>calls := calls s1 @ [Player_Source_Open h], device := snd (snd r2),
    sourceHandle := stored_handle (fst (snd r2)) (sourceHandle s1)\<rparr>"
  have live: "tables_live s1" "tables_live s2" using assms by (simp_all add: s1_def s2_def)
  have st: "streamControllerTask_status plat False s =
    (if fst r1 then free_and_return plat [Tuner_Deinit] s1
     else if fst r2 then free_and_return plat [Player_Deinit h, Tuner_Deinit] s2
     else case call_out plat (Demux_Set_Filter h 0 0) s2 of (_, out, s) \<Rightarrow>
       Inr (Pat_Set, call_void plat Demux_Register_Section_Filter_Callback
              (s\<lparr>filterHandle := stored_handle out (filterHandle s)\<rparr>)))"
    by (simp add: streamControllerTask_status_def call_simps Let_def r1_def r2_def s1_def s2_def h_def)
  obtain e1 where e1: "free_and_return plat [Tuner_Deinit] s1 = Inr (Task_Returned SC_ERROR, e1)"
    "tables_freed e1" "calls e1 = calls s @ [Player_Init, Tuner_Deinit]" "\<not> statusMutex e1"
    using free_and_return_live [OF live(1), of plat "[Tuner_Deinit]"] by (auto simp: s1_def)
  obtain e2 where e2: "free_and_return plat [Player_Deinit h, Tuner_Deinit] s2 = Inr (Task_Returned SC_ERROR, e2)"
    "tables_freed e2" "calls e2 = calls s @ [Player_Init, Player_Source_Open h, Player_Deinit h, Tuner_Deinit]"
    "\<not> statusMutex e2"
    using free_and_return_live [OF live(2), of plat "[Player_Deinit h, Tuner_Deinit]"] by (auto simp: s1_def s2_def)
  consider "fst r1" | "\<not> fst r1" "fst r2" | "\<not> fst r1" "\<not> fst r2" by blast
  then show ?thesis
  proof cases
    case 1
    then show ?thesis using e1 by (intro exI [of _ "Task_Returned SC_ERROR"] exI [of _ e1]) (auto simp: st)
  next
    case 2
    then show ?thesis using e2 by (intro exI [of _ "Task_Returned SC_ERROR"] exI [of _ e2]) (auto simp: st)
  next
    case 3
    then show ?thesis using live(2) by (simp add: st call_simps) (auto simp: s1_def s2_def)
  qed
qed

text \<open>
  C24. The controller thread behind its wait for the tuner. After a timeout, or if the player
  or its source cannot be opened, it returns \<open>SC_ERROR\<close> with all tables freed and with what
  had been initialised deinitialised, the player before the tuner. A timeout
  leaves the status mutex locked, so that a later report of the tuner that it has
  locked blocks; on the other paths it is free. Otherwise the thread goes on to wait for the PAT.
\<close>

theorem streamControllerTask_status_ends:
  assumes "tables_live s"
  shows "\<exists>pc s'. streamControllerTask_status plat timed_out s = Inr (pc, s')
    \<and> (timed_out \<longleftrightarrow> statusMutex s') \<and> (timed_out \<longleftrightarrow> tunerStatusCallback True s' = None)
    \<and> (\<exists>h. pc = Task_Returned SC_ERROR \<and> tables_freed s'
         \<and> calls s' = calls s @ (if timed_out then [] else [Player_Init]) @ [Tuner_Deinit]
       \<or> pc = Task_Returned SC_ERROR \<and> tables_freed s' \<and> \<not> timed_out
         \<and> calls s' = calls s @ [Player_Init, Player_Source_Open h, Player_Deinit h, Tuner_Deinit]
       \<or> pc = Pat_Set \<and> tables_live s' \<and> \<not> timed_out \<and> playerHandle s' = h
         \<and> calls s' = calls s @ [Player_Init, Player_Source_Open h, Demux_Set_Filter h 0 0,
              Demux_Register_Section_Filter_Callback])"
proof (cases timed_out)
  case True
  obtain s' where "free_and_return plat [Tuner_Deinit] (s\<lparr>statusMutex := True\<rparr>) = Inr (Task_Returned SC_ERROR, s')"
    "tables_freed s'" "calls s' = calls s @ [Tuner_Deinit]" "statusMutex s'"
    using free_and_return_live [of "s\<lparr>statusMutex := True\<rparr>" plat "[Tuner_Deinit]"] assms by auto
  then show ?thesis
    using True by (simp add: streamControllerTask_status_def tunerStatusCallback_def)
next
  case False
  then show ?thesis using status_locked_ends [OF assms, of plat] by (fastforce simp: tunerStatusCallback_def)
qed

theorem streamControllerTask_status_ends_witness:
  "\<exists>pc s'. streamControllerTask_status ideal_platform True ((initial_state 0 () ())
      \<lparr>patTable := Ptr zero_PatTable, pmtTable := Ptr zero_PmtTable, tdtTable := Ptr zero_TdtTable,
       totTable := Ptr zero_TotTable\<rparr>) = Inr (pc, s') \<and> statusMutex s' \<and> tunerStatusCallback True s' = None"
proof -
  have "tables_live ((initial_state (0 :: nat) () ())\<lparr>patTable := Ptr zero_PatTable, pmtTable := Ptr zero_PmtTable,
      tdtTable := Ptr zero_TdtTable, totTable := Ptr zero_TotTable\<rparr>)"
    by (simp add: tables_live_def)
  from streamControllerTask_status_ends [OF this, of ideal_platform True] show ?thesis by blast
qed

subsection \<open>Deinitialisation\<close>

lemmas streamControllerDeinit_defs = streamControllerDeinit_def streamControllerDeinit_begin_def streamControllerDeinit_join_def
  streamControllerDeinit_finish_def

lemma streamControllerDeinit_success:
  assumes "isInitialized s" and "tables_live s" and "\<not> fst (respond plat Pthread_Join (device s))"
  shows "\<exists>s'. streamControllerDeinit plat s = Inr (SC_NO_ERROR, s') \<and> tables_freed s' \<and> \<not> isInitialized s'
    \<and> threadExit s' = 1"
proof -
  obtain pat pmt tdt tot where "patTable s = Ptr pat" "pmtTable s = Ptr pmt" "tdtTable s = Ptr tdt" "totTable s = Ptr tot"
    using assms(2) by (auto simp: tables_live_def)
  then show ?thesis
    using assms(1,3)
    by (simp add: streamControllerDeinit_defs call_simps Let_def
        free_tables_def tables_freed_def)
qed

text \<open>
  C23. \<open>streamControllerDeinit\<close> on an initialised controller whose thread can be joined: the
  thread is told to stop, then the filter, the audio and the video stream, the source,
  the player and the tuner are released in this order, all tables are freed. A second
  call is refused without a call to the platform, so nothing is freed twice. If the
  join fails, nothing is released.
\<close>

theorem streamControllerDeinit_releases:
  assumes "isInitialized s" and "tables_live s"
  shows "\<exists>rc s'. streamControllerDeinit plat s = Inr (rc, s') \<and> threadExit s' = 1
    \<and> (rc = SC_THREAD_ERROR \<and> fst (respond plat Pthread_Join (device s)) \<and> tables_live s' \<and> isInitialized s'
         \<and> calls s' = calls s @ [Pthread_Join]
       \<or> rc = SC_NO_ERROR \<and> \<not> fst (respond plat Pthread_Join (device s)) \<and> tables_freed s' \<and> \<not> isInitialized s'
         \<and> calls s' = calls s @ [Pthread_Join, Demux_Free_Filter (playerHandle s) (filterHandle s),
              Player_Stream_Remove (playerHandle s) (sourceHandle s) (streamHandleA s),
              Player_Stream_Remove (playerHandle s) (sourceHandle s) (streamHandleV s),
              Player_Source_Close (playerHandle s) (sourceHandle s), Player_Deinit (playerHandle s), Tuner_Deinit]
         \<and> streamControllerDeinit plat s' = Inr (SC_ERROR, s'))"
proof (cases "fst (respond plat Pthread_Join (device s))")
  case True
  then show ?thesis
    using assms by (simp add: streamControllerDeinit_defs call_simps) (simp add: tables_live_def)
next
  case False
  obtain pat pmt tdt tot where "patTable s = Ptr pat" "pmtTable s = Ptr pmt" "tdtTable s = Ptr tdt" "totTable s = Ptr tot"
    using assms(2) by (auto simp: tables_live_def)
  then show ?thesis
    using assms(1) False
    by (simp add: streamControllerDeinit_defs call_simps Let_def
        free_tables_def tables_freed_def)
qed

theorem streamControllerDeinit_releases_witness:
  "\<exists>s'. streamControllerDeinit ideal_platform ((initial_state 0 () ())\<lparr>isInitialized := True,
      patTable := Ptr zero_PatTable, pmtTable := Ptr zero_PmtTable, tdtTable := Ptr zero_TdtTable,
       totTable := Ptr zero_TotTable\<rparr>) = Inr (SC_NO_ERROR, s') \<and> tables_freed s'"
proof -
  let ?s = "(initial_state (0 :: nat) () ())\<lparr>isInitialized := True, patTable := Ptr zero_PatTable,
     pmtTable := Ptr zero_PmtTable, tdtTable := Ptr zero_TdtTable, totTable := Ptr zero_TotTable\<rparr>"
  have "isInitialized ?s" "tables_live ?s" by (simp_all add: tables_live_def)
  from streamControllerDeinit_releases [OF this, of ideal_platform] show ?thesis
    by (auto simp: ideal_platform_def)
qed

subsection \<open>Received sections\<close>

text \<open>The tables the callback fills, each either live and well formed or not there.\<close>

definition tables_wf :: "('m, 'd, 'a) sc_state \<Rightarrow> bool" where
  "tables_wf s \<longleftrightarrow> (\<exists>pat pmt tdt tot. patTable s = Ptr pat \<and> pmtTable s = Ptr pmt \<and> tdtTable s = Ptr tdt
     \<and> totTable s = Ptr tot \<and> wf_pat pat \<and> wf_pmt pmt \<and> wf_tot tot)"

lemma tables_wf_live: "tables_wf s \<Longrightarrow> tables_live s"
  by (auto simp: tables_wf_def tables_live_def)

text \<open>The header a section of each kind has before its loop of entries.\<close>

definition header_size :: "u8 \<Rightarrow> nat" where
  "header_size tableId = (if tableId = 0x02 then 12 else 8)"

lemma section_pat:
  assumes "tables_wf s" and "whole_section 8 bs" and "bs ! 0 = 0x00"
  shows "\<exists>sig t'. sectionReceivedCallback plat (Some (bs, 0)) s = Inr (sig, s\<lparr>patTable := Ptr t'\<rparr>) \<and> wf_pat t'"
proof -
  obtain t where t: "patTable s = Ptr t" "wf_pat t" using assms(1) by (auto simp: tables_wf_def)
  obtain rc t' where "parsePatTable (Some (bs, 0)) (Some t) = Inr (rc, Some t')" "wf_pat t'"
    using parsePatTable_bytes [OF assms(2) t(2)] by blast
  moreover have "bs \<noteq> []" using assms(2) by (auto simp: whole_section_def)
  ultimately show ?thesis using t assms(3) by (auto simp: sectionReceivedCallback_def)
qed

lemma section_pmt:
  assumes "tables_wf s" and "whole_section 12 bs" and "bs ! 0 = 0x02"
  shows "\<exists>sig t'. sectionReceivedCallback plat (Some (bs, 0)) s = Inr (sig, s\<lparr>pmtTable := Ptr t'\<rparr>) \<and> wf_pmt t'"
proof -
  obtain t where t: "pmtTable s = Ptr t" "wf_pmt t" using assms(1) by (auto simp: tables_wf_def)
  obtain rc t' where "parsePmtTable (Some (bs, 0)) (Some t) = Inr (rc, Some t')" "wf_pmt t'"
    using parsePmtTable_bytes [OF assms(2) t(2)] by blast
  moreover have "bs \<noteq> []" using assms(2) by (auto simp: whole_section_def)
  ultimately show ?thesis using t assms(3) by (auto simp: sectionReceivedCallback_def)
qed

lemma section_tdt:
  assumes "tables_wf s" and "5 \<le> length bs" and "bs ! 0 = 0x70"
  shows "\<exists>t'. sectionReceivedCallback plat (Some (bs, 0)) s = Inr (True, s\<lparr>tdtTable := Ptr t'\<rparr>)"
proof -
  obtain t where t: "tdtTable s = Ptr t" using assms(1) by (auto simp: tables_wf_def)
  have "bs \<noteq> []" using assms(2) by auto
  then show ?thesis
    using t assms(2,3)
    by (auto simp: sectionReceivedCallback_def parseTdtTable_def printTdtTable_def Let_def)
qed

lemma section_tot:
  assumes "tables_wf s" and "bs ! 0 = 0x73" and "bs \<noteq> []"
    and "sectionReceivedCallback plat (Some (bs, 0)) s = Inr (sig, s')"
  shows "\<exists>t'. s' = s\<lparr>totTable := Ptr t'\<rparr> \<and> wf_tot t'"
proof -
  obtain t where t: "totTable s = Ptr t" "wf_tot t" using assms(1) by (auto simp: tables_wf_def)
  obtain rc q where p: "parseTotTable (Some (bs, 0)) (Some t) = Inr (rc, q)" "s' = s\<lparr>totTable := ptr_back q\<rparr>"
    using assms(2-4) t(1) by (auto simp: sectionReceivedCallback_def c_bind_eq_Inr split: if_splits)
  then show ?thesis using parseTotTable_keeps_wf [OF t(2) p(1)] by (metis ptr_simps(8))
qed

text \<open>
  \<open>sectionReceivedCallback\<close>, whatever bytes arrive, with all tables allocated and well
  formed: a PAT, PMT or TDT section that is completely in the buffer is handled without
  a fault; any section that is handled changes only the table its id names, keeps all tables
  well formed, and wakes the waiting thread only for the ids 0x00, 0x02, 0x70 and 0x73.
\<close>

theorem sectionReceivedCallback_safe:
  assumes "tables_wf s" and "bs \<noteq> []"
  shows "(bs ! 0 = 0x00 \<and> whole_section 8 bs \<or> bs ! 0 = 0x02 \<and> whole_section 12 bs \<or> bs ! 0 = 0x70 \<and> 5 \<le> length bs
      \<or> bs ! 0 \<notin> {0x00, 0x02, 0x70, 0x73} \<longrightarrow> no_fault (sectionReceivedCallback plat (Some (bs, 0)) s))
    \<and> (\<forall>sig s'. sectionReceivedCallback plat (Some (bs, 0)) s = Inr (sig, s') \<and>
          (bs ! 0 = 0x00 \<longrightarrow> whole_section 8 bs) \<and> (bs ! 0 = 0x02 \<longrightarrow> whole_section 12 bs) \<and> (bs ! 0 = 0x70 \<longrightarrow> 5 \<le> length bs) \<longrightarrow>
        tables_wf s' \<and> (sig \<longrightarrow> bs ! 0 \<in> {0x00, 0x02, 0x70, 0x73})
        \<and> s' = (if bs ! 0 = 0x00 then s\<lparr>patTable := patTable s'\<rparr> else if bs ! 0 = 0x02 then s\<lparr>pmtTable := pmtTable s'\<rparr>
                else if bs ! 0 = 0x70 then s\<lparr>tdtTable := tdtTable s'\<rparr> else if bs ! 0 = 0x73 then s\<lparr>totTable := totTable s'\<rparr>
                else s))"
proof -
  have other: "sectionReceivedCallback plat (Some (bs, 0)) s = Inr (False, s)" if "bs ! 0 \<notin> {0x00, 0x02, 0x70, 0x73}"
    using that assms(2) by (simp add: sectionReceivedCallback_def)
  consider "bs ! 0 = 0x00" | "bs ! 0 = 0x02" | "bs ! 0 = 0x70" | "bs ! 0 = 0x73" | "bs ! 0 \<notin> {0x00, 0x02, 0x70, 0x73}"
    by blast
  then show ?thesis
  proof cases
    case 1
    then show ?thesis using section_pat [OF assms(1), of bs plat] assms(1) by (auto simp: tables_wf_def)
  next
    case 2
    then show ?thesis using section_pmt [OF assms(1), of bs plat] assms(1) by (auto simp: tables_wf_def)
  next
    case 3
    then show ?thesis using section_tdt [OF assms(1), of bs plat] assms(1) by (auto simp: tables_wf_def)
  next
    case 4
    then show ?thesis using section_tot [OF assms(1) 4 assms(2), of plat] assms(1) by (fastforce simp: tables_wf_def)
  next
    case 5
    then show ?thesis using other assms(1) by auto
  qed
qed

theorem sectionReceivedCallback_safe_witness:
  "no_fault (sectionReceivedCallback ideal_platform (Some (pat_example, 0)) ((initial_state (0 :: nat) () ())
     \<lparr>patTable := Ptr zero_PatTable, pmtTable := Ptr zero_PmtTable, tdtTable := Ptr zero_TdtTable,
      totTable := Ptr zero_TotTable\<rparr>))"
proof -
  let ?s = "(initial_state (0 :: nat) () ())\<lparr>patTable := Ptr zero_PatTable, pmtTable := Ptr zero_PmtTable,
    tdtTable := Ptr zero_TdtTable, totTable := Ptr zero_TotTable\<rparr>"
  have "wf_pat zero_PatTable" by code_simp
  moreover have "wf_pmt zero_PmtTable" by code_simp
  ultimately have wf: "tables_wf ?s" using wf_zero_TotTable by (simp add: tables_wf_def)
  have w: "whole_section 8 pat_example" by code_simp
  have "pat_example \<noteq> []" "pat_example ! 0 = 0x00" by (simp_all add: pat_example_def)
  then show ?thesis using sectionReceivedCallback_safe [OF wf, of pat_example ideal_platform] w by blast
qed

end
