(* ===== verification/Stream_Steps.thy ===== *)
theory Stream_Steps
  imports Stream_Lifecycle
begin

section \<open>The stream controller as a concurrent machine\<close>

text \<open>
  The parts of the stream controller, interleaved: the controller thread, threads that
  start a dialled channel (one per expiry of the key timer), the callbacks of the tuner
  and the demultiplexer, and the keys. A part runs without interruption; \<open>demuxCond\<close> is
  a condition variable: a signal wakes one blocked thread, or nobody, and a blocked thread
  may also wake up for no reason. \<open>pthread_cond_wait\<close> does not time out.
\<close>

subsection \<open>Threads and their waits\<close>

fun enter_wait :: "start_pc \<Rightarrow> start_pc option" where
  "enter_wait (Pmt_Set ch) = Some (Pmt_Wait ch)"
| "enter_wait Tdt_Set = Some Tdt_Wait"
| "enter_wait Tot_Set = Some Tot_Wait"
| "enter_wait _ = None"

fun waiting :: "start_pc \<Rightarrow> bool" where
  "waiting (Pmt_Wait ch) = True"
| "waiting Tdt_Wait = True"
| "waiting Tot_Wait = True"
| "waiting _ = False"

fun task_enter_wait :: "task_pc \<Rightarrow> task_pc option" where
  "task_enter_wait Pat_Set = Some Pat_Wait"
| "task_enter_wait (First_Start pc) = map_option First_Start (enter_wait pc)"
| "task_enter_wait (Loop_Start pc) = map_option Loop_Start (enter_wait pc)"
| "task_enter_wait _ = None"

fun task_waiting :: "task_pc \<Rightarrow> bool" where
  "task_waiting Pat_Wait = True"
| "task_waiting (First_Start pc) = waiting pc"
| "task_waiting (Loop_Start pc) = waiting pc"
| "task_waiting _ = False"

text \<open>The part of the controller thread behind a wait for \<open>demuxCond\<close>.\<close>

fun task_resume ::
  "('m, 'd) platform \<Rightarrow> task_pc \<Rightarrow> ('m, 'd, 'a) sc_state \<Rightarrow> (task_pc \<times> ('m, 'd, 'a) sc_state) c_res" where
  "task_resume plat Pat_Wait s = streamControllerTask_pat plat False s"
| "task_resume plat (First_Start pc) s = c_bind (startChannel_resume plat False pc s) (\<lambda>r. Inr (after_first r))"
| "task_resume plat (Loop_Start pc) s = c_bind (startChannel_resume plat False pc s) (\<lambda>r. Inr (after_loop_start r))"
| "task_resume plat pc s = Inr (pc, s)"

subsection \<open>The machine\<close>

text \<open>Each thread has a flag that says whether it has been woken inside its wait.\<close>

record ('m, 'd, 'a) machine =
  task :: task_pc
  task_woken :: bool
  dials :: "(start_pc \<times> bool) list"
  ctl :: "('m, 'd, 'a) sc_state"

datatype thread_id = Nobody | The_Task | Dial nat

definition task_blocked :: "('m, 'd, 'a) machine \<Rightarrow> bool" where
  "task_blocked m \<longleftrightarrow> task_waiting (task m) \<and> \<not> task_woken m"

definition blocked :: "start_pc \<times> bool \<Rightarrow> bool" where
  "blocked d \<longleftrightarrow> waiting (fst d) \<and> \<not> snd d"

text \<open>Whom a signal of \<open>demuxCond\<close> may wake; nobody only if no thread is blocked.\<close>

fun can_wake :: "thread_id \<Rightarrow> ('m, 'd, 'a) machine \<Rightarrow> bool" where
  "can_wake Nobody m \<longleftrightarrow> \<not> task_blocked m \<and> list_all (\<lambda>d. \<not> blocked d) (dials m)"
| "can_wake The_Task m \<longleftrightarrow> task_blocked m"
| "can_wake (Dial i) m \<longleftrightarrow> i < length (dials m) \<and> blocked (dials m ! i)"

fun wake :: "thread_id \<Rightarrow> ('m, 'd, 'a) machine \<Rightarrow> ('m, 'd, 'a) machine" where
  "wake Nobody m = m"
| "wake The_Task m = m\<lparr>task_woken := True\<rparr>"
| "wake (Dial i) m = m\<lparr>dials := (dials m)[i := (fst (dials m ! i), True)]\<rparr>"

datatype sc_key = P_Plus | P_Minus | V_Plus | V_Minus | Mute

fun key_op :: "('m, 'd) platform \<Rightarrow> sc_key \<Rightarrow> ('m, 'd, 'a) sc_state \<Rightarrow> ('m, 'd, 'a) sc_state c_res" where
  "key_op plat P_Plus s = c_bind (channelUp s) (\<lambda>(_, s). Inr s)"
| "key_op plat P_Minus s = c_bind (channelDown s) (\<lambda>(_, s). Inr s)"
| "key_op plat V_Plus s = volumeUp plat s"
| "key_op plat V_Minus s = volumeDown plat s"
| "key_op plat Mute s = Inr (volumeMute plat s)"

datatype sc_event =
    Task_Locks | Tuner_Reports | Tuner_Timeout
  | Task_Waits | Task_Resumes | Task_Round
  | Dial_Starts int | Dial_Waits nat | Dial_Resumes nat
  | Section "u8 list" thread_id | Spurious thread_id | Key sc_key

inductive sc_step ::
  "('m, 'd) platform \<Rightarrow> sc_event \<Rightarrow> ('m, 'd, 'a) machine \<Rightarrow> ('m, 'd, 'a) machine \<Rightarrow> bool"
  for plat :: "('m, 'd) platform" where
  task_locks: "task m = Status_Lock \<Longrightarrow> \<not> statusMutex (ctl m) \<Longrightarrow> sc_step plat Task_Locks m (m\<lparr>task := Status_Wait\<rparr>)"
| tuner_reports: "task m = Status_Wait \<Longrightarrow> tunerStatusCallback True (ctl m) = Some True \<Longrightarrow>
    streamControllerTask_status plat False (ctl m) = Inr (pc, s) \<Longrightarrow>
    sc_step plat Tuner_Reports m (m\<lparr>task := pc, ctl := s\<rparr>)"
| tuner_timeout: "task m = Status_Wait \<Longrightarrow> streamControllerTask_status plat True (ctl m) = Inr (pc, s) \<Longrightarrow>
    sc_step plat Tuner_Timeout m (m\<lparr>task := pc, ctl := s\<rparr>)"
| task_waits: "task_enter_wait (task m) = Some pc \<Longrightarrow>
    sc_step plat Task_Waits m (m\<lparr>task := pc, task_woken := False\<rparr>)"
| task_resumes: "task_waiting (task m) \<Longrightarrow> task_woken m \<Longrightarrow> task_resume plat (task m) (ctl m) = Inr (pc, s) \<Longrightarrow>
    sc_step plat Task_Resumes m (m\<lparr>task := pc, task_woken := False, ctl := s\<rparr>)"
| task_round: "task m = Task_Loop \<Longrightarrow> streamControllerTask_round plat (ctl m) = Inr (pc, s) \<Longrightarrow>
    sc_step plat Task_Round m (m\<lparr>task := pc, ctl := s\<rparr>)"
| dial_starts: "changeChannelKey_begin plat ch (ctl m) = Inr (pc, s) \<Longrightarrow>
    sc_step plat (Dial_Starts ch) m (m\<lparr>dials := dials m @ [(pc, False)], ctl := s\<rparr>)"
| dial_waits: "i < length (dials m) \<Longrightarrow> enter_wait (fst (dials m ! i)) = Some pc \<Longrightarrow>
    sc_step plat (Dial_Waits i) m (m\<lparr>dials := (dials m)[i := (pc, False)]\<rparr>)"
| dial_resumes: "i < length (dials m) \<Longrightarrow> dials m ! i = (pc, True) \<Longrightarrow> waiting pc \<Longrightarrow>
    startChannel_resume plat False pc (ctl m) = Inr (pc', s) \<Longrightarrow>
    sc_step plat (Dial_Resumes i) m (m\<lparr>dials := (dials m)[i := (pc', False)], ctl := s\<rparr>)"
| section_arrives: "sectionReceivedCallback plat (Some (bs, 0)) (ctl m) = Inr (sig, s) \<Longrightarrow>
    (if sig then can_wake w m else w = Nobody) \<Longrightarrow>
    sc_step plat (Section bs w) m (wake w (m\<lparr>ctl := s\<rparr>))"
| spurious: "w \<noteq> Nobody \<Longrightarrow> can_wake w m \<Longrightarrow> sc_step plat (Spurious w) m (wake w m)"
| key_pressed: "key_op plat k (ctl m) = Inr s \<Longrightarrow> sc_step plat (Key k) m (m\<lparr>ctl := s\<rparr>)"

subsection \<open>Parts that leave tables and settings alone\<close>

definition tabs :: "('m, 'd, 'a) sc_state \<Rightarrow> PatTable heap_ptr \<times> PmtTable heap_ptr \<times> TdtTable heap_ptr \<times> TotTable heap_ptr" where
  "tabs s = (patTable s, pmtTable s, tdtTable s, totTable s)"

definition settings :: "('m, 'd, 'a) sc_state \<Rightarrow>
    i16 \<times> u32 \<times> (CurrentDate \<Rightarrow> 'a \<Rightarrow> 'a) option \<times> (u8 \<Rightarrow> 'a \<Rightarrow> 'a) option" where
  "settings s = (programNumber s, sc_currentVolume s, dateRecievedCallback s, volumeReportCallback s)"

text \<open>A part that returns, and changes neither.\<close>

definition keeps :: "('r \<times> ('m, 'd, 'a) sc_state) c_res \<Rightarrow> ('m, 'd, 'a) sc_state \<Rightarrow> bool" where
  "keeps x s \<longleftrightarrow> (\<exists>r s'. x = Inr (r, s') \<and> tabs s' = tabs s \<and> settings s' = settings s)"

lemmas keeps_defs = keeps_def tabs_def settings_def

lemma keepsD: "keeps x s \<Longrightarrow> x = Inr (r, s') \<Longrightarrow> tabs s' = tabs s \<and> settings s' = settings s"
  by (auto simp: keeps_def)

lemma keeps_no_fault: "keeps x s \<Longrightarrow> no_fault x"
  by (auto simp: keeps_def)

lemma tables_wf_tabs: "tabs s' = tabs s \<Longrightarrow> tables_wf s' = tables_wf s"
  by (simp add: tabs_def tables_wf_def)

lemma service_pid_ok:
  assumes "wf_pat pat" and "- 1 \<le> ch" and "ch \<le> 18"
  shows "\<exists>pid. service_pid pat ch = Inr pid"
  using assms by (simp add: service_pid_def wf_pat_def TABLES_MAX_NUMBER_OF_PIDS_IN_PAT_def)

lemma startChannel_begin_keeps:
  assumes "tables_wf s" and "- 1 \<le> ch" and "ch \<le> 18"
  shows "keeps (startChannel_begin plat ch s) s"
proof -
  obtain pat where pat: "patTable s = Ptr pat" "wf_pat pat" using assms(1) by (auto simp: tables_wf_def)
  obtain pid where "service_pid pat ch = Inr pid" using service_pid_ok [OF pat(2) assms(2,3)] by blast
  then show ?thesis
    using pat by (simp add: startChannel_begin_def call_simps Let_def keeps_defs)
qed

lemma select_pids_ok: "wf_pmt pmt \<Longrightarrow> \<exists>r. select_pids pmt i a v = Inr r"
proof (induction pmt i a v rule: select_pids.induct)
  case (1 pmt i a v)
  show ?case
  proof (cases "i < elementaryInfoCount pmt")
    case True
    then have "array_get (pmtElementaryInfoArray pmt) (unat i) = Inr (pmtElementaryInfoArray pmt ! unat i)"
      using "1.prems" by (simp add: wf_pmt_def word_less_nat_alt)
    then show ?thesis
      using 1 True by (subst select_pids.simps) simp
  next
    case False
    then show ?thesis by (subst select_pids.simps) simp
  qed
qed

lemma startChannel_pmt_keeps:
  assumes "tables_wf s" and "creates_streams plat"
  shows "keeps (startChannel_pmt plat ch False s) s"
proof -
  obtain pmt where pmt: "pmtTable s = Ptr pmt" "wf_pmt pmt" using assms(1) by (auto simp: tables_wf_def)
  obtain a v where sel: "select_pids pmt 0 (-1) (-1) = Inr (a, v)" using select_pids_ok [OF pmt(2)] by fastforce
  obtain hv d1 where "start_video plat v s =
      Inr (s\<lparr>streamHandleV := hv, calls := calls s @ video_calls v s, device := d1\<rparr>)" (is "_ = Inr ?s1")
    using start_video_calls [OF assms(2)] by blast
  moreover obtain ha d2 where "start_audio plat a ?s1 =
      Inr (?s1\<lparr>streamHandleA := ha, calls := calls ?s1 @ audio_calls a ?s1, device := d2\<rparr>)" (is "_ = Inr ?s2")
    using start_audio_calls [OF assms(2)] by blast
  ultimately show ?thesis
    using pmt(1) sel
    by (simp add: startChannel_pmt_def wait_over_def keeps_defs Let_def parseTimeTables_begin_def call_simps)
qed

lemma parseTimeTables_tdt_keeps: "keeps (parseTimeTables_tdt plat False s) s"
  by (simp add: parseTimeTables_tdt_def wait_over_def call_simps Let_def keeps_defs)

lemma parseTimeTables_tot_keeps:
  assumes "tables_wf s" and "dateRecievedCallback s = Some f"
  shows "keeps (parseTimeTables_tot plat False s) s"
proof -
  obtain tot tdt where t: "totTable s = Ptr tot" "wf_tot tot" "tdtTable s = Ptr tdt"
    using assms(1) by (auto simp: tables_wf_def)
  have "tot_descriptor tot 0 = Inr (descriptors tot ! 0)" "0 < length (ltoInfo (descriptors tot ! 0))"
    using t(2) by (auto simp: wf_tot_def wf_lto_def tot_descriptor_def tot_consts list_all_length)
  then show ?thesis
    using t assms(2) by (simp add: parseTimeTables_tot_def wait_over_def keeps_defs Let_def)
qed

lemma startChannel_resume_keeps:
  assumes "tables_wf s" and "dateRecievedCallback s = Some f" and "creates_streams plat"
  shows "keeps (startChannel_resume plat False pc s) s"
  using startChannel_pmt_keeps [OF assms(1,3)] parseTimeTables_tdt_keeps parseTimeTables_tot_keeps [OF assms(1,2)]
  by (cases pc) (simp_all, simp_all add: keeps_defs)

subsection \<open>The invariant\<close>

definition settings_ok :: "('m, 'd, 'a) sc_state \<Rightarrow> bool" where
  "settings_ok s \<longleftrightarrow> 0 \<le> sint (programNumber s) \<and> sint (programNumber s) \<le> 18
     \<and> unat (sc_currentVolume s) \<le> 10 \<and> dateRecievedCallback s \<noteq> None \<and> volumeReportCallback s \<noteq> None"

lemma settings_ok_cong: "settings s' = settings s \<Longrightarrow> settings_ok s' = settings_ok s"
  by (simp add: settings_def settings_ok_def)

definition service_count :: "('m, 'd, 'a) sc_state \<Rightarrow> nat" where
  "service_count s = (case patTable s of Ptr pat \<Rightarrow> unat (serviceInfoCount pat) | _ \<Rightarrow> 0)"

lemma service_count_tabs: "tabs s' = tabs s \<Longrightarrow> service_count s' = service_count s"
  by (simp add: tabs_def service_count_def)

text \<open>Whether the demultiplexer has been given the section callback.\<close>

definition registered :: "('m, 'd, 'a) sc_state \<Rightarrow> bool" where
  "registered s \<longleftrightarrow> Demux_Register_Section_Filter_Callback \<in> set (calls s)"

fun gave_up :: "task_pc \<Rightarrow> bool" where
  "gave_up (Task_Returned rc) = True"
| "gave_up _ = False"

definition early :: "task_pc \<Rightarrow> bool" where
  "early pc \<longleftrightarrow> pc = Status_Lock \<or> pc = Status_Wait"

definition quiet :: "('m, 'd, 'a) machine \<Rightarrow> bool" where
  "quiet m \<longleftrightarrow> list_all (\<lambda>d. fst d = Returned) (dials m)"

definition machine_inv :: "('m, 'd, 'a) machine \<Rightarrow> bool" where
  "machine_inv m \<longleftrightarrow> settings_ok (ctl m)
     \<and> (if gave_up (task m) then tables_freed (ctl m) else tables_wf (ctl m) \<and> service_count (ctl m) \<le> 19)
     \<and> (early (task m) \<or> gave_up (task m) \<longrightarrow> service_count (ctl m) = 0 \<and> \<not> registered (ctl m) \<and> quiet m)"

lemma fold_call_settings:
  "settings (fold (call_void plat) cs s) = settings s" "tabs (fold (call_void plat) cs s) = tabs s"
  by (induction cs arbitrary: s) (simp_all add: call_simps settings_def tabs_def)

lemma free_and_return_settings: "free_and_return plat cs s = Inr (pc, s') \<Longrightarrow> settings s' = settings s"
  by (auto simp: free_and_return_def free_tables_def c_bind_eq_Inr fold_call_settings)
    (simp add: settings_def)

lemma free_and_return_inv:
  assumes "tables_live s" and "free_and_return plat cs s = Inr (pc, s')"
    and "Demux_Register_Section_Filter_Callback \<notin> set cs"
  shows "gave_up pc \<and> tables_freed s' \<and> settings s' = settings s \<and> registered s' = registered s"
proof -
  have "pc = Task_Returned SC_ERROR" "tables_freed s'" "calls s' = calls s @ cs"
    using free_and_return_live [OF assms(1), of plat cs] assms(2) by auto
  then show ?thesis using free_and_return_settings [OF assms(2)] assms(3) by (simp add: registered_def)
qed

lemma tables_freed_count: "tables_freed s \<Longrightarrow> service_count s = 0"
  by (simp add: tables_freed_def service_count_def)

lemma task_tuner_frame:
  assumes "tables_live s" and "task_tuner plat s = Inr (pc, s')"
  shows "settings s' = settings s \<and> registered s' = registered s
    \<and> (pc = Status_Lock \<and> tabs s' = tabs s \<or> gave_up pc \<and> tables_freed s')"
proof -
  define s1 where "s1 = call_void plat Tuner_Init s"
  define s2 where "s2 = call_void plat Tuner_Register_Status_Callback s1"
  define c where "c = Tuner_Lock_To_Frequency (tuneFrequency (configFile s2)) (tuneBandwidth (configFile s2)) (tuneModule (configFile s2))"
  define s3 where "s3 = call_void plat c s2"
  have live: "tables_live s1" "tables_live s3" using assms(1) by (simp_all add: s1_def s2_def s3_def call_simps)
  have frame: "settings s1 = settings s" "settings s3 = settings s" "tabs s3 = tabs s"
    "registered s1 = registered s" "registered s3 = registered s"
    by (simp_all add: s1_def s2_def s3_def c_def call_simps settings_def tabs_def registered_def)
  have "free_and_return plat [] s1 = Inr (pc, s') \<or> free_and_return plat [Tuner_Deinit] s3 = Inr (pc, s')
      \<or> pc = Status_Lock \<and> s' = s3"
    using assms(2)
    by (simp add: task_tuner_def call_simps Let_def s1_def s2_def s3_def c_def split: if_splits)
  then show ?thesis
    using free_and_return_inv [OF live(1), of plat "[]" pc s'] free_and_return_inv [OF live(2), of plat "[Tuner_Deinit]" pc s'] frame
    by auto
qed

text \<open>The state in which the controller thread is started.\<close>

definition start_ok :: "('m, 'd, 'a) sc_state \<Rightarrow> bool" where
  "start_ok s \<longleftrightarrow> settings_ok s \<and> \<not> registered s"

definition machine_start :: "task_pc \<Rightarrow> ('m, 'd, 'a) sc_state \<Rightarrow> ('m, 'd, 'a) machine" where
  "machine_start pc s = \<lparr>task = pc, task_woken = False, dials = [], ctl = s\<rparr>"

lemma wf_zero_tables: "wf_pat zero_PatTable" "wf_pmt zero_PmtTable" "wf_tot zero_TotTable"
  by (code_simp, code_simp, rule wf_zero_TotTable)

lemma machine_inv_start:
  assumes "start_ok s" and "mallocs_succeed plat" and "streamControllerTask_begin plat s = Inr (pc, s')"
  shows "machine_inv (machine_start pc s')"
proof -
  define s4 where "s4 = allocated plat s"
  have t: "task_tuner plat s4 = Inr (pc, s')"
    using assms(3) by (simp add: task_begin_allocates [OF assms(2)] s4_def)
  have s4: "tables_wf s4" "service_count s4 = 0" "settings s4 = settings s" "\<not> registered s4"
    using assms(1) wf_zero_tables
    by (simp_all add: s4_def allocated_def tables_wf_def service_count_def settings_def registered_def start_ok_def)
      (simp add: zero_PatTable_def)
  have "settings_ok s4" using assms(1) s4(3) settings_ok_cong by (auto simp: start_ok_def)
  then show ?thesis
    using task_tuner_frame [OF tables_wf_live [OF s4(1)] t] s4 settings_ok_cong [of s' s4] tables_wf_tabs [of s' s4]
      service_count_tabs [of s' s4] tables_freed_count
    by (auto simp: machine_inv_def machine_start_def quiet_def early_def)
qed

subsection \<open>What the environment has to respect\<close>

text \<open>
  Sections arrive after the callback has been registered and are complete; a PAT lists two to
  nineteen services. P+ and P- are not pressed before a PAT has arrived, and no channel is
  dialled once the controller thread has given up. What happens otherwise is the subject
  of properties of their own.
\<close>

definition good_section :: "u8 list \<Rightarrow> bool" where
  "good_section bs \<longleftrightarrow> bs \<noteq> []
     \<and> (bs ! 0 = 0x00 \<longrightarrow> (\<exists>h ss crc. bs = pat_section h ss crc \<and> valid_pat h ss \<and> 2 \<le> length ss \<and> length ss \<le> 19))
     \<and> (bs ! 0 = 0x02 \<longrightarrow> whole_section 12 bs) \<and> (bs ! 0 = 0x70 \<longrightarrow> 5 \<le> length bs)"

fun well_behaved :: "sc_event \<Rightarrow> ('m, 'd, 'a) machine \<Rightarrow> bool" where
  "well_behaved (Section bs w) m \<longleftrightarrow> registered (ctl m) \<and> good_section bs"
| "well_behaved (Key P_Plus) m \<longleftrightarrow> 2 \<le> service_count (ctl m)"
| "well_behaved (Key P_Minus) m \<longleftrightarrow> 2 \<le> service_count (ctl m)"
| "well_behaved (Dial_Starts ch) m \<longleftrightarrow> \<not> gave_up (task m)"
| "well_behaved _ m \<longleftrightarrow> True"

text \<open>
  A TOT section whose parser stays inside its arrays: one descriptor, with one to nineteen regions.
\<close>

definition regular_tot :: "u8 list \<Rightarrow> bool" where
  "regular_tot bs \<longleftrightarrow> (\<exists>len mjd utc xs crc. bs = tot_section len mjd utc xs crc \<and> list_all valid_lto xs
     \<and> 0 < length xs \<and> length xs < 20 \<and> length utc = 3 \<and> unat len < 4096)"

lemma section_keeps:
  assumes "tables_wf s" and "service_count s \<le> 19" and "good_section bs"
    and "sectionReceivedCallback plat (Some (bs, 0)) s = Inr (sig, s')"
  shows "tables_wf s' \<and> service_count s' \<le> 19 \<and> settings s' = settings s"
proof -
  have ne: "bs \<noteq> []" using assms(3) by (simp add: good_section_def)
  obtain pat where pat: "patTable s = Ptr pat" "wf_pat pat" using assms(1) by (auto simp: tables_wf_def)
  consider "bs ! 0 = 0x00" | "bs ! 0 = 0x02" | "bs ! 0 = 0x70" | "bs ! 0 = 0x73" | "bs ! 0 \<notin> {0x00, 0x02, 0x70, 0x73}"
    by blast
  then show ?thesis
  proof cases
    case 1
    then obtain h ss crc where bs: "bs = pat_section h ss crc" "valid_pat h ss" "length ss \<le> 19"
      using assms(3) by (auto simp: good_section_def)
    define t where "t = \<lparr>patHeader = h, patServiceInfoArray = ss @ drop (length ss) (patServiceInfoArray pat),
      serviceInfoCount = of_nat (length ss)\<rparr>"
    have "unat (of_nat (length ss) :: u8) = length ss" using bs(3) by (intro unat_of_nat_u8) simp
    then have t: "wf_pat t" "unat (serviceInfoCount t) \<le> 19"
      using bs(3) pat(2) by (simp_all add: t_def wf_pat_def TABLES_MAX_NUMBER_OF_PIDS_IN_PAT_def)
    have "s' = s\<lparr>patTable := Ptr t\<rparr>"
      using assms(4) pat 1 ne bs(1,3) parsePatTable_section [OF bs(2) pat(2), of crc]
      by (auto simp: sectionReceivedCallback_def t_def)
    then show ?thesis
      using t assms(1) by (auto simp: tables_wf_def service_count_def settings_def)
  next
    case 2
    then show ?thesis using section_pmt [OF assms(1), of bs plat] assms by (auto simp: good_section_def tables_wf_def service_count_def settings_def)
  next
    case 3
    then show ?thesis using section_tdt [OF assms(1), of bs plat] assms by (auto simp: good_section_def tables_wf_def service_count_def settings_def)
  next
    case 4
    then show ?thesis using section_tot [OF assms(1) 4 ne assms(4)] assms(1,2) by (auto simp: tables_wf_def service_count_def settings_def)
  next
    case 5
    then have "s' = s" using assms(4) ne by (simp add: sectionReceivedCallback_def)
    then show ?thesis using assms(1,2) by simp
  qed
qed

lemma status_frame:
  assumes "tables_wf s" and "streamControllerTask_status plat timed_out s = Inr (pc, s')"
  shows "settings s' = settings s
    \<and> (pc = Pat_Set \<and> tabs s' = tabs s \<or> gave_up pc \<and> tables_freed s' \<and> registered s' = registered s)"
proof -
  define s1 where "s1 = (call_void plat Player_Init (s\<lparr>statusMutex := False\<rparr>))
    \<lparr>playerHandle := stored_handle (fst (snd (respond plat Player_Init (device s)))) (playerHandle s)\<rparr>"
  define c :: "'a tdp_call" where "c = Player_Source_Open (playerHandle s1)"
  define s2 where "s2 = (call_void plat c s1)
    \<lparr>sourceHandle := stored_handle (fst (snd (respond plat c (device s1)))) (sourceHandle s1)\<rparr>"
  have live: "tables_live (s\<lparr>statusMutex := True\<rparr>)" "tables_live s1" "tables_live s2"
    using tables_wf_live [OF assms(1)] by (simp_all add: s1_def s2_def call_simps)
  have frame: "settings s1 = settings s" "settings s2 = settings s" "registered s1 = registered s" "registered s2 = registered s"
    "settings (s\<lparr>statusMutex := True\<rparr>) = settings s" "registered (s\<lparr>statusMutex := True\<rparr>) = registered s"
    by (simp_all add: s1_def s2_def c_def call_simps settings_def registered_def)
  have "free_and_return plat [Tuner_Deinit] (s\<lparr>statusMutex := True\<rparr>) = Inr (pc, s')
      \<or> free_and_return plat [Tuner_Deinit] s1 = Inr (pc, s')
      \<or> free_and_return plat [Player_Deinit (playerHandle s1), Tuner_Deinit] s2 = Inr (pc, s')
      \<or> pc = Pat_Set \<and> settings s' = settings s \<and> tabs s' = tabs s"
    using assms(2)
    by (simp add: streamControllerTask_status_def call_simps Let_def s1_def s2_def c_def split: if_splits)
      (auto simp: settings_def tabs_def)
  then show ?thesis
    using free_and_return_inv [OF live(1), of plat "[Tuner_Deinit]" pc s']
      free_and_return_inv [OF live(2), of plat "[Tuner_Deinit]" pc s']
      free_and_return_inv [OF live(3), of plat "[Player_Deinit (playerHandle s1), Tuner_Deinit]" pc s'] frame
    by auto
qed

text \<open>A part that keeps tables and settings keeps the invariant of a running machine.\<close>

definition running :: "task_pc \<Rightarrow> bool" where
  "running pc \<longleftrightarrow> \<not> early pc \<and> \<not> gave_up pc"

lemma after_start_keeps:
  assumes "keeps x s"
  shows "keeps (c_bind x (\<lambda>r. Inr (after_first r))) s" and "keeps (c_bind x (\<lambda>r. Inr (after_loop_start r))) s"
    and "c_bind x (\<lambda>r. Inr (after_first r)) = Inr (pc, s') \<Longrightarrow> running pc"
    and "c_bind x (\<lambda>r. Inr (after_loop_start r)) = Inr (pc, s') \<Longrightarrow> running pc"
  using assms
  by (auto simp: keeps_defs after_first_def after_loop_start_def running_def early_def split: if_splits)

lemma task_resume_keeps:
  assumes "tables_wf s" and "settings_ok s" and "creates_streams plat" and "task_waiting pc"
  shows "keeps (task_resume plat pc s) s" and "task_resume plat pc s = Inr (pc', s') \<Longrightarrow> running pc'"
proof -
  obtain f where f: "dateRecievedCallback s = Some f" using assms(2) by (auto simp: settings_ok_def)
  have pn: "- 1 \<le> sint (programNumber s)" "sint (programNumber s) \<le> 18" using assms(2) by (auto simp: settings_ok_def)
  note parts = after_start_keeps [OF startChannel_begin_keeps [OF assms(1) pn, of plat]]
    after_start_keeps [OF startChannel_resume_keeps [OF assms(1) f assms(3)]]
  show "keeps (task_resume plat pc s) s"
    using assms(4) parts by (cases pc) (simp_all add: streamControllerTask_pat_def)
  show "task_resume plat pc s = Inr (pc', s') \<Longrightarrow> running pc'"
    using assms(4) parts(3,4,7,8) by (cases pc) (auto simp: streamControllerTask_pat_def)
qed

lemma task_round_keeps:
  assumes "tables_wf s" and "settings_ok s"
  shows "keeps (streamControllerTask_round plat s) s"
    and "streamControllerTask_round plat s = Inr (pc', s') \<Longrightarrow> running pc'"
proof -
  have "keeps (startChannel_begin plat (sint (programNumber s)) (s\<lparr>changeChannelFlag := False\<rparr>)) (s\<lparr>changeChannelFlag := False\<rparr>)"
    using assms by (intro startChannel_begin_keeps) (auto simp: settings_ok_def tables_wf_def)
  then have x: "keeps (startChannel_begin plat (sint (programNumber s)) (s\<lparr>changeChannelFlag := False\<rparr>)) s"
    by (simp add: keeps_defs)
  have "keeps (Inr (pc, s)) s" for pc :: task_pc by (simp add: keeps_defs)
  then show "keeps (streamControllerTask_round plat s) s"
    using after_start_keeps(2) [OF x] by (simp add: streamControllerTask_round_def)
  show "streamControllerTask_round plat s = Inr (pc', s') \<Longrightarrow> running pc'"
    using after_start_keeps(4) [OF x]
    by (auto simp: streamControllerTask_round_def running_def early_def split: if_splits)
qed

lemma dial_keeps:
  assumes "tables_wf s" and "service_count s \<le> 19"
  shows "keeps (changeChannelKey_begin plat ch s) s"
    and "service_count s = 0 \<Longrightarrow> changeChannelKey_begin plat ch s = Inr (Returned, s)"
proof -
  obtain pat where pat: "patTable s = Ptr pat" using assms(1) by (auto simp: tables_wf_def)
  then have n: "int (unat (serviceInfoCount pat)) \<le> 19" "service_count s = unat (serviceInfoCount pat)"
    using assms(2) by (simp_all add: service_count_def del: of_nat_unat)
  have r: "keeps (Inr (pc, s)) s" for pc :: start_pc by (simp add: keeps_defs)
  show "keeps (changeChannelKey_begin plat ch s) s"
  proof (cases "- 1 < ch \<and> ch < int (unat (serviceInfoCount pat))")
    case True
    then have "keeps (startChannel_begin plat ch s) s"
      using assms(1) n by (intro startChannel_begin_keeps) linarith+
    then show ?thesis using True pat by (simp add: changeChannelKey_begin_def del: of_nat_unat)
  next
    case False
    then show ?thesis using r pat by (auto simp: changeChannelKey_begin_def simp del: of_nat_unat)
  qed
  show "service_count s = 0 \<Longrightarrow> changeChannelKey_begin plat ch s = Inr (Returned, s)"
    using pat n by (auto simp: changeChannelKey_begin_def simp del: of_nat_unat)
qed

lemma channel_key_keeps:
  assumes "settings_ok s" and "2 \<le> service_count s" and "service_count s \<le> 19" and "k = P_Plus \<or> k = P_Minus"
  shows "\<exists>p. key_op plat k s = Inr (moved_to p s) \<and> 0 \<le> sint p \<and> sint p \<le> 18"
proof -
  obtain pat where pat: "patTable s = Ptr pat" and n: "2 \<le> int (unat (serviceInfoCount pat))" "int (unat (serviceInfoCount pat)) \<le> 19"
    using assms(2,3) by (auto simp: service_count_def simp del: of_nat_unat split: heap_ptr.splits)
  let ?p = "sint (programNumber s)" and ?n = "int (unat (serviceInfoCount pat))"
  have p: "0 \<le> ?p" "?p \<le> 18" using assms(1) by (auto simp: settings_ok_def)
  then have steps: "sint (programNumber s + 1) = ?p + 1" "sint (programNumber s - 1) = ?p - 1"
    by (intro sint_step_i16; linarith)+
  have last: "sint (of_int (?n - 2) :: i16) = ?n - 2" using n by (intro sint_of_int_i16) linarith+
  consider "k = P_Plus" "?n - 2 \<le> ?p" | "k = P_Plus" "?p < ?n - 2" | "k = P_Minus" "?p \<le> 0" | "k = P_Minus" "0 < ?p"
    using assms(4) by linarith
  then show ?thesis
  proof cases
    case 1
    then show ?thesis
      by (intro exI [of _ 0]) (simp add: channelUp_def pat moved_to_def del: of_nat_unat)
  next
    case 2
    then show ?thesis
      using steps n p by (intro exI [of _ "programNumber s + 1"]) (simp add: channelUp_def pat moved_to_def del: of_nat_unat)
  next
    case 3
    then show ?thesis
      using last n by (intro exI [of _ "of_int (?n - 2)"]) (simp add: channelDown_def pat moved_to_def del: of_nat_unat)
  next
    case 4
    then show ?thesis
      using steps p by (intro exI [of _ "programNumber s - 1"]) (simp add: channelDown_def pat moved_to_def del: of_nat_unat)
  qed
qed

lemma volume_key_keeps:
  assumes "settings_ok s" and "k \<in> {V_Plus, V_Minus, Mute}"
  shows "\<exists>s'. key_op plat k s = Inr s' \<and> settings_ok s' \<and> tabs s' = tabs s \<and> registered s' = registered s"
proof -
  obtain f where v: "unat (sc_currentVolume s) \<le> 10" "volumeReportCallback s = Some f"
    using assms(1) by (auto simp: settings_ok_def)
  have set: "settings_ok (volume_set plat n f s) \<and> tabs (volume_set plat n f s) = tabs s
      \<and> registered (volume_set plat n f s) = registered s" if "n \<le> 10" for n
    using that assms(1) unat_of_nat_u32 [of n]
    by (simp add: volume_set_def settings_ok_def tabs_def registered_def)
  have mute: "settings_ok (volumeMute plat s) \<and> tabs (volumeMute plat s) = tabs s
      \<and> registered (volumeMute plat s) = registered s"
    using assms(1) by (simp add: volumeMute_def call_simps settings_ok_def tabs_def registered_def)
  show ?thesis
    using assms(2) set [of "min 10 (unat (sc_currentVolume s) + 1)"] set [of "unat (sc_currentVolume s) - 1"] v(1) mute
    by (elim insertE) (simp_all add: volumeUp_sets [OF v] volumeDown_sets [OF v])
qed

subsection \<open>Every step keeps the invariant\<close>

lemma wake_fields [simp]: "task (wake w m) = task m" "ctl (wake w m) = ctl m" "map fst (dials (wake w m)) = map fst (dials m)"
proof -
  show "task (wake w m) = task m" "ctl (wake w m) = ctl m" by (cases w; simp)+
  show "map fst (dials (wake w m)) = map fst (dials m)"
  proof (cases w)
    case (Dial i)
    then show ?thesis by (cases "i < length (dials m)") (simp_all add: map_update list_update_same_conv list_update_beyond)
  qed simp_all
qed

lemma quiet_fst: "quiet m \<longleftrightarrow> list_all (\<lambda>pc. pc = Returned) (map fst (dials m))"
  by (simp add: quiet_def list_all_iff)

lemma inv_keeps:
  assumes "machine_inv m" and "tabs s = tabs (ctl m)" and "settings s = settings (ctl m)" and "\<not> gave_up (task m)"
    and "running (task m')" and "ctl m' = s"
  shows "machine_inv m'"
  using assms settings_ok_cong [OF assms(3)] tables_wf_tabs [OF assms(2)] service_count_tabs [OF assms(2)]
  by (simp add: machine_inv_def running_def)

lemma inv_running: "task_waiting pc \<Longrightarrow> running pc" "task_enter_wait pc = Some pc' \<Longrightarrow> running pc \<and> running pc'"
  by (cases pc; simp add: running_def early_def)
    (cases pc; auto simp: running_def early_def)

lemma inv_section:
  assumes "machine_inv m" and "well_behaved (Section bs w) m"
    and "sectionReceivedCallback plat (Some (bs, 0)) (ctl m) = Inr (sig, s)"
  shows "machine_inv (wake w (m\<lparr>ctl := s\<rparr>))"
proof -
  have r: "registered (ctl m)" "good_section bs" using assms(2) by simp_all
  then have "running (task m)" using assms(1) by (auto simp: machine_inv_def running_def)
  moreover from this have "tables_wf (ctl m)" "service_count (ctl m) \<le> 19" "settings_ok (ctl m)"
    using assms(1) by (auto simp: machine_inv_def running_def)
  moreover note section_keeps [OF this(1,2) r(2) assms(3)]
  ultimately show ?thesis
    using settings_ok_cong [of s "ctl m"] by (simp add: machine_inv_def running_def)
qed

lemma inv_key:
  assumes "machine_inv m" and "well_behaved (Key k) m" and "key_op plat k (ctl m) = Inr s"
  shows "machine_inv (m\<lparr>ctl := s\<rparr>)"
proof (cases "k = P_Plus \<or> k = P_Minus")
  case True
  then have n: "2 \<le> service_count (ctl m)" using assms(2) by auto
  then have run: "running (task m)" using assms(1) by (auto simp: machine_inv_def running_def)
  obtain p where "s = moved_to p (ctl m)" "0 \<le> sint p" "sint p \<le> 18"
    using channel_key_keeps [OF _ n _ True, of plat] assms(1,3) run by (auto simp: machine_inv_def running_def)
  then show ?thesis
    using assms(1) run
    by (auto simp: machine_inv_def running_def moved_to_def settings_ok_def tables_wf_def service_count_def)
next
  case False
  then have "k \<in> {V_Plus, V_Minus, Mute}" by (cases k) simp_all
  then have "settings_ok s" "tabs s = tabs (ctl m)" "registered s = registered (ctl m)"
    using volume_key_keeps [of "ctl m" k plat] assms(1,3) by (auto simp: machine_inv_def)
  then show ?thesis
    using assms(1) tables_wf_tabs [of s "ctl m"] service_count_tabs [of s "ctl m"]
    by (auto simp: machine_inv_def quiet_def tables_freed_def tabs_def)
qed

lemma inv_status:
  assumes "machine_inv m" and "task m = Status_Wait" and "streamControllerTask_status plat timed_out (ctl m) = Inr (pc, s)"
  shows "machine_inv (m\<lparr>task := pc, ctl := s\<rparr>)"
  using status_frame [OF _ assms(3)] assms(1,2) settings_ok_cong [of s "ctl m"]
    tables_wf_tabs [of s "ctl m"] service_count_tabs [of s "ctl m"] tables_freed_count
  by (auto simp: machine_inv_def early_def quiet_def)

lemma inv_wf: "machine_inv m \<Longrightarrow> running (task m) \<Longrightarrow> tables_wf (ctl m) \<and> settings_ok (ctl m)"
  by (simp add: machine_inv_def running_def)

lemma inv_task:
  assumes "machine_inv m" and "running (task m)" and "keeps x (ctl m)" and "x = Inr (r, s)"
    and "ctl m' = s" and "running (task m')"
  shows "machine_inv m'"
  using keepsD [OF assms(3,4)] assms by (auto intro!: inv_keeps [OF assms(1), of s] simp: running_def)

lemma inv_dial_starts:
  assumes "machine_inv m" and "\<not> gave_up (task m)" and "changeChannelKey_begin plat ch (ctl m) = Inr (pc, s)"
  shows "machine_inv (m\<lparr>dials := dials m @ [(pc, False)], ctl := s\<rparr>)"
proof -
  have w: "tables_wf (ctl m)" "service_count (ctl m) \<le> 19" using assms(1,2) by (auto simp: machine_inv_def)
  note k = dial_keeps [OF w, of plat ch]
  show ?thesis
    using keepsD [OF k(1) assms(3)] k(2) assms
      settings_ok_cong [of s "ctl m"] tables_wf_tabs [of s "ctl m"] service_count_tabs [of s "ctl m"]
    by (auto simp: machine_inv_def quiet_def)
qed

text \<open>A dialled channel that is still being started implies a running controller thread.\<close>

lemma inv_dialling:
  assumes "machine_inv m" and "i < length (dials m)" and "fst (dials m ! i) \<noteq> Returned"
  shows "running (task m)"
proof -
  have "\<not> quiet m" using assms(2,3) by (auto simp: quiet_def list_all_length)
  then show ?thesis using assms(1) by (auto simp: machine_inv_def running_def)
qed

lemma machine_inv_step:
  assumes "sc_step plat e m m'" and "machine_inv m" and "well_behaved e m" and "creates_streams plat"
  shows "machine_inv m'"
  using assms(1)
proof cases
  case task_locks
  then show ?thesis using assms(2) by (simp add: machine_inv_def early_def quiet_def)
next
  case (task_waits pc)
  then show ?thesis
    using assms(2) inv_running(2) [of "task m" pc]
    by (auto intro!: inv_keeps [OF assms(2), of "ctl m"] simp: running_def)
next
  case (task_resumes pc s)
  have run: "running (task m)" using task_resumes inv_running by blast
  note k = task_resume_keeps [OF inv_wf [OF assms(2) run, THEN conjunct1] inv_wf [OF assms(2) run, THEN conjunct2]
      assms(4) task_resumes(3)]
  show ?thesis using task_resumes(2) k(2) [OF task_resumes(5)] by (intro inv_task [OF assms(2) run k(1) task_resumes(5)]) simp_all
next
  case (task_round pc s)
  have run: "running (task m)" using task_round by (simp add: running_def early_def)
  note k = task_round_keeps [OF inv_wf [OF assms(2) run, THEN conjunct1] inv_wf [OF assms(2) run, THEN conjunct2], of plat]
  show ?thesis using task_round(2) k(2) [OF task_round(4)] by (intro inv_task [OF assms(2) run k(1) task_round(4)]) simp_all
next
  case (dial_waits i pc)
  then have "running (task m)" by (intro inv_dialling [OF assms(2), of i]) auto
  then show ?thesis using dial_waits assms(2) by (auto simp: machine_inv_def running_def)
next
  case (dial_resumes i pc pc' s)
  have run: "running (task m)" using dial_resumes(3-5) by (intro inv_dialling [OF assms(2), of i]) auto
  then obtain f where f: "dateRecievedCallback (ctl m) = Some f" using inv_wf [OF assms(2)] by (auto simp: settings_ok_def)
  note k = startChannel_resume_keeps [OF inv_wf [OF assms(2) run, THEN conjunct1] f assms(4), of pc]
  show ?thesis using dial_resumes(2) run by (intro inv_task [OF assms(2) run k dial_resumes(6)]) simp_all
next
  case (spurious w)
  then show ?thesis using assms(2) by (simp add: machine_inv_def quiet_fst)
next
  case (section_arrives bs sig s w)
  then show ?thesis using inv_section [OF assms(2)] assms(3) by blast
qed (use assms(2,3) inv_status inv_dial_starts inv_key in auto)

text \<open>The states an execution in a well-behaved environment reaches.\<close>

inductive sc_reach :: "('m, 'd) platform \<Rightarrow> ('m, 'd, 'a) sc_state \<Rightarrow> ('m, 'd, 'a) machine \<Rightarrow> bool"
  for plat :: "('m, 'd) platform" and s\<^sub>0 :: "('m, 'd, 'a) sc_state" where
  reach_start: "streamControllerTask_begin plat s\<^sub>0 = Inr (pc, s) \<Longrightarrow> sc_reach plat s\<^sub>0 (machine_start pc s)"
| reach_step: "sc_reach plat s\<^sub>0 m \<Longrightarrow> well_behaved e m \<Longrightarrow> sc_step plat e m m' \<Longrightarrow> sc_reach plat s\<^sub>0 m'"

lemma reach_inv:
  assumes "sc_reach plat s\<^sub>0 m" and "start_ok s\<^sub>0" and "mallocs_succeed plat" and "creates_streams plat"
  shows "machine_inv m"
  using assms(1)
proof (induction rule: sc_reach.induct)
  case (reach_start pc s)
  then show ?case using machine_inv_start assms(2,3) by blast
next
  case (reach_step m e m')
  then show ?case using machine_inv_step assms(4) by blast
qed

subsection \<open>No part faults\<close>

lemma status_no_fault: "tables_live s \<Longrightarrow> no_fault (streamControllerTask_status plat timed_out s)"
  by (auto simp: tables_live_def streamControllerTask_status_def free_and_return_def free_tables_def call_simps Let_def)

lemma receive_tot:
  assumes "totTable s = Ptr t" and "wf_tot t" and "list_all valid_lto xs" and "0 < length xs" and "length xs < 20"
    and "length utc = 3" and "unat len < 4096"
  shows "\<exists>t'. sectionReceivedCallback plat (Some (tot_section len mjd utc xs crc, 0)) s = Inr (True, s\<lparr>totTable := Ptr t'\<rparr>)
    \<and> wf_tot t'"
proof -
  have "tot_section len mjd utc xs crc \<noteq> [] \<and> tot_section len mjd utc xs crc ! 0 = 0x73"
    by (simp add: tot_section_def section_start_def)
  moreover obtain t' where p: "parseTotTable (Some (tot_section len mjd utc xs crc, 0)) (Some t) = Inr (TABLES_PARSE_OK, Some t')"
    using parseTotTable_section [OF assms(3-7,2)] by blast
  moreover have "wf_tot t'" using parseTotTable_keeps_wf [OF assms(2) p] by blast
  moreover obtain out where "printTotTable (Some t') = Inr (TABLES_PARSE_OK, out)"
    using printTotTable_lines [OF \<open>wf_tot t'\<close>] by blast
  ultimately show ?thesis using assms(1) by (intro exI [of _ t']) (simp add: sectionReceivedCallback_def)
qed

lemma section_no_fault:
  assumes "tables_wf s" and "good_section bs" and "bs ! 0 = 0x73 \<longrightarrow> regular_tot bs"
  shows "no_fault (sectionReceivedCallback plat (Some (bs, 0)) s)"
proof -
  have ne: "bs \<noteq> []" using assms(2) by (simp add: good_section_def)
  consider "bs ! 0 = 0x00" | "bs ! 0 = 0x02" | "bs ! 0 = 0x70" | "bs ! 0 = 0x73"
    | "bs ! 0 \<notin> {0x00, 0x02, 0x70, 0x73}"
    by blast
  then show ?thesis
  proof cases
    case 1
    obtain pat where pat: "patTable s = Ptr pat" "wf_pat pat" using assms(1) by (auto simp: tables_wf_def)
    obtain h ss crc where bs: "bs = pat_section h ss crc" "valid_pat h ss"
      using assms(2) 1 by (auto simp: good_section_def)
    then show ?thesis
      using ne 1 pat parsePatTable_section [OF bs(2) pat(2), of crc] by (simp add: sectionReceivedCallback_def)
  next
    case 2
    then show ?thesis using section_pmt [OF assms(1), of bs plat] assms(2) by (auto simp: good_section_def)
  next
    case 3
    then show ?thesis using section_tdt [OF assms(1), of bs plat] assms(2) by (auto simp: good_section_def)
  next
    case 4
    obtain tot where tot: "totTable s = Ptr tot" "wf_tot tot" using assms(1) by (auto simp: tables_wf_def)
    obtain len mjd utc xs crc where "bs = tot_section len mjd utc xs crc" "list_all valid_lto xs" "0 < length xs"
      "length xs < 20" "length utc = 3" "unat len < 4096"
      using assms(3) 4 by (auto simp: regular_tot_def)
    then show ?thesis using receive_tot [OF tot, of xs utc len plat mjd crc] by (auto simp: no_fault_iff)
  next
    case 5
    then show ?thesis using ne by (simp add: sectionReceivedCallback_def)
  qed
qed

lemma key_no_fault:
  assumes "machine_inv m" and "well_behaved (Key k) m"
  shows "no_fault (key_op plat k (ctl m))"
proof (cases "k = P_Plus \<or> k = P_Minus")
  case True
  then have n: "2 \<le> service_count (ctl m)" using assms(2) by auto
  then have "service_count (ctl m) \<le> 19" "settings_ok (ctl m)" using assms(1) by (auto simp: machine_inv_def split: if_splits)
  then show ?thesis using channel_key_keeps [OF _ n _ True] by (auto simp: no_fault_iff)
next
  case False
  then show ?thesis
    using volume_key_keeps [of "ctl m" k plat] assms(1) by (cases k) (auto simp: no_fault_iff machine_inv_def)
qed

lemma inv_no_fault:
  assumes "machine_inv m" and "creates_streams plat"
  shows "(task_waiting (task m) \<longrightarrow> no_fault (task_resume plat (task m) (ctl m)))
    \<and> (task m = Task_Loop \<longrightarrow> no_fault (streamControllerTask_round plat (ctl m)))
    \<and> (task m = Status_Wait \<longrightarrow> no_fault (streamControllerTask_status plat timed_out (ctl m)))
    \<and> list_all (\<lambda>(pc, _). no_fault (startChannel_resume plat False pc (ctl m))) (dials m)
    \<and> (well_behaved (Dial_Starts ch) m \<longrightarrow> no_fault (changeChannelKey_begin plat ch (ctl m)))
    \<and> (well_behaved (Key k) m \<longrightarrow> no_fault (key_op plat k (ctl m)))
    \<and> (well_behaved (Section bs w) m \<and> (bs ! 0 = 0x73 \<longrightarrow> regular_tot bs) \<longrightarrow>
         no_fault (sectionReceivedCallback plat (Some (bs, 0)) (ctl m)))
    \<and> 0 \<le> sint (programNumber (ctl m)) \<and> sint (programNumber (ctl m)) \<le> 18 \<and> unat (sc_currentVolume (ctl m)) \<le> 10"
proof -
  note inv = assms(1)
  then have set: "settings_ok (ctl m)" by (simp add: machine_inv_def)
  then obtain f where f: "dateRecievedCallback (ctl m) = Some f" by (auto simp: settings_ok_def)
  have wf: "tables_wf (ctl m)" "service_count (ctl m) \<le> 19" if "\<not> gave_up (task m)"
    using inv that by (simp_all add: machine_inv_def)
  have "no_fault (task_resume plat (task m) (ctl m))" if "task_waiting (task m)"
    using that keeps_no_fault [OF task_resume_keeps(1) [OF wf(1) set assms(2) that]] inv_running(1) [OF that]
    by (simp add: running_def)
  moreover have "no_fault (streamControllerTask_round plat (ctl m))" if "task m = Task_Loop"
    using that keeps_no_fault [OF task_round_keeps(1) [OF wf(1) set]] by simp
  moreover have "no_fault (streamControllerTask_status plat timed_out (ctl m))" if "task m = Status_Wait"
    using that wf(1) by (simp add: status_no_fault tables_wf_live)
  moreover have "list_all (\<lambda>(pc, _). no_fault (startChannel_resume plat False pc (ctl m))) (dials m)"
  proof (cases "gave_up (task m)")
    case True
    then have "quiet m" using inv by (simp add: machine_inv_def)
    then show ?thesis by (auto simp: quiet_def list_all_iff)
  next
    case False
    then show ?thesis
      using keeps_no_fault [OF startChannel_resume_keeps [OF wf(1) f assms(2)]] by (auto simp: list_all_iff)
  qed
  moreover have "no_fault (changeChannelKey_begin plat ch (ctl m))" if "well_behaved (Dial_Starts ch) m"
    using that keeps_no_fault [OF dial_keeps(1) [OF wf]] by simp
  moreover have "no_fault (key_op plat k (ctl m))" if "well_behaved (Key k) m"
    using key_no_fault [OF inv that] .
  moreover have "no_fault (sectionReceivedCallback plat (Some (bs, 0)) (ctl m))"
    if "well_behaved (Section bs w) m" "bs ! 0 = 0x73 \<longrightarrow> regular_tot bs"
  proof -
    have "\<not> gave_up (task m)" using that inv by (auto simp: machine_inv_def)
    then show ?thesis using section_no_fault [OF wf(1)] that by simp
  qed
  ultimately show ?thesis using set by (simp add: settings_ok_def)
qed

text \<open>
  C4. On a platform where the four table allocations and every creation of a stream succeed (so the error
  paths behind them are not taken), the stream controller never faults in a well-behaved environment, whatever the
  interleaving: in every reachable state no part that a thread or a callback can run next
  dereferences a null or freed pointer or leaves an array; the program number stays between 0 and 18 and the volume at
  most 10. Well-behaved means that sections are complete and come after registration, that
  a PAT lists two to nineteen services, that P+ and P- wait for the first PAT, and that no
  channel is dialled after the controller thread has given up. Of the TOT sections only the regular ones are
  shown to be safe (one descriptor of one to nineteen regions): the parser overruns on others.
\<close>

theorem controller_never_faults:
  assumes "sc_reach plat s\<^sub>0 m" and "start_ok s\<^sub>0" and "mallocs_succeed plat" and "creates_streams plat"
  shows "(task_waiting (task m) \<longrightarrow> no_fault (task_resume plat (task m) (ctl m)))
    \<and> (task m = Task_Loop \<longrightarrow> no_fault (streamControllerTask_round plat (ctl m)))
    \<and> (task m = Status_Wait \<longrightarrow> no_fault (streamControllerTask_status plat timed_out (ctl m)))
    \<and> list_all (\<lambda>(pc, _). no_fault (startChannel_resume plat False pc (ctl m))) (dials m)
    \<and> (well_behaved (Dial_Starts ch) m \<longrightarrow> no_fault (changeChannelKey_begin plat ch (ctl m)))
    \<and> (well_behaved (Key k) m \<longrightarrow> no_fault (key_op plat k (ctl m)))
    \<and> (well_behaved (Section bs w) m \<and> (bs ! 0 = 0x73 \<longrightarrow> regular_tot bs) \<longrightarrow>
         no_fault (sectionReceivedCallback plat (Some (bs, 0)) (ctl m)))
    \<and> 0 \<le> sint (programNumber (ctl m)) \<and> sint (programNumber (ctl m)) \<le> 18 \<and> unat (sc_currentVolume (ctl m)) \<le> 10"
  by (rule inv_no_fault [OF reach_inv [OF assms] assms(4)])

text \<open>A platform on which every call succeeds.\<close>

definition calls_succeed :: "('m, 'd) platform \<Rightarrow> bool" where
  "calls_succeed plat \<longleftrightarrow> (\<forall>c d. \<not> fst (respond plat c d))"

lemma calls_succeedD: "calls_succeed plat \<Longrightarrow> \<not> fst (respond plat c d)"
  by (simp add: calls_succeed_def)

lemma ideal_calls_succeed: "calls_succeed ideal_platform"
  by (simp add: calls_succeed_def ideal_platform_def)

lemma task_begin_ok:
  assumes "calls_succeed plat"
  shows "\<exists>cs d. streamControllerTask_begin plat s = Inr (Status_Lock, (allocated plat s)\<lparr>calls := calls s @ cs, device := d\<rparr>)
    \<and> Demux_Register_Section_Filter_Callback \<notin> set cs"
proof -
  have "mallocs_succeed plat" using assms by (simp add: mallocs_succeed_def calls_succeed_def)
  then show ?thesis
    using calls_succeedD [OF assms]
    by (simp add: task_begin_allocates task_tuner_def call_simps Let_def) (auto simp: allocated_def)
qed

definition controller_start :: "(nat, unit, u8) sc_state" where
  "controller_start = (initial_state 0 () 5)\<lparr>volumeReportCallback := Some (\<lambda>v _. v), dateRecievedCallback := Some (\<lambda>_ a. a)\<rparr>"

lemma controller_start_ok: "start_ok controller_start" "mallocs_succeed ideal_platform" "creates_streams ideal_platform"
  by (simp_all add: start_ok_def settings_ok_def registered_def controller_start_def initial_state_def
      mallocs_succeed_def creates_streams_def ideal_platform_def)

theorem controller_never_faults_witness:
  "\<exists>m. sc_reach ideal_platform controller_start m \<and> task m = Status_Wait
     \<and> no_fault (streamControllerTask_status ideal_platform True (ctl m))"
proof -
  obtain s where b: "streamControllerTask_begin ideal_platform controller_start = Inr (Status_Lock, s)"
    and s: "\<not> statusMutex s"
    using task_begin_ok [OF ideal_calls_succeed, of controller_start] by (auto simp: controller_start_def initial_state_def allocated_def)
  let ?m = "(machine_start Status_Lock s)\<lparr>task := Status_Wait\<rparr>"
  have "sc_step ideal_platform Task_Locks (machine_start Status_Lock s) ?m"
    using s by (intro task_locks) (simp_all add: machine_start_def)
  then have r: "sc_reach ideal_platform controller_start ?m"
    using reach_step [OF reach_start [OF b], of Task_Locks ?m] by simp
  have "task ?m = Status_Wait" by simp
  then show ?thesis
    using controller_never_faults [OF r controller_start_ok, of True] r by blast
qed

subsection \<open>Signals that nobody waits for\<close>

inductive sc_run :: "('m, 'd) platform \<Rightarrow> sc_event list \<Rightarrow> ('m, 'd, 'a) machine \<Rightarrow> ('m, 'd, 'a) machine \<Rightarrow> bool"
  for plat :: "('m, 'd) platform" where
  run_nil: "sc_run plat [] m m"
| run_cons: "sc_step plat e m m' \<Longrightarrow> sc_run plat es m' m'' \<Longrightarrow> sc_run plat (e # es) m m''"

inductive_cases run_consE: "sc_run plat (e # es) m m''"
inductive_cases waits_stepE: "sc_step plat Task_Waits m m'"

fun silent :: "sc_event \<Rightarrow> bool" where
  "silent (Section bs w) = False"
| "silent (Spurious w) = False"
| "silent e = True"

lemma waiting_not_entering: "task_waiting pc \<Longrightarrow> task_enter_wait pc = None"
proof -
  have "waiting p \<Longrightarrow> enter_wait p = None" for p by (cases p) simp_all
  then show "task_waiting pc \<Longrightarrow> task_enter_wait pc = None" by (cases pc) simp_all
qed

lemma entering_waits: "task_enter_wait pc = Some pc' \<Longrightarrow> task_waiting pc' \<and> \<not> task_waiting pc"
proof -
  have "enter_wait p = Some p' \<Longrightarrow> waiting p' \<and> \<not> waiting p" for p p' by (cases p) auto
  then show "task_enter_wait pc = Some pc' \<Longrightarrow> task_waiting pc' \<and> \<not> task_waiting pc" by (cases pc) auto
qed

lemma blocked_step:
  assumes "sc_step plat e m m'" and "task_blocked m" and "silent e"
  shows "task m' = task m \<and> task_blocked m'"
  using assms waiting_not_entering [of "task m"]
  by (cases rule: sc_step.cases) (auto simp: task_blocked_def)

lemma blocked_run: "sc_run plat es m m' \<Longrightarrow> task_blocked m \<Longrightarrow> list_all silent es \<Longrightarrow> task m' = task m \<and> task_blocked m'"
proof (induction rule: sc_run.induct)
  case (run_cons e m m' es m'')
  then show ?case using blocked_step [OF run_cons(1)] by simp
qed simp

text \<open>
  C20. A table that arrives before the controller thread waits for it leaves the thread
  blocked. When a parsed section signals while no dialled channel is being started: if the
  thread is already waiting, it is the one that is woken. If it has set the filter but not yet
  begun to wait, nobody is woken; it then begins to wait, and stays blocked in that
  wait, whatever else happens, until a further section arrives.
\<close>

theorem signal_needs_waiter:
  assumes "dials m = []" and "sectionReceivedCallback plat (Some (bs, 0)) (ctl m) = Inr (True, s)"
    and "sc_step plat (Section bs w) m m'"
  shows "(task_blocked m \<longrightarrow> w = The_Task \<and> task_woken m' \<and> task m' = task m)
    \<and> (task_enter_wait (task m) = Some pc \<longrightarrow> w = Nobody \<and>
        (\<forall>es m''. sc_run plat (Task_Waits # es) m' m'' \<and> list_all silent es \<longrightarrow> task m'' = pc \<and> task_blocked m''))"
proof -
  have w: "can_wake w m" "m' = wake w (m\<lparr>ctl := s\<rparr>)" using assms(2,3) by (auto elim: sc_step.cases)
  have who: "w = (if task_blocked m then The_Task else Nobody)"
    using w(1) assms(1) by (cases w) auto
  have "task m'' = pc \<and> task_blocked m''"
    if p: "task_enter_wait (task m) = Some pc" and run: "sc_run plat (Task_Waits # es) m' m''" and "list_all silent es" for es m''
  proof -
    obtain m1 where m1: "sc_step plat Task_Waits m' m1" "sc_run plat es m1 m''" using run by (auto elim: run_consE)
    have "task m1 = pc" "\<not> task_woken m1" using m1(1) w(2) p by (auto elim!: waits_stepE)
    then have "task_blocked m1" using entering_waits [OF p] by (simp add: task_blocked_def)
    then show ?thesis using blocked_run [OF m1(2)] \<open>task m1 = pc\<close> that(3) by simp
  qed
  moreover have "\<not> task_blocked m" if "task_enter_wait (task m) = Some pc"
    using entering_waits [OF that] by (simp add: task_blocked_def)
  ultimately show ?thesis using who w(2) by auto
qed

definition pat_pending :: "(nat, unit, u8) machine" where
  "pat_pending = machine_start Pat_Set (allocated ideal_platform controller_start)"

theorem signal_needs_waiter_witness:
  "\<exists>m'. sc_step ideal_platform (Section pat_example Nobody) pat_pending m'
     \<and> \<not> (\<exists>es m''. sc_run ideal_platform (Task_Waits # es) m' m'' \<and> list_all silent es \<and> task m'' \<noteq> Pat_Wait)"
proof -
  have v: "valid_pat pat_example_header pat_example_services" by code_simp
  have b: "pat_section pat_example_header pat_example_services [0xDE, 0xAD, 0xBE, 0xEF] = pat_example"
    by (rule pat_example_bytes)
  have m: "dials pat_pending = []" "task_enter_wait (task pat_pending) = Some Pat_Wait" "\<not> task_blocked pat_pending"
    by (simp_all add: pat_pending_def machine_start_def task_blocked_def)
  have "patTable (ctl pat_pending) = Ptr zero_PatTable" by (simp add: pat_pending_def machine_start_def allocated_def)
  moreover have "length pat_example_services \<le> 20" by (simp add: pat_example_services_def)
  then obtain t where "parsePatTable (Some (pat_example, 0)) (Some zero_PatTable) = Inr (TABLES_PARSE_OK, Some t)"
    using parsePatTable_section [OF v wf_zero_tables(1), of "[0xDE, 0xAD, 0xBE, 0xEF]"] by (simp add: b)
  moreover have "pat_example \<noteq> []" "pat_example ! 0 = 0" by (simp_all add: pat_example_def)
  ultimately obtain s where r: "sectionReceivedCallback ideal_platform (Some (pat_example, 0)) (ctl pat_pending) = Inr (True, s)"
    by (simp add: sectionReceivedCallback_def)
  have st: "sc_step ideal_platform (Section pat_example Nobody) pat_pending (pat_pending\<lparr>ctl := s\<rparr>)"
    using section_arrives [OF r, of Nobody] m by simp
  then show ?thesis using signal_needs_waiter [OF m(1) r st, of Pat_Wait] m(2) by blast
qed

end
