(* ===== verification/Stream_Boot.thy ===== *)
theory Stream_Boot
  imports Stream_Steps
begin

section \<open>From the start of the stream controller to a running channel\<close>

text \<open>
  The parts of the controller thread one after the other on a platform that works, with
  the sections arriving while the thread waits for them: what each part and each section
  changes, and how they compose to an execution of the machine.
\<close>

subsection \<open>Parts on a working platform\<close>

text \<open>Everything that matters but the handles, the calls, the platform and the status mutex.\<close>

definition core :: "('m, 'd, 'a) sc_state \<Rightarrow> _" where
  "core s = (tabs s, settings s, threadExit s, changeChannelFlag s, currentChannel s, isInitialized s,
     timeTablesRecieved s, client s)"

lemmas core_defs = core_def tabs_def settings_def

lemma status_ok:
  assumes "calls_succeed plat"
  shows "\<exists>s'. streamControllerTask_status plat False s = Inr (Pat_Set, s') \<and> core s' = core s
    \<and> set (calls s) \<subseteq> set (calls s') \<and> registered s'"
  using calls_succeedD [OF assms]
  by (auto simp: streamControllerTask_status_def call_simps Let_def core_defs registered_def)

lemma startChannel_begin_ok:
  assumes "calls_succeed plat" and "patTable s = Ptr pat" and "service_pid pat ch = Inr pid"
  shows "\<exists>s'. startChannel_begin plat ch s = Inr (Pmt_Set ch, s') \<and> core s' = core s
    \<and> insert (Demux_Set_Filter (playerHandle s) pid 2) (set (calls s)) \<subseteq> set (calls s')"
  using calls_succeedD [OF assms(1)] assms(2,3)
  by (auto simp: startChannel_begin_def call_simps Let_def core_defs)

lemma startChannel_pmt_ok:
  assumes "calls_succeed plat" and "pmtTable s = Ptr pmt" and "pmt_pids_ok pmt" and "\<not> timeTablesRecieved s"
  shows "\<exists>s'. startChannel_pmt plat ch False s = Inr (Tdt_Set, s')
    \<and> core s' = core (s\<lparr>currentChannel := \<lparr>channel_programNumber = of_int (ch + 1),
          channel_audioPid = first_pid is_audio_type (pmt_streams pmt),
          channel_videoPid = first_pid is_video_type (pmt_streams pmt)\<rparr>\<rparr>)
    \<and> set (calls s) \<subseteq> set (calls s')"
proof -
  let ?a = "first_pid is_audio_type (pmt_streams pmt)" and ?v = "first_pid is_video_type (pmt_streams pmt)"
  have c: "creates_streams plat" using assms(1) by (simp add: creates_streams_def calls_succeed_def)
  obtain hv d1 where v: "start_video plat ?v s =
      Inr (s\<lparr>streamHandleV := hv, calls := calls s @ video_calls ?v s, device := d1\<rparr>)" (is "_ = Inr ?s1")
    using start_video_calls [OF c] by blast
  obtain ha d2 where "start_audio plat ?a ?s1 =
      Inr (?s1\<lparr>streamHandleA := ha, calls := calls ?s1 @ audio_calls ?a ?s1, device := d2\<rparr>)"
    using start_audio_calls [OF c] by blast
  then show ?thesis
    using v assms(2,4) select_pids_first [OF assms(3)] calls_succeedD [OF assms(1)]
    by (simp add: startChannel_pmt_def wait_over_def parseTimeTables_begin_def call_simps Let_def core_defs) blast
qed

lemma parseTimeTables_tdt_ok:
  assumes "calls_succeed plat"
  shows "\<exists>s'. parseTimeTables_tdt plat False s = Inr (Tot_Set, s') \<and> core s' = core s \<and> set (calls s) \<subseteq> set (calls s')"
  using calls_succeedD [OF assms]
  by (auto simp: parseTimeTables_tdt_def wait_over_def call_simps Let_def core_defs)

lemma parseTimeTables_tot_ok:
  assumes "totTable s = Ptr tot" and "wf_tot tot" and "tdtTable s = Ptr tdt" and "dateRecievedCallback s = Some f"
  shows "\<exists>s'. parseTimeTables_tot plat False s = Inr (Returned, s') \<and> calls s' = calls s
    \<and> core s' = core (s\<lparr>client := f \<lparr>date_Year = tdt_Year tdt, date_tmpMonth = ucast (tdt_tmpMonth tdt),
          date_day = ucast (tdt_day tdt)\<rparr> (client s), timeTablesRecieved := True\<rparr>)"
proof -
  have "tot_descriptor tot 0 = Inr (descriptors tot ! 0)" "0 < length (ltoInfo (descriptors tot ! 0))"
    using assms(2) by (auto simp: wf_tot_def wf_lto_def tot_descriptor_def tot_consts list_all_length)
  then show ?thesis
    using assms by (simp add: parseTimeTables_tot_def wait_over_def core_defs Let_def)
qed

subsection \<open>Sections as transmitted\<close>

definition pat_of :: "PatHeader \<Rightarrow> PatServiceInfo list \<Rightarrow> PatTable \<Rightarrow> PatTable" where
  "pat_of h ss t = \<lparr>patHeader = h, patServiceInfoArray = ss @ drop (length ss) (patServiceInfoArray t),
     serviceInfoCount = of_nat (length ss)\<rparr>"

definition pmt_of :: "PmtTableHeader \<Rightarrow> PmtElementaryInfo list \<Rightarrow> PmtTable \<Rightarrow> PmtTable" where
  "pmt_of h es t = \<lparr>pmtHeader = stored_pmt_header h,
     pmtElementaryInfoArray = es @ drop (length es) (pmtElementaryInfoArray t),
     elementaryInfoCount = of_nat (length es)\<rparr>"

lemma receive_pat:
  assumes "patTable s = Ptr t" and "wf_pat t" and "valid_pat h ss" and "length ss \<le> 20"
  shows "sectionReceivedCallback plat (Some (pat_section h ss crc, 0)) s = Inr (True, s\<lparr>patTable := Ptr (pat_of h ss t)\<rparr>)"
proof -
  have "pat_section h ss crc \<noteq> [] \<and> pat_section h ss crc ! 0 = 0"
    using assms(3) by (simp add: pat_section_def section_start_def valid_pat_def valid_pat_header_def)
  then show ?thesis
    using assms parsePatTable_section [OF assms(3,2), of crc] by (simp add: sectionReceivedCallback_def pat_of_def)
qed

lemma receive_pmt:
  assumes "pmtTable s = Ptr t" and "wf_pmt t" and "valid_pmt h ds es" and "length es \<le> 20"
  shows "sectionReceivedCallback plat (Some (pmt_section h ds es crc, 0)) s =
    Inr (True, s\<lparr>pmtTable := Ptr (pmt_of h (map fst es) t)\<rparr>)"
proof -
  have "pmt_section h ds es crc \<noteq> [] \<and> pmt_section h ds es crc ! 0 = 2"
    using assms(3) by (simp add: pmt_section_def pmt_header_bytes_def section_start_def valid_pmt_def valid_pmt_header_def)
  then show ?thesis
    using assms parsePmtTable_section [OF assms(3,2), of crc] by (simp add: sectionReceivedCallback_def pmt_of_def)
qed

lemma pmt_of_streams:
  assumes "wf_pmt t" and "valid_pmt h ds es" and "length es \<le> 20"
  shows "pmt_pids_ok (pmt_of h (map fst es) t) \<and> pmt_streams (pmt_of h (map fst es) t) = map fst es"
proof -
  have "unat (of_nat (length es) :: u8) = length es" using assms(3) by (intro unat_of_nat_u8) simp
  then show ?thesis
    using assms by (auto simp: pmt_pids_ok_def wf_pmt_def pmt_streams_def pmt_of_def valid_pmt_def valid_pmt_entry_def
        list_all_iff TABLES_MAX_NUMBER_OF_ELEMENTARY_PID_def)
qed

lemma receive_tdt:
  assumes "tdtTable s = Ptr t" and "unat len < 4096"
  shows "sectionReceivedCallback plat (Some (tdt_section len mjd utc, 0)) s =
    Inr (True, s\<lparr>tdtTable := Ptr (tdt_date (t\<lparr>tdt_tableId := 0x70, tdt_sectionLength := len, tdt_MJD := ucast mjd\<rparr>))\<rparr>)"
proof -
  have "tdt_section len mjd utc \<noteq> [] \<and> tdt_section len mjd utc ! 0 = 0x70"
    by (simp add: tdt_section_def section_start_def)
  then show ?thesis
    using assms parseTdtTable_section [OF assms(2)] by (simp add: sectionReceivedCallback_def printTdtTable_def)
qed

subsection \<open>The execution\<close>

lemma run_append: "sc_run plat es m m' \<Longrightarrow> sc_run plat es' m' m'' \<Longrightarrow> sc_run plat (es @ es') m m''"
  by (induction rule: sc_run.induct) (auto intro: run_cons)

text \<open>The thread begins to wait, the section arrives, the thread goes on.\<close>

definition table_events :: "u8 list \<Rightarrow> sc_event list" where
  "table_events bs = [Task_Waits, Section bs The_Task, Task_Resumes]"

lemma table_run:
  assumes "task_enter_wait pc = Some pc'" and "sectionReceivedCallback plat (Some (bs, 0)) s = Inr (True, s1)"
    and "task_resume plat pc' s1 = Inr (pc'', s2)"
  shows "sc_run plat (table_events bs) (machine_start pc s) (machine_start pc'' s2)"
proof -
  let ?m = "machine_start pc s"
  let ?m1 = "?m\<lparr>task := pc', task_woken := False\<rparr>" and ?m2 = "?m\<lparr>task := pc', task_woken := True, ctl := s1\<rparr>"
  have w: "task_waiting pc'" using entering_waits [OF assms(1)] by simp
  have "sc_step plat Task_Waits ?m ?m1" using assms(1) by (intro task_waits) (simp add: machine_start_def)
  moreover have "sc_step plat (Section bs The_Task) ?m1 ?m2"
    using section_arrives [of plat bs ?m1 True s1 The_Task] assms(2) w
    by (simp add: machine_start_def task_blocked_def)
  moreover have "sc_step plat Task_Resumes ?m2 (?m2\<lparr>task := pc'', task_woken := False, ctl := s2\<rparr>)"
    using assms(3) w by (intro task_resumes) (simp_all add: machine_start_def)
  ultimately show ?thesis
    by (auto simp: table_events_def machine_start_def intro!: run_cons run_nil)
qed

lemma tuner_run:
  assumes "\<not> statusMutex s" and "streamControllerTask_status plat False s = Inr (pc, s')"
  shows "sc_run plat [Task_Locks, Tuner_Reports] (machine_start Status_Lock s) (machine_start pc s')"
proof -
  let ?m1 = "(machine_start Status_Lock s)\<lparr>task := Status_Wait\<rparr>"
  have "sc_step plat Task_Locks (machine_start Status_Lock s) ?m1"
    using assms(1) by (intro task_locks) (simp_all add: machine_start_def)
  moreover have "sc_step plat Tuner_Reports ?m1 (?m1\<lparr>task := pc, ctl := s'\<rparr>)"
    using assms by (intro tuner_reports) (simp_all add: machine_start_def tunerStatusCallback_def)
  ultimately show ?thesis by (auto simp: machine_start_def intro!: run_cons run_nil)
qed

text \<open>The broadcast: the sections a receiver sees, and the program the controller is to start.\<close>

record broadcast =
  b_pat :: "PatHeader \<times> PatServiceInfo list"
  b_pmt :: "PmtTableHeader \<times> u8 list \<times> (PmtElementaryInfo \<times> u8 list) list"
  b_date :: "nat \<times> nat \<times> nat"
  b_utc :: "u8 list"
  b_len :: u16
  b_regions :: "(LTODescriptorInfo \<times> u8 list) list"
  b_crc :: "u8 list"

definition b_streams :: "broadcast \<Rightarrow> PmtElementaryInfo list" where
  "b_streams b = map fst (snd (snd (b_pmt b)))"

definition b_mjd :: "broadcast \<Rightarrow> nat" where
  "b_mjd b = (case b_date b of (y, m, d) \<Rightarrow> mjd_of_date y m d)"

definition valid_broadcast :: "broadcast \<Rightarrow> bool" where
  "valid_broadcast b \<longleftrightarrow>
     (case b_pat b of (h, ss) \<Rightarrow> valid_pat h ss \<and> length ss \<le> 20)
     \<and> (case b_pmt b of (h, ds, es) \<Rightarrow> valid_pmt h ds es \<and> length es \<le> 20)
     \<and> (case b_date b of (y, m, d) \<Rightarrow> valid_date y m d) \<and> 15079 \<le> b_mjd b \<and> b_mjd b < 65536
     \<and> length (b_utc b) = 3 \<and> unat (b_len b) < 4096
     \<and> list_all valid_lto (b_regions b) \<and> 0 < length (b_regions b) \<and> length (b_regions b) < 20"

definition broadcast_events :: "broadcast \<Rightarrow> sc_event list" where
  "broadcast_events b = [Task_Locks, Tuner_Reports]
     @ table_events (pat_section (fst (b_pat b)) (snd (b_pat b)) (b_crc b))
     @ table_events (pmt_section (fst (b_pmt b)) (fst (snd (b_pmt b))) (snd (snd (b_pmt b))) (b_crc b))
     @ table_events (tdt_section (b_len b) (of_nat (b_mjd b)) (b_utc b))
     @ table_events (tot_section (b_len b) (of_nat (b_mjd b)) (b_utc b) (b_regions b) (b_crc b))"

text \<open>The date as the controller reports it.\<close>

definition reported_date :: "broadcast \<Rightarrow> CurrentDate" where
  "reported_date b = (case b_date b of (y, m, d) \<Rightarrow>
     \<lparr>date_Year = of_nat y, date_tmpMonth = of_nat m, date_day = of_int (int d + day_skew y m)\<rparr>)"

lemma service_pid_of:
  assumes "0 \<le> p" and "p + 1 < int (length ss)"
  shows "service_pid (pat_of h ss t) p = Inr (pat_pid (ss ! nat (p + 1)))"
  using assms by (simp add: service_pid_def pat_of_def nth_append nat_less_iff)

definition channel_of :: "int \<Rightarrow> PmtElementaryInfo list \<Rightarrow> ChannelInfo" where
  "channel_of p es = \<lparr>channel_programNumber = of_int (p + 1), channel_audioPid = first_pid is_audio_type es,
     channel_videoPid = first_pid is_video_type es\<rparr>"

lemma boot_channel:
  fixes s :: "('m, 'd, 'a) sc_state"
  assumes "calls_succeed plat" and "tables_wf s" and "\<not> timeTablesRecieved s"
    and "valid_pat h ss" and "length ss \<le> 20" and "valid_pmt g ds es" and "length es \<le> 20"
    and p: "p = sint (programNumber s)" "0 \<le> p" "p + 1 < int (length ss)"
  shows "\<exists>s' pat pmt hd. sc_run plat (table_events (pat_section h ss crc) @ table_events (pmt_section g ds es crc'))
      (machine_start Pat_Set s) (machine_start (First_Start Tdt_Set) s')
    \<and> core s' = core (s\<lparr>patTable := pat, pmtTable := pmt, currentChannel := channel_of p (map fst es)\<rparr>)
    \<and> tables_live s' \<and> Demux_Set_Filter hd (pat_pid (ss ! nat (p + 1))) 2 \<in> set (calls s')"
proof -
  obtain t u where t: "patTable s = Ptr t" "wf_pat t" and u: "pmtTable s = Ptr u" "wf_pmt u"
    using assms(2) by (auto simp: tables_wf_def)
  let ?s1 = "s\<lparr>patTable := Ptr (pat_of h ss t)\<rparr>"
  obtain s2 where s2: "startChannel_begin plat p ?s1 = Inr (Pmt_Set p, s2)" "core s2 = core ?s1"
    "Demux_Set_Filter (playerHandle ?s1) (pat_pid (ss ! nat (p + 1))) 2 \<in> set (calls s2)"
    using startChannel_begin_ok [OF assms(1) _ service_pid_of [OF p(2,3)], of ?s1 h t] by auto
  have run1: "sc_run plat (table_events (pat_section h ss crc)) (machine_start Pat_Set s)
      (machine_start (First_Start (Pmt_Set p)) s2)"
    by (rule table_run [OF _ receive_pat [OF t assms(4,5)], of _ Pat_Wait])
      (use s2(1) p(1) in \<open>simp_all add: streamControllerTask_pat_def after_first_def\<close>)
  have u2: "pmtTable s2 = Ptr u" "\<not> timeTablesRecieved s2" using s2(2) u(1) assms(3) by (simp_all add: core_defs)
  let ?s3 = "s2\<lparr>pmtTable := Ptr (pmt_of g (map fst es) u)\<rparr>"
  note st = pmt_of_streams [OF u(2) assms(6,7)]
  obtain s4 where s4: "startChannel_pmt plat p False ?s3 = Inr (Tdt_Set, s4)"
    "core s4 = core (?s3\<lparr>currentChannel := channel_of p (map fst es)\<rparr>)" "set (calls ?s3) \<subseteq> set (calls s4)"
    using startChannel_pmt_ok [OF assms(1) _ st [THEN conjunct1], of ?s3 p] u2 st by (auto simp: channel_of_def)
  have run2: "sc_run plat (table_events (pmt_section g ds es crc')) (machine_start (First_Start (Pmt_Set p)) s2)
      (machine_start (First_Start Tdt_Set) s4)"
    by (rule table_run [OF _ receive_pmt [OF u2(1) u(2) assms(6,7)], of _ "First_Start (Pmt_Wait p)"])
      (use s4(1) in \<open>simp_all add: after_first_def\<close>)
  have "core s4 = core (s\<lparr>patTable := Ptr (pat_of h ss t), pmtTable := Ptr (pmt_of g (map fst es) u),
      currentChannel := channel_of p (map fst es)\<rparr>)"
    using s4(2) s2(2) by (simp add: core_defs)
  moreover have "Demux_Set_Filter (playerHandle ?s1) (pat_pid (ss ! nat (p + 1))) 2 \<in> set (calls s4)"
    using s2(3) s4(3) by auto
  moreover have "tables_live s4"
    using tables_wf_live [OF assms(2)] calculation(1) by (auto simp: core_defs tables_live_def)
  ultimately show ?thesis using run_append [OF run1 run2] by blast
qed

lemma narrow_u16_u8: "ucast (of_int k :: u16) = (of_int k :: u8)" "ucast (of_nat n :: u16) = (of_nat n :: u8)"
proof -
  have "ucast (of_int k :: u16) = (of_int k :: u8)" for k :: int by transfer (simp add: take_bit_take_bit)
  from this [of k] this [of "int n"]
  show "ucast (of_int k :: u16) = (of_int k :: u8)" "ucast (of_nat n :: u16) = (of_nat n :: u8)"
    by (simp_all only: of_int_of_nat_eq)
qed

text \<open>The time tables: up to the arrival of the TOT, and to the end of the start.\<close>

definition time_events :: "broadcast \<Rightarrow> sc_event list" where
  "time_events b = table_events (tdt_section (b_len b) (of_nat (b_mjd b)) (b_utc b))
     @ [Task_Waits, Section (tot_section (b_len b) (of_nat (b_mjd b)) (b_utc b) (b_regions b) (b_crc b)) The_Task]"

lemma boot_tdt:
  fixes s :: "('m, 'd, 'a) sc_state"
  assumes "calls_succeed plat" and "tdtTable s = Ptr tdt" and "totTable s = Ptr tot" and "wf_tot tot"
    and "valid_broadcast b" and "b_date b = (y, m, d)"
  shows "\<exists>s' tdt' tot'. sc_run plat (table_events (tdt_section (b_len b) (of_nat (b_mjd b)) (b_utc b)))
      (machine_start (First_Start Tdt_Set) s) (machine_start (First_Start Tot_Set) s')
    \<and> core s' = core (s\<lparr>tdtTable := Ptr tdt'\<rparr>) \<and> set (calls s) \<subseteq> set (calls s')
    \<and> sectionReceivedCallback plat
        (Some (tot_section (b_len b) (of_nat (b_mjd b)) (b_utc b) (b_regions b) (b_crc b), 0)) s' =
        Inr (True, s'\<lparr>totTable := Ptr tot'\<rparr>) \<and> wf_tot tot'
    \<and> \<lparr>date_Year = tdt_Year tdt', date_tmpMonth = ucast (tdt_tmpMonth tdt'), date_day = ucast (tdt_day tdt')\<rparr> = reported_date b"
proof -
  have v: "valid_date y m d" "15079 \<le> mjd_of_date y m d" "mjd_of_date y m d < 65536" "unat (b_len b) < 4096"
    "b_mjd b = mjd_of_date y m d" "length (b_utc b) = 3"
    and lto: "list_all valid_lto (b_regions b)" "0 < length (b_regions b)" "length (b_regions b) < 20"
    using assms(5,6) by (auto simp: valid_broadcast_def b_mjd_def)
  define t1 where "t1 = tdt\<lparr>tdt_tableId := 0x70, tdt_sectionLength := b_len b, tdt_MJD := ucast (of_nat (b_mjd b) :: u16)\<rparr>"
  let ?s1 = "s\<lparr>tdtTable := Ptr (tdt_date t1)\<rparr>"
  obtain s2 where s2: "parseTimeTables_tdt plat False ?s1 = Inr (Tot_Set, s2)" "core s2 = core ?s1" "set (calls ?s1) \<subseteq> set (calls s2)"
    using parseTimeTables_tdt_ok [OF assms(1)] by blast
  have run1: "sc_run plat (table_events (tdt_section (b_len b) (of_nat (b_mjd b)) (b_utc b)))
      (machine_start (First_Start Tdt_Set) s) (machine_start (First_Start Tot_Set) s2)"
    by (rule table_run [OF _ receive_tdt [OF assms(2) v(4)], of _ "First_Start Tdt_Wait"])
      (use s2(1) in \<open>simp_all add: after_first_def t1_def\<close>)
  have "totTable s2 = Ptr tot" using s2(2) assms(3) by (simp add: core_defs)
  then obtain tot' where r: "sectionReceivedCallback plat
      (Some (tot_section (b_len b) (of_nat (b_mjd b)) (b_utc b) (b_regions b) (b_crc b), 0)) s2 =
      Inr (True, s2\<lparr>totTable := Ptr tot'\<rparr>)" "wf_tot tot'"
    using receive_tot [OF _ assms(4) lto v(6,4)] by blast
  note fields = tdt_date_of_date [OF v(1-3), of t1]
  have date: "\<lparr>date_Year = tdt_Year (tdt_date t1), date_tmpMonth = ucast (tdt_tmpMonth (tdt_date t1)),
      date_day = ucast (tdt_day (tdt_date t1))\<rparr> = reported_date b"
  proof -
    have "tdt_MJD t1 = ucast (of_nat (mjd_of_date y m d) :: u16)" by (simp add: t1_def v(5))
    then show ?thesis by (simp only: fields narrow_u16_u8 reported_date_def assms(6) prod.case)
  qed
  have "set (calls s) \<subseteq> set (calls s2)" using s2(3) by simp
  then show ?thesis using run1 s2(2) r date by blast
qed

lemma boot_time:
  fixes s :: "('m, 'd, 'a) sc_state"
  assumes "calls_succeed plat" and "tdtTable s = Ptr tdt" and "totTable s = Ptr tot" and "wf_tot tot"
    and "dateRecievedCallback s = Some f" and "valid_broadcast b"
  shows "\<exists>s' tdt' tot'. sc_run plat (table_events (tdt_section (b_len b) (of_nat (b_mjd b)) (b_utc b))
        @ table_events (tot_section (b_len b) (of_nat (b_mjd b)) (b_utc b) (b_regions b) (b_crc b)))
      (machine_start (First_Start Tdt_Set) s) (machine_start Task_Loop s')
    \<and> core s' = core (s\<lparr>tdtTable := tdt', totTable := tot', client := f (reported_date b) (client s),
        timeTablesRecieved := True, isInitialized := True\<rparr>)
    \<and> (tables_live s \<longrightarrow> tables_live s') \<and> set (calls s) \<subseteq> set (calls s')"
proof -
  obtain y m d where ymd: "b_date b = (y, m, d)" by (cases "b_date b") auto
  obtain s2 tdt' tot' where run1: "sc_run plat (table_events (tdt_section (b_len b) (of_nat (b_mjd b)) (b_utc b)))
      (machine_start (First_Start Tdt_Set) s) (machine_start (First_Start Tot_Set) s2)"
    and s2: "core s2 = core (s\<lparr>tdtTable := Ptr tdt'\<rparr>)" "set (calls s) \<subseteq> set (calls s2)"
    and r: "sectionReceivedCallback plat
        (Some (tot_section (b_len b) (of_nat (b_mjd b)) (b_utc b) (b_regions b) (b_crc b), 0)) s2 =
        Inr (True, s2\<lparr>totTable := Ptr tot'\<rparr>)" "wf_tot tot'"
    and date: "\<lparr>date_Year = tdt_Year tdt', date_tmpMonth = ucast (tdt_tmpMonth tdt'), date_day = ucast (tdt_day tdt')\<rparr>
      = reported_date b"
    using boot_tdt [OF assms(1-4,6) ymd] by blast
  let ?s3 = "s2\<lparr>totTable := Ptr tot'\<rparr>"
  have f2: "tdtTable s2 = Ptr tdt'" "dateRecievedCallback s2 = Some f" "client s2 = client s"
    using s2(1) assms(5) by (simp_all add: core_defs)
  obtain s4 where s4: "parseTimeTables_tot plat False ?s3 = Inr (Returned, s4)" "calls s4 = calls ?s3"
    "core s4 = core (?s3\<lparr>client := f (reported_date b) (client ?s3), timeTablesRecieved := True\<rparr>)"
    using parseTimeTables_tot_ok [of ?s3 tot' tdt' f plat] r(2) f2(1,2) date by auto
  let ?s5 = "s4\<lparr>isInitialized := True\<rparr>"
  have run2: "sc_run plat (table_events (tot_section (b_len b) (of_nat (b_mjd b)) (b_utc b) (b_regions b) (b_crc b)))
      (machine_start (First_Start Tot_Set) s2) (machine_start Task_Loop ?s5)"
    by (rule table_run [OF _ r(1), of _ "First_Start Tot_Wait"]) (use s4(1) in \<open>simp_all add: after_first_def\<close>)
  have "core ?s5 = core (s\<lparr>tdtTable := Ptr tdt', totTable := Ptr tot', client := f (reported_date b) (client s),
        timeTablesRecieved := True, isInitialized := True\<rparr>)"
    using s4(3) s2(1) f2(3) by (simp add: core_defs)
  moreover from this have "tables_live s \<longrightarrow> tables_live ?s5" by (auto simp: core_defs tables_live_def)
  moreover have "set (calls s) \<subseteq> set (calls ?s5)" using s2(2) s4(2) by auto
  ultimately show ?thesis using run_append [OF run1 run2] by blast
qed

text \<open>From the start of the thread to the wait for the time tables.\<close>

lemma boot_to_time:
  fixes s\<^sub>0 :: "('m, 'd, 'a) sc_state"
  assumes "calls_succeed plat" and "valid_broadcast b" and "\<not> statusMutex s\<^sub>0" and "\<not> timeTablesRecieved s\<^sub>0"
    and p: "p = sint (programNumber s\<^sub>0)" "0 \<le> p" "p + 1 < int (length (snd (b_pat b)))"
  shows "\<exists>s s' hd tdt tot. streamControllerTask_begin plat s\<^sub>0 = Inr (Status_Lock, s)
    \<and> sc_run plat ([Task_Locks, Tuner_Reports]
        @ table_events (pat_section (fst (b_pat b)) (snd (b_pat b)) (b_crc b))
        @ table_events (pmt_section (fst (b_pmt b)) (fst (snd (b_pmt b))) (snd (snd (b_pmt b))) (b_crc b)))
      (machine_start Status_Lock s) (machine_start (First_Start Tdt_Set) s')
    \<and> tdtTable s' = Ptr tdt \<and> totTable s' = Ptr tot \<and> wf_tot tot
    \<and> dateRecievedCallback s' = dateRecievedCallback s\<^sub>0 \<and> client s' = client s\<^sub>0
    \<and> currentChannel s' = channel_of p (b_streams b) \<and> tables_live s'
    \<and> Demux_Set_Filter hd (pat_pid (snd (b_pat b) ! nat (p + 1))) 2 \<in> set (calls s')"
proof -
  have v: "valid_pat (fst (b_pat b)) (snd (b_pat b))" "length (snd (b_pat b)) \<le> 20"
    "valid_pmt (fst (b_pmt b)) (fst (snd (b_pmt b))) (snd (snd (b_pmt b)))" "length (snd (snd (b_pmt b))) \<le> 20"
    using assms(2) by (auto simp: valid_broadcast_def)
  obtain cs d where b1: "streamControllerTask_begin plat s\<^sub>0 = Inr (Status_Lock, (allocated plat s\<^sub>0)\<lparr>calls := cs, device := d\<rparr>)"
    (is "_ = Inr (_, ?s1)")
    using task_begin_ok [OF assms(1), of s\<^sub>0] by blast
  obtain s2 where s2: "streamControllerTask_status plat False ?s1 = Inr (Pat_Set, s2)" "core s2 = core ?s1"
    using status_ok [OF assms(1)] by blast
  have run1: "sc_run plat [Task_Locks, Tuner_Reports] (machine_start Status_Lock ?s1) (machine_start Pat_Set s2)"
    using assms(3) by (intro tuner_run s2(1)) (simp add: allocated_def)
  have f2: "tables_wf s2" "\<not> timeTablesRecieved s2" "p = sint (programNumber s2)"
    "dateRecievedCallback s2 = dateRecievedCallback s\<^sub>0" "client s2 = client s\<^sub>0"
    using s2(2) assms(4) p(1) wf_zero_tables by (simp_all add: core_defs allocated_def tables_wf_def)
  obtain s3 pat pmt hd where s3: "sc_run plat
      (table_events (pat_section (fst (b_pat b)) (snd (b_pat b)) (b_crc b))
       @ table_events (pmt_section (fst (b_pmt b)) (fst (snd (b_pmt b))) (snd (snd (b_pmt b))) (b_crc b)))
      (machine_start Pat_Set s2) (machine_start (First_Start Tdt_Set) s3)"
    "core s3 = core (s2\<lparr>patTable := pat, pmtTable := pmt, currentChannel := channel_of p (b_streams b)\<rparr>)"
    "Demux_Set_Filter hd (pat_pid (snd (b_pat b) ! nat (p + 1))) 2 \<in> set (calls s3)" "tables_live s3"
    using boot_channel [OF assms(1) f2(1,2) v f2(3) p(2,3), of "b_crc b" "b_crc b"] unfolding b_streams_def by blast
  obtain tdt tot where t: "tdtTable s2 = Ptr tdt" "totTable s2 = Ptr tot" "wf_tot tot"
    using f2(1) by (auto simp: tables_wf_def)
  have f3: "tdtTable s3 = Ptr tdt" "totTable s3 = Ptr tot" "dateRecievedCallback s3 = dateRecievedCallback s\<^sub>0"
    "client s3 = client s\<^sub>0" "currentChannel s3 = channel_of p (b_streams b)"
    using s3(2) f2 t by (simp_all add: core_defs)
  show ?thesis using b1 run_append [OF run1 s3(1)] f3 t(3) s3(3,4) by auto
qed

lemma controller_boots:
  fixes s\<^sub>0 :: "('m, 'd, 'a) sc_state"
  assumes "calls_succeed plat" and "valid_broadcast b" and "dateRecievedCallback s\<^sub>0 = Some f"
    and "\<not> statusMutex s\<^sub>0" and "\<not> timeTablesRecieved s\<^sub>0"
    and p: "p = sint (programNumber s\<^sub>0)" "0 \<le> p" "p + 1 < int (length (snd (b_pat b)))"
  shows "\<exists>s s' hd. streamControllerTask_begin plat s\<^sub>0 = Inr (Status_Lock, s)
    \<and> sc_run plat (broadcast_events b) (machine_start Status_Lock s) (machine_start Task_Loop s')
    \<and> isInitialized s' \<and> timeTablesRecieved s' \<and> tables_live s' \<and> currentChannel s' = channel_of p (b_streams b)
    \<and> client s' = f (reported_date b) (client s\<^sub>0)
    \<and> Demux_Set_Filter hd (pat_pid (snd (b_pat b) ! nat (p + 1))) 2 \<in> set (calls s')"
proof -
  obtain s s3 hd tdt tot where b1: "streamControllerTask_begin plat s\<^sub>0 = Inr (Status_Lock, s)"
    and run1: "sc_run plat ([Task_Locks, Tuner_Reports]
        @ table_events (pat_section (fst (b_pat b)) (snd (b_pat b)) (b_crc b))
        @ table_events (pmt_section (fst (b_pmt b)) (fst (snd (b_pmt b))) (snd (snd (b_pmt b))) (b_crc b)))
      (machine_start Status_Lock s) (machine_start (First_Start Tdt_Set) s3)"
    and f3: "tdtTable s3 = Ptr tdt" "totTable s3 = Ptr tot" "wf_tot tot" "dateRecievedCallback s3 = Some f"
      "client s3 = client s\<^sub>0" "currentChannel s3 = channel_of p (b_streams b)"
      "Demux_Set_Filter hd (pat_pid (snd (b_pat b) ! nat (p + 1))) 2 \<in> set (calls s3)" "tables_live s3"
    using boot_to_time [OF assms(1,2,4,5) p] assms(3) by auto
  obtain s4 tdt' tot' where s4: "sc_run plat (table_events (tdt_section (b_len b) (of_nat (b_mjd b)) (b_utc b))
        @ table_events (tot_section (b_len b) (of_nat (b_mjd b)) (b_utc b) (b_regions b) (b_crc b)))
      (machine_start (First_Start Tdt_Set) s3) (machine_start Task_Loop s4)"
    "core s4 = core (s3\<lparr>tdtTable := tdt', totTable := tot', client := f (reported_date b) (client s3),
        timeTablesRecieved := True, isInitialized := True\<rparr>)" "set (calls s3) \<subseteq> set (calls s4)" "tables_live s4"
    using boot_time [OF assms(1) f3(1-4) assms(2)] f3(8) by blast
  have "sc_run plat (broadcast_events b) (machine_start Status_Lock s) (machine_start Task_Loop s4)"
    using run_append [OF run1 s4(1)] by (simp add: broadcast_events_def)
  then show ?thesis
    using b1 s4(2-4) f3(5-7) by (intro exI [of _ s] exI [of _ s4] exI [of _ hd]) (auto simp: core_defs)
qed

text \<open>A broadcast of 23 September 2009 with one region.\<close>

definition example_broadcast :: broadcast where
  "example_broadcast = \<lparr>b_pat = (pat_example_header, pat_example_services),
     b_pmt = (pmt_example_header, [], pmt_example_streams), b_date = (2009, 9, 23),
     b_utc = [0x12, 0x34, 0x56], b_len = 5,
     b_regions = [(\<lparr>countryCH1 = 0x53, countryCH2 = 0x52, countryCH3 = 0x42, countryRegionId = 1,
         localTimeOffsetPolarity = 0, localTimeOffsetHours = 2, localTimeOffsetMinutes = 30\<rparr>,
        [0, 0, 0, 0, 0, 0x01, 0x00])],
     b_crc = [0xDE, 0xAD, 0xBE, 0xEF]\<rparr>"

lemma valid_example_broadcast: "valid_broadcast example_broadcast"
proof -
  have "valid_pat pat_example_header pat_example_services" by code_simp
  moreover have "valid_pmt pmt_example_header [] pmt_example_streams" by code_simp
  ultimately show ?thesis
    using sample_dates(1,3)
    by (simp add: valid_broadcast_def example_broadcast_def b_mjd_def valid_lto_def pat_example_services_def
        pmt_example_streams_def)
qed

end
