(* ===== verification/Stream_Types.thy ===== *)
theory Stream_Types
  imports Stream_Steps
begin

section \<open>The types of the values the stream controller keeps and passes on\<close>

text \<open>
  The fields of a section are narrower than the C integers that hold them: a PID has 13 bits, a
  length 12, a version 5. This theory states the ranges of everything the stream controller stores
  in its tables and hands to the platform, and shows that no part of it ever leaves them, whatever
  bytes arrive, however the platform answers and in whatever order the parts run. In particular no
  slot of an array holds a wider PID, which matters because \<open>startChannel\<close> also reads the slot
  behind the last service.
\<close>

subsection \<open>Ranges\<close>

definition typed_pat :: "PatTable \<Rightarrow> bool" where
  "typed_pat t \<longleftrightarrow> wf_pat t \<and> valid_pat_header (patHeader t)
     \<and> list_all (\<lambda>s. unat (pat_pid s) < 8192) (patServiceInfoArray t)"

text \<open>The parser does not mask the PCR PID, so that one is left out.\<close>

definition typed_pmt_header :: "PmtTableHeader \<Rightarrow> bool" where
  "typed_pmt_header h \<longleftrightarrow> pmt_tableId h \<in> {0, 2} \<and> unat (pmt_sectionSyntaxIndicator h) < 2
     \<and> unat (pmt_sectionLength h) < 4096 \<and> unat (pmt_versionNumber h) < 32
     \<and> unat (pmt_currentNextIndicator h) < 2 \<and> unat (programInfoLength h) < 4096"

definition typed_pmt :: "PmtTable \<Rightarrow> bool" where
  "typed_pmt t \<longleftrightarrow> wf_pmt t \<and> typed_pmt_header (pmtHeader t)
     \<and> list_all (\<lambda>e. unat (elementaryPid e) < 8192 \<and> unat (esInfoLength e) < 4096) (pmtElementaryInfoArray t)"

definition typed_tdt :: "TdtTable \<Rightarrow> bool" where
  "typed_tdt t \<longleftrightarrow> unat (tdt_sectionLength t) < 4096 \<and> unat (tdt_MJD t) < 65536 \<and> unat (tdt_K t) < 2"

fun typed_ptr :: "('t \<Rightarrow> bool) \<Rightarrow> 't heap_ptr \<Rightarrow> bool" where
  "typed_ptr P (Ptr t) = P t"
| "typed_ptr P _ = True"

text \<open>The arguments of a call that the platform documents a range for.\<close>

fun typed_call :: "'m tdp_call \<Rightarrow> bool" where
  "typed_call (Demux_Set_Filter h pid tableId) \<longleftrightarrow> unat pid < 8192 \<and> tableId \<in> {0x00, 0x02, 0x70, 0x73}"
| "typed_call (Player_Stream_Create p s pid kind) \<longleftrightarrow> unat pid < 8192"
| "typed_call (Player_Volume_Set p level) \<longleftrightarrow> unat level \<le> 10 * 160400000 \<and> 160400000 dvd unat level"
| "typed_call _ = True"

definition typed_state :: "('m, 'd, 'a) sc_state \<Rightarrow> bool" where
  "typed_state s \<longleftrightarrow> typed_ptr typed_pat (patTable s) \<and> typed_ptr typed_pmt (pmtTable s)
     \<and> typed_ptr typed_tdt (tdtTable s) \<and> typed_ptr wf_tot (totTable s)
     \<and> unat (sc_currentVolume s) \<le> 10 \<and> list_all typed_call (calls s)"

subsection \<open>The parsers store values of these types\<close>

lemma mask1_less: "unat ((b :: u8) AND 1) < 2"
  using unat_mask1 [of b] by simp

lemma mask5_less: "unat ((b :: u8) AND 0x1F) < 32"
  using unat_mask5 [of b] by simp

lemma parsePatHeader_typed:
  assumes "parsePatHeader (Some p) (Some h0) = Inr (rc, Some h)" and "deref p 0 = Inr 0"
  shows "rc = TABLES_PARSE_OK \<and> valid_pat_header h"
  using assms
  by (auto simp: parsePatHeader_def Let_def c_bind_eq_Inr valid_pat_header_def mask1_less mask5_less)

lemma pat_entry_pid: "pat_entry p = Inr e \<Longrightarrow> unat (pat_pid e) < 8192"
  by (auto simp: pat_entry_def c_bind_eq_Inr)

lemma list_all_update: "list_all P xs \<Longrightarrow> P x \<Longrightarrow> list_all P (xs[i := x])"
  by (auto simp: list_all_iff dest!: set_update_subset_insert [THEN subsetD])

lemma parsePatTable_typed:
  assumes "parsePatTable (Some p) (Some t) = Inr (rc, t1)" and "deref p 0 = Inr 0" and "typed_pat t"
  shows "\<exists>t'. t1 = Some t' \<and> typed_pat t'"
proof -
  obtain rc0 h where h: "parsePatHeader (Some p) (Some (patHeader t)) = Inr (rc0, Some h)"
    using assms(1,2)
    by (auto simp: parsePatTable_def parsePatHeader_def Let_def c_bind_eq_Inr)
  have ok: "rc0 = TABLES_PARSE_OK" "valid_pat_header h" using parsePatHeader_typed [OF h assms(2)] by simp_all
  let ?t0 = "t\<lparr>patHeader := h, serviceInfoCount := 0\<rparr>"
  obtain t' where t': "parsePatTable_loop (ptr_add p 8) 9 ?t0 = Inr (rc, t')" "t1 = Some t'"
    using assms(1) h ok(1) by (auto simp: parsePatTable_def Let_def c_bind_eq_Inr)
  have t0: "typed_pat ?t0" using assms(3) ok(2) by (simp add: typed_pat_def wf_pat_def)
  have "typed_pat t'"
  proof (rule pat.loop_keeps [where I = typed_pat, OF _ t'(1) t0])
    show "wf_pat ?t0" using t0 by (simp add: typed_pat_def)
    fix p e and t :: PatTable
    assume "wf_pat t" "unat (serviceInfoCount t) < TABLES_MAX_NUMBER_OF_PIDS_IN_PAT" "pat_entry p = Inr e" "typed_pat t"
    then show "typed_pat (pat_push t e)"
      using pat_entry_pid [of p e] pat.wf_push [of t e] by (simp add: typed_pat_def list_all_update)
  qed
  then show ?thesis using t'(2) by simp
qed

lemma parsePmtHeader_typed:
  assumes "parsePmtHeader (Some p) (Some h0) = Inr (rc, Some h)" and "deref p 0 = Inr 2"
  shows "rc = TABLES_PARSE_OK \<and> typed_pmt_header h"
  using assms
  by (auto simp: parsePmtHeader_def Let_def c_bind_eq_Inr typed_pmt_header_def mask1_less mask5_less)

lemma pmt_entry_pid: "pmt_entry p = Inr e \<Longrightarrow> unat (elementaryPid e) < 8192"
  by (auto simp: pmt_entry_def c_bind_eq_Inr)

lemma parsePmtTable_typed:
  assumes "parsePmtTable (Some p) (Some t) = Inr (rc, t1)" and "deref p 0 = Inr 2" and "typed_pmt t"
  shows "\<exists>t'. t1 = Some t' \<and> typed_pmt t'"
proof -
  obtain rc0 h where h: "parsePmtHeader (Some p) (Some (pmtHeader t)) = Inr (rc0, Some h)"
    using assms(1,2)
    by (auto simp: parsePmtTable_def parsePmtHeader_def Let_def c_bind_eq_Inr)
  have ok: "rc0 = TABLES_PARSE_OK" "typed_pmt_header h" using parsePmtHeader_typed [OF h assms(2)] by simp_all
  let ?t0 = "t\<lparr>pmtHeader := h, elementaryInfoCount := 0\<rparr>"
  obtain t' where t': "parsePmtTable_loop (ptr_add p (12 + unat (programInfoLength h)))
      (13 + ucast (programInfoLength h)) ?t0 = Inr (rc, t')" "t1 = Some t'"
    using assms(1) h ok(1) by (auto simp: parsePmtTable_def Let_def c_bind_eq_Inr)
  have t0: "typed_pmt ?t0" using assms(3) ok(2) by (simp add: typed_pmt_def wf_pmt_def)
  have "typed_pmt t'"
  proof (rule pmt.loop_keeps [where I = typed_pmt, OF _ t'(1) t0])
    show "wf_pmt ?t0" using t0 by (simp add: typed_pmt_def)
    fix p e and t :: PmtTable
    assume "wf_pmt t" "unat (elementaryInfoCount t) < TABLES_MAX_NUMBER_OF_ELEMENTARY_PID" "pmt_entry p = Inr e" "typed_pmt t"
    then show "typed_pmt (pmt_push t e)"
      using pmt_entry_pid [of p e] pmt_entry_esInfoLength [of p e] pmt.wf_push [of t e]
      by (simp add: typed_pmt_def list_all_update)
  qed
  then show ?thesis using t'(2) by simp
qed

lemma tdt_date_typed: "unat (tdt_K (tdt_date t)) < 2" "tdt_MJD (tdt_date t) = tdt_MJD t"
  "tdt_sectionLength (tdt_date t) = tdt_sectionLength t"
  by (simp_all add: tdt_date_def Let_def)

lemma parseTdtTable_typed:
  assumes "parseTdtTable (Some p) (Some t) = Inr (rc, t1)"
  shows "\<exists>t'. t1 = Some t' \<and> typed_tdt t'"
proof -
  have "unat (ucast w :: u64) < 65536" for w :: u16
    by (simp only: unsigned_ucast_eq take_bit_eq_mod) (rule le_less_trans [OF mod_less_eq_dividend unat_u16_less])
  then show ?thesis
    using assms by (auto simp: parseTdtTable_def Let_def c_bind_eq_Inr typed_tdt_def tdt_date_typed)
qed

subsection \<open>Every part keeps them\<close>

lemma typed_updates [simp]:
  "typed_state (s\<lparr>statusMutex := a\<rparr>) = typed_state s" "typed_state (s\<lparr>playerHandle := b\<rparr>) = typed_state s"
  "typed_state (s\<lparr>sourceHandle := b\<rparr>) = typed_state s" "typed_state (s\<lparr>streamHandleA := b\<rparr>) = typed_state s"
  "typed_state (s\<lparr>streamHandleV := b\<rparr>) = typed_state s" "typed_state (s\<lparr>filterHandle := b\<rparr>) = typed_state s"
  "typed_state (s\<lparr>threadExit := c\<rparr>) = typed_state s" "typed_state (s\<lparr>changeChannelFlag := a\<rparr>) = typed_state s"
  "typed_state (s\<lparr>programNumber := d\<rparr>) = typed_state s" "typed_state (s\<lparr>currentChannel := e\<rparr>) = typed_state s"
  "typed_state (s\<lparr>isInitialized := a\<rparr>) = typed_state s" "typed_state (s\<lparr>timeTablesRecieved := a\<rparr>) = typed_state s"
  "typed_state (s\<lparr>currentDate := f\<rparr>) = typed_state s" "typed_state (s\<lparr>client := g\<rparr>) = typed_state s"
  by (simp_all add: typed_state_def)

lemma typed_call_out: "call_out plat c s = (failed, out, s') \<Longrightarrow> typed_state s \<Longrightarrow> typed_call c \<Longrightarrow> typed_state s'"
  by (auto simp: call_out_def typed_state_def split: prod.splits)

lemma typed_call_void [simp]: "typed_state s \<Longrightarrow> typed_call c \<Longrightarrow> typed_state (call_void plat c s)"
  using typed_call_out [of plat c s "fst (call_out plat c s)" "fst (snd (call_out plat c s))"]
  by (simp add: call_void_def)

lemma typed_fold_calls: "typed_state s \<Longrightarrow> list_all typed_call cs \<Longrightarrow> typed_state (fold (call_void plat) cs s)"
  by (induction cs arbitrary: s) simp_all

lemma ptr_free_typed: "ptr_free p = Inr q \<Longrightarrow> typed_ptr P q"
  by (cases p) auto

lemma free_tables_typed: "free_tables s = Inr s' \<Longrightarrow> typed_state s \<Longrightarrow> typed_state s'"
  by (auto simp: free_tables_def c_bind_eq_Inr typed_state_def intro: ptr_free_typed)

lemma streamControllerDeinit_typed:
  assumes "streamControllerDeinit plat s = Inr (rc, s')" and "typed_state s"
  shows "typed_state s'"
  using assms
  by (auto simp: streamControllerDeinit_defs Let_def c_bind_eq_Inr
      split: if_splits prod.splits dest!: free_tables_typed typed_call_out)

lemma free_and_return_typed:
  "free_and_return plat cs s = Inr (pc, s') \<Longrightarrow> typed_state s \<Longrightarrow> list_all typed_call cs \<Longrightarrow> typed_state s'"
  by (auto simp: free_and_return_def c_bind_eq_Inr typed_fold_calls dest!: free_tables_typed)

lemma wait_over_typed: "wait_over plat timed_out s = Inr s' \<Longrightarrow> typed_state s \<Longrightarrow> typed_state s'"
  by (auto simp: wait_over_def c_bind_eq_Inr split: if_splits dest: streamControllerDeinit_typed)

lemma create_stream_failed_typed: "create_stream_failed plat failed s = Inr s' \<Longrightarrow> typed_state s \<Longrightarrow> typed_state s'"
  by (auto simp: create_stream_failed_def c_bind_eq_Inr split: if_splits dest: streamControllerDeinit_typed)

lemma service_pid_typed: "service_pid pat ch = Inr pid \<Longrightarrow> typed_pat pat \<Longrightarrow> unat pid < 8192"
  by (auto simp: service_pid_def array_get_def typed_pat_def list_all_length split: if_splits)

lemma ptr_read_typed: "ptr_read p = Inr t \<Longrightarrow> typed_ptr P p \<Longrightarrow> P t"
  by (cases p) auto

lemma startChannel_begin_typed:
  assumes "startChannel_begin plat ch s = Inr (pc, s')" and "typed_state s"
  shows "typed_state s'"
proof -
  let ?s = "call_void plat (Demux_Free_Filter (playerHandle s) (filterHandle s)) s"
  have t: "typed_state ?s" using assms(2) by simp
  obtain pat pid where p: "ptr_read (patTable ?s) = Inr pat" "service_pid pat ch = Inr pid"
    using assms(1) by (auto simp: startChannel_begin_def Let_def c_bind_eq_Inr)
  have "typed_pat pat" using t ptr_read_typed [OF p(1), of typed_pat] by (simp add: typed_state_def)
  then have c: "typed_call (Demux_Set_Filter (playerHandle ?s) pid 0x02 :: 'a tdp_call)" using service_pid_typed [OF p(2)] by simp
  obtain failed out s1 where o: "call_out plat (Demux_Set_Filter (playerHandle ?s) pid 0x02) ?s = (failed, out, s1)"
    by (rule prod_cases3)
  show ?thesis using assms(1) p o typed_call_out [OF o t c] by (auto simp: startChannel_begin_def Let_def split: if_splits)
qed

lemma changeChannelKey_begin_typed:
  "changeChannelKey_begin plat ch s = Inr (pc, s') \<Longrightarrow> typed_state s \<Longrightarrow> typed_state s'"
  by (auto simp: changeChannelKey_begin_def c_bind_eq_Inr split: if_splits dest: startChannel_begin_typed)

text \<open>The PIDs picked from the PMT: not found, or 13 bits wide.\<close>

definition typed_pid :: "i16 \<Rightarrow> bool" where
  "typed_pid pid \<longleftrightarrow> pid = -1 \<or> unat pid < 8192"

lemma select_pids_typed:
  "select_pids pmt i a v = Inr (a', v') \<Longrightarrow> typed_pmt pmt \<Longrightarrow> typed_pid a \<Longrightarrow> typed_pid v \<Longrightarrow> typed_pid a' \<and> typed_pid v'"
proof (induction pmt i a v rule: select_pids.induct)
  case (1 pmt i a v)
  show ?case
  proof (cases "i < elementaryInfoCount pmt")
    case True
    then obtain e where e: "array_get (pmtElementaryInfoArray pmt) (unat i) = Inr e"
      using "1.prems"(1) by (subst (asm) select_pids.simps) (auto simp: c_bind_eq_Inr)
    then have "typed_pid (elementaryPid e)"
      using "1.prems"(2) by (auto simp: array_get_def typed_pmt_def typed_pid_def list_all_length split: if_splits)
    then show ?thesis
      using 1 True e by (subst (asm) (4) select_pids.simps) (simp split: if_splits)
  next
    case False
    then show ?thesis using "1.prems" by (subst (asm) select_pids.simps) simp
  qed
qed

lemma start_video_typed:
  assumes "start_video plat pid s = Inr s'" and "typed_state s" and "typed_pid pid"
  shows "typed_state s'"
  using assms
  by (auto simp: start_video_def Let_def typed_pid_def split: if_splits prod.splits
      dest!: create_stream_failed_typed typed_call_out)

lemma start_audio_typed:
  assumes "start_audio plat pid s = Inr s'" and "typed_state s" and "typed_pid pid"
  shows "typed_state s'"
  using assms
  by (auto simp: start_audio_def Let_def typed_pid_def split: if_splits prod.splits
      dest!: create_stream_failed_typed typed_call_out)

lemma parseTimeTables_begin_typed: "parseTimeTables_begin plat s = (pc, s') \<Longrightarrow> typed_state s \<Longrightarrow> typed_state s'"
  by (auto simp: parseTimeTables_begin_def Let_def split: if_splits prod.splits dest!: typed_call_out)

lemma startChannel_pmt_typed:
  assumes "startChannel_pmt plat ch timed_out s = Inr (pc, s')" and "typed_state s"
  shows "typed_state s'"
proof -
  obtain s0 pmt a v s1 s2 where p: "wait_over plat timed_out s = Inr s0" "ptr_read (pmtTable s0) = Inr pmt"
      "select_pids pmt 0 (-1) (-1) = Inr (a, v)" "start_video plat v s0 = Inr s1" "start_audio plat a s1 = Inr s2"
    using assms(1) by (auto simp: startChannel_pmt_def c_bind_eq_Inr)
  have s0: "typed_state s0" using wait_over_typed [OF p(1) assms(2)] .
  then have "typed_pmt pmt" using ptr_read_typed [OF p(2), of typed_pmt] by (simp add: typed_state_def)
  then have "typed_pid a \<and> typed_pid v" using select_pids_typed [OF p(3)] by (simp add: typed_pid_def)
  then have "typed_state s2" using start_audio_typed [OF p(5)] start_video_typed [OF p(4) s0] by blast
  then show ?thesis
    using assms(1) by (auto simp: startChannel_pmt_def p Let_def split: if_splits dest: parseTimeTables_begin_typed)
qed

lemma parseTimeTables_tdt_typed:
  assumes "parseTimeTables_tdt plat timed_out s = Inr (pc, s')" and "typed_state s"
  shows "typed_state s'"
proof -
  obtain s0 where s0: "wait_over plat timed_out s = Inr s0"
    using assms(1) by (auto simp: parseTimeTables_tdt_def c_bind_eq_Inr)
  show ?thesis
    using assms(1) wait_over_typed [OF s0 assms(2)]
    by (auto simp: parseTimeTables_tdt_def s0 Let_def split: if_splits prod.splits dest!: typed_call_out)
qed

lemma startChannel_resume_typed:
  assumes "startChannel_resume plat timed_out pc s = Inr (pc', s')" and "typed_state s"
  shows "typed_state s'"
proof (cases pc)
  case Pmt_Wait
  then show ?thesis using assms startChannel_pmt_typed by auto
next
  case Tdt_Wait
  then show ?thesis using assms parseTimeTables_tdt_typed by auto
next
  case Tot_Wait
  then show ?thesis
    using assms by (auto simp: parseTimeTables_tot_def Let_def c_bind_eq_Inr split: option.splits dest!: wait_over_typed)
qed (use assms in auto)

lemma after_typed [simp]:
  "typed_state (snd (after_first r)) = typed_state (snd r)" "typed_state (snd (after_loop_start r)) = typed_state (snd r)"
  by (cases r; simp add: after_first_def after_loop_start_def)+

lemma task_resume_typed:
  assumes "task_resume plat pc s = Inr (pc', s')" and "typed_state s" and "task_waiting pc"
  shows "typed_state s'"
proof -
  have after: "typed_state s'" if "after_first r = (pc', s') \<or> after_loop_start r = (pc', s')" "typed_state (snd r)" for r
    using that by (metis after_typed snd_conv)
  show ?thesis
  proof (cases pc)
    case Pat_Wait
    then obtain r where r: "startChannel_begin plat (sint (programNumber s)) s = Inr r" "after_first r = (pc', s')"
      using assms(1) by (auto simp: streamControllerTask_pat_def c_bind_eq_Inr)
    show ?thesis
      using after [OF disjI1 [OF r(2)]] startChannel_begin_typed [of plat _ s "fst r" "snd r"] r(1) assms(2) by simp
  next
    case (First_Start p)
    then obtain r where r: "startChannel_resume plat False p s = Inr r" "after_first r = (pc', s')"
      using assms(1) by (auto simp: c_bind_eq_Inr)
    show ?thesis
      using after [OF disjI1 [OF r(2)]] startChannel_resume_typed [of plat False p s "fst r" "snd r"] r(1) assms(2) by simp
  next
    case (Loop_Start p)
    then obtain r where r: "startChannel_resume plat False p s = Inr r" "after_loop_start r = (pc', s')"
      using assms(1) by (auto simp: c_bind_eq_Inr)
    show ?thesis
      using after [OF disjI2 [OF r(2)]] startChannel_resume_typed [of plat False p s "fst r" "snd r"] r(1) assms(2) by simp
  qed (use assms(3) in auto)
qed

lemma task_round_typed:
  assumes "streamControllerTask_round plat s = Inr (pc, s')" and "typed_state s"
  shows "typed_state s'"
proof (cases "threadExit s \<noteq> 0 \<or> \<not> changeChannelFlag s")
  case False
  then obtain r where r: "startChannel_begin plat (sint (programNumber s)) (s\<lparr>changeChannelFlag := False\<rparr>) = Inr r"
    "after_loop_start r = (pc, s')"
    using assms(1) by (auto simp: streamControllerTask_round_def c_bind_eq_Inr)
  then show ?thesis
    using startChannel_begin_typed [of plat _ "s\<lparr>changeChannelFlag := False\<rparr>" "fst r" "snd r"] assms(2)
    by (metis after_typed(2) prod.collapse snd_conv typed_updates(8))
qed (use assms in \<open>auto simp: streamControllerTask_round_def split: if_splits\<close>)

lemma status_typed:
  assumes "streamControllerTask_status plat timed_out s = Inr (pc, s')" and "typed_state s"
  shows "typed_state s'"
  using assms
  by (auto simp: streamControllerTask_status_def Let_def split: if_splits prod.splits
      dest!: typed_call_out free_and_return_typed)

lemma typed_volume:
  "unat (sc_currentVolume s) \<le> 10 \<Longrightarrow> typed_call (Player_Volume_Set h (sc_currentVolume s * volumeConstant))"
  by (simp add: unat_volume_product)

lemma typed_set_volume: "typed_state s \<Longrightarrow> unat v \<le> 10 \<Longrightarrow> typed_state (s\<lparr>sc_currentVolume := v\<rparr>)"
  by (simp add: typed_state_def)

lemma report_volume_typed:
  assumes "report_volume (call_void plat (Player_Volume_Set (playerHandle s) (sc_currentVolume s * volumeConstant)) s) = Inr s'"
    and "typed_state s"
  shows "typed_state s'"
proof -
  have "typed_state (call_void plat (Player_Volume_Set (playerHandle s) (sc_currentVolume s * volumeConstant)) s)"
    using assms(2) by (intro typed_call_void typed_volume) (simp_all add: typed_state_def)
  then show ?thesis using assms(1) by (auto simp: report_volume_def split: option.splits)
qed

lemma key_typed:
  assumes "key_op plat k s = Inr s'" and "typed_state s"
  shows "typed_state s'"
proof (cases k)
  case V_Plus
  let ?v = "sc_currentVolume s + 1"
  let ?s = "s\<lparr>sc_currentVolume := if ?v > 10 then 10 else ?v\<rparr>"
  have "typed_state ?s"
    using assms(2) by (intro typed_set_volume) (simp_all add: volume_u32 not_less)
  moreover have "report_volume (call_void plat (Player_Volume_Set (playerHandle ?s) (sc_currentVolume ?s * volumeConstant)) ?s) = Inr s'"
    using assms(1) V_Plus by (simp add: volumeUp_def Let_def split: if_splits)
  ultimately show ?thesis by (rule report_volume_typed [rotated])
next
  case V_Minus
  let ?v = "if sc_currentVolume s > 0 then sc_currentVolume s - 1 else sc_currentVolume s"
  have "unat (sc_currentVolume s) \<le> 10" using assms(2) by (simp add: typed_state_def)
  then have "unat ?v \<le> 10" by (auto simp: word_greater_zero_iff unat_minus_one)
  then have "typed_state (s\<lparr>sc_currentVolume := ?v\<rparr>)" (is "typed_state ?s") using assms(2) by (intro typed_set_volume)
  moreover have "report_volume (call_void plat (Player_Volume_Set (playerHandle ?s) (sc_currentVolume ?s * volumeConstant)) ?s) = Inr s'"
    using assms(1) V_Minus by (simp add: volumeDown_def Let_def split: if_splits)
  ultimately show ?thesis by (rule report_volume_typed [rotated])
next
  case Mute
  then show ?thesis using assms by (auto simp: volumeMute_def intro!: typed_set_volume)
qed (use assms in \<open>auto simp: channelUp_def channelDown_def Let_def c_bind_eq_Inr split: if_splits\<close>)

text \<open>What a parser leaves behind the pointer it was given, \<open>NULL\<close> included.\<close>

lemma parser_result_typed:
  assumes "ptr_arg q = Inr arg"
  shows "parsePatTable (Some p) arg = Inr (rc, r1) \<Longrightarrow> typed_ptr typed_pat q \<Longrightarrow> deref p 0 = Inr 0 \<Longrightarrow> typed_ptr typed_pat (ptr_back r1)"
  by (cases q) (use assms in \<open>auto simp: parsePatTable_def [of _ None] dest: parsePatTable_typed\<close>)

lemma parser_result_typed_pmt:
  assumes "ptr_arg q = Inr arg"
  shows "parsePmtTable (Some p) arg = Inr (rc, r1) \<Longrightarrow> typed_ptr typed_pmt q \<Longrightarrow> deref p 0 = Inr 2 \<Longrightarrow> typed_ptr typed_pmt (ptr_back r1)"
  by (cases q) (use assms in \<open>auto simp: parsePmtTable_def [of _ None] dest: parsePmtTable_typed\<close>)

lemma parser_result_typed_time:
  "ptr_arg q = Inr arg \<Longrightarrow> parseTdtTable (Some p) arg = Inr (rc, r1) \<Longrightarrow> typed_ptr typed_tdt (ptr_back r1)"
  "ptr_arg u = Inr arg' \<Longrightarrow> parseTotTable (Some p) arg' = Inr (rc, r2) \<Longrightarrow> typed_ptr wf_tot u \<Longrightarrow> typed_ptr wf_tot (ptr_back r2)"
  subgoal by (cases q) (auto simp: parseTdtTable_def [of _ None] dest: parseTdtTable_typed)
  subgoal by (cases u) (auto simp: parseTotTable_def [of _ None] elim!: parseTotTable_keeps_wf [rotated])
  done

lemma section_typed:
  assumes "sectionReceivedCallback plat (Some p) s = Inr (sig, s')" and "typed_state s"
  shows "typed_state s'"
  using assms
  by (auto simp: sectionReceivedCallback_def c_bind_eq_Inr typed_state_def split: if_splits
      dest: parser_result_typed parser_result_typed_pmt parser_result_typed_time)

lemma task_begin_typed:
  assumes "streamControllerTask_begin plat s = Inr (pc, s')" and "typed_state s"
  shows "typed_state s'"
proof -
  have zero: "typed_pat zero_PatTable" "typed_pmt zero_PmtTable" "typed_tdt zero_TdtTable" "wf_tot zero_TotTable"
    using wf_zero_tables
    by (simp_all add: typed_pat_def typed_pmt_def typed_tdt_def valid_pat_header_def typed_pmt_header_def list_all_iff)
      (simp_all add: zero_PatTable_def zero_PmtTable_def zero_TdtTable_def)
  have alloc: "typed_state s1 \<and> (p = Null \<or> p = Ptr z)" if "alloc_zeroed plat z s = (p, s1)" "typed_state s" for z p and s s1 :: "('a, 'b, 'c) sc_state"
    using that by (auto simp: alloc_zeroed_def split: prod.splits if_splits dest: typed_call_out)
  have set: "typed_ptr typed_pat q1 \<Longrightarrow> typed_state (s\<lparr>patTable := q1\<rparr>)" "typed_ptr typed_pmt q2 \<Longrightarrow> typed_state (s\<lparr>pmtTable := q2\<rparr>)"
    "typed_ptr typed_tdt q3 \<Longrightarrow> typed_state (s\<lparr>tdtTable := q3\<rparr>)" "typed_ptr wf_tot q4 \<Longrightarrow> typed_state (s\<lparr>totTable := q4\<rparr>)"
    if "typed_state s" for s :: "('a, 'b, 'c) sc_state" and q1 q2 q3 q4
    using that by (simp_all add: typed_state_def)
  have tuner: "typed_state s'" if "task_tuner plat s = Inr (pc, s')" "typed_state s" for s
    using that by (auto simp: task_tuner_def Let_def split: if_splits prod.splits dest!: typed_call_out free_and_return_typed)
  show ?thesis
    using assms
    by (auto simp: streamControllerTask_begin_def Let_def zero set split: prod.splits if_splits dest!: alloc tuner)
qed

subsection \<open>All states of an execution\<close>

text \<open>
  The states the machine can be in, without any assumption on the environment: any bytes, any keys,
  any answers of the platform.
\<close>

inductive sc_exec :: "('m, 'd) platform \<Rightarrow> ('m, 'd, 'a) sc_state \<Rightarrow> ('m, 'd, 'a) machine \<Rightarrow> bool"
  for plat :: "('m, 'd) platform" and s\<^sub>0 :: "('m, 'd, 'a) sc_state" where
  exec_start: "streamControllerTask_begin plat s\<^sub>0 = Inr (pc, s) \<Longrightarrow> sc_exec plat s\<^sub>0 (machine_start pc s)"
| exec_step: "sc_exec plat s\<^sub>0 m \<Longrightarrow> sc_step plat e m m' \<Longrightarrow> sc_exec plat s\<^sub>0 m'"

lemma wake_ctl: "ctl (wake w m) = ctl m"
  by (cases w) simp_all

lemma sc_step_typed:
  assumes "sc_step plat e m m'" and "typed_state (ctl m)"
  shows "typed_state (ctl m')"
  using assms(1)
  by cases (use assms(2) in \<open>auto simp: wake_ctl
      intro: status_typed task_resume_typed task_round_typed changeChannelKey_begin_typed startChannel_resume_typed
        section_typed key_typed\<close>)

text \<open>
  C7. Type safety of the stream controller. From a state whose tables (if any) and volume are in
  range and in which nothing has been passed out of range, in every state any execution reaches,
  whatever bytes arrive as sections, whatever keys are pressed, however the platform answers and
  in whatever order the threads run: the arrays of the PAT and the PMT have 20 elements, of which
  at most 20 are counted, every slot of them (counted or not) holds a PID of 13 bits and a descriptor
  length of 12 bits, and the header fields fit their widths; the date code of the TDT has 16 bits;
  the arrays of the TOT keep their sizes; the volume is at most 10; and of all calls made so far,
  every filter was set for a 13-bit PID and one of the four table ids, every stream was created for a
  13-bit PID and every volume set is a multiple of 160400000 up to ten times that value.
\<close>

theorem values_stay_typed:
  assumes "sc_exec plat s\<^sub>0 m" and "typed_state s\<^sub>0"
  shows "typed_state (ctl m)"
  using assms(1)
proof (induction rule: sc_exec.induct)
  case (exec_start pc s)
  then show ?case using task_begin_typed [OF _ assms(2)] by (simp add: machine_start_def)
next
  case (exec_step m e m')
  then show ?case by (blast intro: sc_step_typed)
qed

lemma controller_start_typed: "typed_state controller_start"
  by (simp add: typed_state_def controller_start_def initial_state_def)

text \<open>A PAT that arrives at once, before the callback has even been registered.\<close>

theorem values_stay_typed_witness:
  "\<exists>m t. sc_exec ideal_platform controller_start m \<and> typed_state controller_start \<and> patTable (ctl m) = Ptr t
     \<and> list_all (\<lambda>s. unat (pat_pid s) < 8192) (patServiceInfoArray t)"
proof -
  obtain s where b: "streamControllerTask_begin ideal_platform controller_start = Inr (Status_Lock, s)"
    and s: "patTable s = Ptr zero_PatTable"
    using task_begin_ok [OF ideal_calls_succeed, of controller_start] by (auto simp: allocated_def)
  let ?m = "machine_start Status_Lock s"
  have "whole_section 8 pat_example" by code_simp
  then obtain rc t where "parsePatTable (Some (pat_example, 0)) (Some zero_PatTable) = Inr (rc, Some t)"
    using parsePatTable_bytes [OF _ wf_zero_tables(1)] by blast
  then have r: "sectionReceivedCallback ideal_platform (Some (pat_example, 0)) (ctl ?m) =
      Inr (rc = TABLES_PARSE_OK, s\<lparr>patTable := Ptr t\<rparr>)"
    using s by (simp add: sectionReceivedCallback_def machine_start_def) (simp add: pat_example_def)
  have "sc_step ideal_platform (Section pat_example Nobody) ?m (wake Nobody (?m\<lparr>ctl := s\<lparr>patTable := Ptr t\<rparr>\<rparr>))"
    by (rule section_arrives [OF r]) (simp add: task_blocked_def machine_start_def)
  then have e: "sc_exec ideal_platform controller_start (?m\<lparr>ctl := s\<lparr>patTable := Ptr t\<rparr>\<rparr>)"
    using exec_step [OF exec_start [OF b]] by simp
  show ?thesis
    using values_stay_typed [OF e controller_start_typed] e controller_start_typed
    by (intro exI [of _ "?m\<lparr>ctl := s\<lparr>patTable := Ptr t\<rparr>\<rparr>"] exI [of _ t]) (simp add: typed_state_def typed_pat_def)
qed

end
