(* ===== verification/Graphics_Controller.thy ===== *)
theory Graphics_Controller
  imports Heap_Ptr Printf "HOL-Library.Signed_Division"
begin

section \<open>The graphics controller (graphics\_controller.h, graphics\_controller.c)\<close>

text \<open>
  The overlays with their timers, the rendering of one frame, initialisation and
  shutdown. DirectFB answers calls through the parameter \<open>dfb\<close>; a failing call inside
  \<open>DFBCHECK\<close> ends the program. Screen coordinates are \<open>int\<close>; the code multiplies
  them by at most 4, far from overflow for any screen.
\<close>

subsection \<open>Calls to DirectFB and the thread library\<close>

datatype dfb_call =
    DirectFBInit | DirectFBCreate | SetCooperativeLevel
  | CreatePrimarySurface | GetScreenSize | CreateFont | SetFont
  | SetColor u8 u8 u8 u8 | FillRectangle int int int int
  | CreateImageProvider string | GetSurfaceDescription | CreateLogoSurface | RenderTo
  | ReleaseProvider | GetLogoSize | Blit int int | DrawString string int int | Flip
  | ReleasePrimary | ReleaseInterface
  | Render_Thread_Create | Render_Thread_Join

text \<open>An answer: whether the call failed, the size it reports, the state of the platform.\<close>

type_synonym 'd dfb = "dfb_call \<Rightarrow> 'd \<Rightarrow> bool \<times> (int \<times> int) \<times> 'd"

subsection \<open>State\<close>

text \<open>\<open>graphicsMutex\<close> is true while a thread holds the mutex.\<close>

datatype GraphicsControllerError = GC_NO_ERROR | GC_ERROR | GC_THREAD_ERROR

record DrawComponents =
  showProgramNumber :: bool
  showVolume :: bool
  showInfo :: bool
  showChannelDial :: bool
  draw_programNumber :: int
  draw_volume_level :: int

text \<open>A timer: not created, idle, or running towards its expiry in some seconds.\<close>

datatype timer = Timer_None | Timer_Idle | Timer_Armed nat

record 'd gc_state =
  primary :: "unit heap_ptr"
  dfbInterface :: "unit heap_ptr"
  screenWidth :: int
  screenHeight :: int
  stopDrawing :: u8
  graphicsMutex :: bool
  componentsToDraw :: DrawComponents
  programNumberTimer :: timer
  volumeTimer :: timer
  infoTimer :: timer
  YearToDraw :: u16
  tmpMonthToDraw :: u8
  dayToDraw :: u8
  audioPidToDraw :: i16
  videoPidToDraw :: i16
  provider :: "string heap_ptr"
  logoSurface :: "string heap_ptr"
  gc_calls :: "dfb_call list"
  gc_device :: 'd

definition dfb_out :: "'d dfb \<Rightarrow> dfb_call \<Rightarrow> 'd gc_state \<Rightarrow> bool \<times> (int \<times> int) \<times> 'd gc_state" where
  "dfb_out dfb c s =
    (case dfb c (gc_device s) of (failed, sz, d) \<Rightarrow> (failed, sz, s\<lparr>gc_calls := gc_calls s @ [c], gc_device := d\<rparr>))"

text \<open>A call whose result is not looked at, and one inside \<open>DFBCHECK\<close>.\<close>

definition dfb_do :: "'d dfb \<Rightarrow> dfb_call \<Rightarrow> 'd gc_state \<Rightarrow> 'd gc_state" where
  "dfb_do dfb c s = snd (snd (dfb_out dfb c s))"

definition DFBCHECK :: "'d dfb \<Rightarrow> dfb_call \<Rightarrow> 'd gc_state \<Rightarrow> ((int \<times> int) \<times> 'd gc_state) c_res" where
  "DFBCHECK dfb c s =
    (case dfb_out dfb c s of (failed, sz, s) \<Rightarrow> if failed then Inl Program_Exit else Inr (sz, s))"

definition dfb_checked :: "'d dfb \<Rightarrow> dfb_call \<Rightarrow> 'd gc_state \<Rightarrow> 'd gc_state c_res" where
  "dfb_checked dfb c s = c_bind (DFBCHECK dfb c s) (\<lambda>(_, s). Inr s)"

text \<open>A call of a method, \<open>p->f(p, ...)\<close>: the pointer is followed first.\<close>

definition call_through :: "('s \<Rightarrow> 'p heap_ptr) \<Rightarrow> ('s \<Rightarrow> 'b c_res) \<Rightarrow> 's \<Rightarrow> 'b c_res" where
  "call_through p f s = c_bind (ptr_read (p s)) (\<lambda>_. f s)"

subsection \<open>Overlays and timers\<close>

definition setTimerParams :: "'d gc_state \<Rightarrow> 'd gc_state" where
  "setTimerParams s = s\<lparr>programNumberTimer := Timer_Idle, volumeTimer := Timer_Idle, infoTimer := Timer_Idle\<rparr>"

definition drawProgramNumber :: "'d gc_state \<Rightarrow> 'd gc_state" where
  "drawProgramNumber s =
    (let s = s\<lparr>programNumberTimer := Timer_Armed 4\<rparr>
     in s\<lparr>componentsToDraw := (componentsToDraw s)\<lparr>showProgramNumber := True\<rparr>\<rparr>)"

definition drawVolumeBar :: "u8 \<Rightarrow> 'd gc_state \<Rightarrow> 'd gc_state" where
  "drawVolumeBar volumeValue s =
    (let s = s\<lparr>componentsToDraw := (componentsToDraw s)\<lparr>draw_volume_level := uint volumeValue\<rparr>\<rparr>;
         s = s\<lparr>volumeTimer := Timer_Armed 3\<rparr>
     in s\<lparr>componentsToDraw := (componentsToDraw s)\<lparr>showVolume := True\<rparr>\<rparr>)"

definition drawInfoRect :: "u8 \<Rightarrow> u8 \<Rightarrow> u16 \<Rightarrow> i16 \<Rightarrow> i16 \<Rightarrow> 'd gc_state \<Rightarrow> 'd gc_state" where
  "drawInfoRect tmpMonth day Year audioPid videoPid s =
    (let s = s\<lparr>infoTimer := Timer_Armed 3\<rparr>;
         s = s\<lparr>audioPidToDraw := audioPid, videoPidToDraw := videoPid\<rparr>;
         s = s\<lparr>YearToDraw := Year, tmpMonthToDraw := tmpMonth, dayToDraw := day\<rparr>
     in s\<lparr>componentsToDraw := (componentsToDraw s)\<lparr>showInfo := True\<rparr>\<rparr>)"

definition removeProgramNumber :: "'d gc_state \<Rightarrow> 'd gc_state" where
  "removeProgramNumber s = s\<lparr>componentsToDraw := (componentsToDraw s)\<lparr>showProgramNumber := False\<rparr>\<rparr>"

definition removeVolumeBar :: "'d gc_state \<Rightarrow> 'd gc_state" where
  "removeVolumeBar s = s\<lparr>componentsToDraw := (componentsToDraw s)\<lparr>showVolume := False\<rparr>\<rparr>"

definition removeInfo :: "'d gc_state \<Rightarrow> 'd gc_state" where
  "removeInfo s = s\<lparr>componentsToDraw := (componentsToDraw s)\<lparr>showInfo := False\<rparr>\<rparr>"

definition removeChannelDial :: "'d gc_state \<Rightarrow> 'd gc_state" where
  "removeChannelDial s = s\<lparr>componentsToDraw := (componentsToDraw s)\<lparr>showChannelDial := False\<rparr>\<rparr>"

text \<open>
  The expiry of a one-shot timer runs its notification function. Which function belongs
  to which timer is set up by \<open>setTimerParams\<close>.
\<close>

datatype overlay = Program_Overlay | Volume_Overlay | Info_Overlay

fun overlay_timer :: "overlay \<Rightarrow> 'd gc_state \<Rightarrow> timer" where
  "overlay_timer Program_Overlay s = programNumberTimer s"
| "overlay_timer Volume_Overlay s = volumeTimer s"
| "overlay_timer Info_Overlay s = infoTimer s"

fun overlay_shown :: "overlay \<Rightarrow> 'd gc_state \<Rightarrow> bool" where
  "overlay_shown Program_Overlay s = showProgramNumber (componentsToDraw s)"
| "overlay_shown Volume_Overlay s = showVolume (componentsToDraw s)"
| "overlay_shown Info_Overlay s = showInfo (componentsToDraw s)"

fun timer_expires :: "overlay \<Rightarrow> 'd gc_state \<Rightarrow> 'd gc_state" where
  "timer_expires Program_Overlay s = removeProgramNumber (s\<lparr>programNumberTimer := Timer_Idle\<rparr>)"
| "timer_expires Volume_Overlay s = removeVolumeBar (s\<lparr>volumeTimer := Timer_Idle\<rparr>)"
| "timer_expires Info_Overlay s = removeInfo (s\<lparr>infoTimer := Timer_Idle\<rparr>)"

subsection \<open>Rendering\<close>

definition wipeScreen :: "'d dfb \<Rightarrow> 'd gc_state \<Rightarrow> 'd gc_state c_res" where
  "wipeScreen dfb s =
    c_bind (call_through primary (dfb_checked dfb (SetColor 0x00 0x00 0x00 0x00)) s)
      (call_through primary (dfb_checked dfb (FillRectangle 0 0 (screenWidth s) (screenHeight s))))"

text \<open>The image the \<open>switch\<close> selects; other levels have no case.\<close>

definition volume_image :: "int \<Rightarrow> string option" where
  "volume_image v = (if 0 \<le> v \<and> v \<le> 10 then Some (''volume_'' @ show_int v @ ''.png'') else None)"

definition render_volume :: "'d dfb \<Rightarrow> 'd gc_state \<Rightarrow> 'd gc_state c_res" where
  "render_volume dfb s =
    c_bind (case volume_image (draw_volume_level (componentsToDraw s)) of
              None \<Rightarrow> Inr s
            | Some file \<Rightarrow> c_bind (call_through dfbInterface (dfb_checked dfb (CreateImageProvider file)) s)
                (\<lambda>s. Inr (s\<lparr>provider := Ptr file\<rparr>))) (\<lambda>s.
    c_bind (ptr_read (provider s)) (\<lambda>image.
    c_bind (call_through provider (dfb_checked dfb GetSurfaceDescription) s) (\<lambda>s.
    c_bind (call_through dfbInterface (dfb_checked dfb CreateLogoSurface) s) (\<lambda>s.
    c_bind (call_through provider (dfb_checked dfb RenderTo) (s\<lparr>logoSurface := Ptr image\<rparr>)) (\<lambda>s.
    c_bind (call_through provider (\<lambda>s. Inr ((dfb_do dfb ReleaseProvider s)\<lparr>provider := Freed\<rparr>)) s) (\<lambda>s.
    c_bind (call_through logoSurface (DFBCHECK dfb GetLogoSize) s) (\<lambda>((logoWidth, logoHeight), s).
    call_through primary (dfb_checked dfb (Blit (screenWidth s - logoWidth - 100) 350)) s)))))))"

text \<open>\<open>sprintf\<close> into an array of \<open>n\<close> characters.\<close>

definition c_sprintf :: "nat \<Rightarrow> string \<Rightarrow> string c_res" where
  "c_sprintf n text = (if length text < n then Inr text else Inl Write_Out_Of_Bounds)"

definition TEMP_STRING :: nat where
  "TEMP_STRING = 10"

definition pid_text :: "string \<Rightarrow> i16 \<Rightarrow> string" where
  "pid_text label pid = label @ show_int (sint pid)"

text \<open>The text of the date; \<open>None\<close> where the code writes nothing.\<close>

definition date_text :: "u16 \<Rightarrow> u8 \<Rightarrow> u8 \<Rightarrow> string option" where
  "date_text year month day =
    (if year = 0 then Some ''Date not available''
     else if 1 \<le> unat month \<and> unat month \<le> 12
     then Some (month_names ! (unat month - 1) @ ''/'' @ pad_zeros 2 (show_nat (unat day)) @ ''/''
            @ pad_zeros 4 (show_nat (unat year)))
     else None)"

definition render_info :: "'d dfb \<Rightarrow> 'd gc_state \<Rightarrow> 'd gc_state c_res" where
  "render_info dfb s =
    c_bind (call_through primary (\<lambda>s. Inr (dfb_do dfb (SetColor 0xe0 0x91 0xd7 0xEF) s)) s) (\<lambda>s.
    c_bind (call_through primary (\<lambda>s. Inr (dfb_do dfb (FillRectangle (3 * screenWidth s sdiv 10) (3 * screenHeight s sdiv 4)
              (4 * screenWidth s sdiv 10) (screenHeight s sdiv 5)) s)) s) (\<lambda>s.
    c_bind (call_through primary (dfb_checked dfb (SetColor 0x00 0x00 0x00 0xFF)) s) (\<lambda>s.
    let x = 3 * screenWidth s sdiv 9 - 50 in
    c_bind (c_sprintf TEMP_STRING (pid_text ''Video PID : '' (videoPidToDraw s))) (\<lambda>tempString.
    c_bind (call_through primary (dfb_checked dfb (DrawString tempString x (3 * screenHeight s sdiv 4 + 40))) s) (\<lambda>s.
    c_bind (c_sprintf TEMP_STRING (pid_text ''Audio PID : '' (audioPidToDraw s))) (\<lambda>tempString.
    c_bind (call_through primary (dfb_checked dfb (DrawString tempString x (3 * screenHeight s sdiv 4 + 80))) s) (\<lambda>s.
    c_bind (case date_text (YearToDraw s) (tmpMonthToDraw s) (dayToDraw s) of
              None \<Rightarrow> Inr tempString
            | Some text \<Rightarrow> c_sprintf TEMP_STRING text) (\<lambda>tempString.
    call_through primary (dfb_checked dfb (DrawString tempString x (screenHeight s - 60))) s))))))))"

definition renderFrame :: "'d dfb \<Rightarrow> 'd gc_state \<Rightarrow> 'd gc_state c_res" where
  "renderFrame dfb s =
    c_bind (wipeScreen dfb s) (\<lambda>s.
    c_bind (if showVolume (componentsToDraw s) then render_volume dfb s else Inr s) (\<lambda>s.
    c_bind (if showInfo (componentsToDraw s) then render_info dfb s else Inr s) (\<lambda>s.
    call_through primary (dfb_checked dfb Flip) s)))"

text \<open>
  One round of \<open>while (!stopDrawing)\<close>; \<open>True\<close> when the loop is left, which is where the
  thread locks \<open>graphicsMutex\<close>, signals \<open>graphicsCond\<close> and unlocks the mutex.
\<close>

definition renderThread_round :: "'d dfb \<Rightarrow> 'd gc_state \<Rightarrow> (bool \<times> 'd gc_state) c_res" where
  "renderThread_round dfb s =
    (if stopDrawing s \<noteq> 0 then Inr (True, s) else c_bind (renderFrame dfb s) (\<lambda>s. Inr (False, s)))"

subsection \<open>Initialisation and deinitialisation\<close>

definition graphicsControllerInit ::
  "'d dfb \<Rightarrow> 'd gc_state \<Rightarrow> (GraphicsControllerError \<times> 'd gc_state) c_res" where
  "graphicsControllerInit dfb s =
    (case dfb_out dfb DirectFBInit s of (failed, _, s) \<Rightarrow>
     if failed then Inr (GC_ERROR, s) else
     let s = setTimerParams s;
         s = s\<lparr>componentsToDraw := \<lparr>showProgramNumber = False, showVolume = False, showInfo = False,
                 showChannelDial = False, draw_programNumber = 0, draw_volume_level = 0\<rparr>\<rparr>
     in case dfb_out dfb DirectFBCreate s of (failed, _, s) \<Rightarrow>
     if failed then Inr (GC_ERROR, s) else
     case dfb_out dfb SetCooperativeLevel (s\<lparr>dfbInterface := Ptr ()\<rparr>) of (failed, _, s) \<Rightarrow>
     if failed then Inr (GC_ERROR, s) else
     case dfb_out dfb CreatePrimarySurface s of (failed, _, s) \<Rightarrow>
     if failed then Inr (GC_ERROR, s) else
     case dfb_out dfb GetScreenSize (s\<lparr>primary := Ptr ()\<rparr>) of (failed, (w, h), s) \<Rightarrow>
     if failed then Inr (GC_ERROR, s) else
     c_bind (dfb_checked dfb CreateFont (s\<lparr>screenWidth := w, screenHeight := h\<rparr>)) (\<lambda>s.
     c_bind (dfb_checked dfb SetFont s) (\<lambda>s.
     case dfb_out dfb Render_Thread_Create s of (failed, _, s) \<Rightarrow>
     if failed then Inr (GC_THREAD_ERROR, s) else Inr (GC_NO_ERROR, s))))"

text \<open>
  \<open>graphicsControllerDeinit\<close> up to its wait for \<open>graphicsCond\<close>, the wait, and what follows. The wait
  releases \<open>graphicsMutex\<close>, which the function never locked, and takes it again before it returns;
  nothing unlocks it afterwards.
\<close>

definition graphicsControllerDeinit_begin :: "'d gc_state \<Rightarrow> 'd gc_state" where
  "graphicsControllerDeinit_begin s = s\<lparr>stopDrawing := 1\<rparr>"

definition graphicsControllerDeinit_wait :: "'d gc_state \<Rightarrow> 'd gc_state" where
  "graphicsControllerDeinit_wait s = s\<lparr>graphicsMutex := False\<rparr>"

definition graphicsControllerDeinit_wake :: "'d gc_state \<Rightarrow> 'd gc_state" where
  "graphicsControllerDeinit_wake s = s\<lparr>graphicsMutex := True\<rparr>"

definition graphicsControllerDeinit_finish ::
  "'d dfb \<Rightarrow> 'd gc_state \<Rightarrow> (GraphicsControllerError \<times> 'd gc_state) c_res" where
  "graphicsControllerDeinit_finish dfb s =
    (case dfb_out dfb Render_Thread_Join s of (failed, _, s) \<Rightarrow>
     if failed then Inr (GC_THREAD_ERROR, s) else
     let s = s\<lparr>programNumberTimer := Timer_None, volumeTimer := Timer_None, infoTimer := Timer_None\<rparr> in
     c_bind (ptr_read (primary s)) (\<lambda>_.
     c_bind (ptr_read (dfbInterface s)) (\<lambda>_.
     Inr (GC_NO_ERROR,
       (dfb_do dfb ReleaseInterface ((dfb_do dfb ReleasePrimary s)\<lparr>primary := Freed\<rparr>))\<lparr>dfbInterface := Freed\<rparr>))))"

end
