(* ===== verification/Remote_Controller.thy ===== *)
theory Remote_Controller
  imports Prelude
begin

section \<open>The remote controller (remote\_controller.h, remote\_controller.c)\<close>

text \<open>
  The thread that reads input events from the device and hands key presses to the
  registered callback. The device is the list of what its reads return: \<open>None\<close> for a
  read that fails or ends, an event otherwise; where the list ends the thread is
  still inside \<open>read\<close>. The event type \<open>EV_KEY\<close> of the operating system is a parameter.
\<close>

subsection \<open>Constants and state\<close>

definition KEYCODE_EXIT :: u16 where "KEYCODE_EXIT = 102"
definition KEYCODE_P_PLUS :: u16 where "KEYCODE_P_PLUS = 62"
definition KEYCODE_P_MINUS :: u16 where "KEYCODE_P_MINUS = 61"
definition KEYCODE_V_PLUS :: u16 where "KEYCODE_V_PLUS = 63"
definition KEYCODE_V_MINUS :: u16 where "KEYCODE_V_MINUS = 64"
definition KEYCODE_INFO :: u16 where "KEYCODE_INFO = 358"
definition KEYCODE_MUTE :: u16 where "KEYCODE_MUTE = 60"
definition KEYCODE_0 :: u16 where "KEYCODE_0 = 11"

text \<open>\<open>KEYCODE_1\<close> to \<open>KEYCODE_9\<close> are 2 to 10.\<close>

definition KEYCODE_digit :: "nat \<Rightarrow> u16" where
  "KEYCODE_digit n = (if n = 0 then KEYCODE_0 else of_nat (n + 1))"

lemmas keycodes = KEYCODE_EXIT_def KEYCODE_P_PLUS_def KEYCODE_P_MINUS_def KEYCODE_V_PLUS_def
  KEYCODE_V_MINUS_def KEYCODE_INFO_def KEYCODE_MUTE_def KEYCODE_0_def KEYCODE_digit_def

definition EV_VALUE_KEYPRESS :: u32 where "EV_VALUE_KEYPRESS = 1"
definition EV_VALUE_AUTOREPEAT :: u32 where "EV_VALUE_AUTOREPEAT = 2"

datatype RemoteControllerError = RC_NO_ERROR | RC_ERROR | RC_THREAD_ERROR

record input_event =
  ev_type :: u16
  ev_code :: u16
  ev_value :: u32

text \<open>A callback acts on the state of the client and may fault.\<close>

type_synonym 'a rc_callback = "u16 \<Rightarrow> u16 \<Rightarrow> u32 \<Rightarrow> 'a \<Rightarrow> 'a c_res"

record 'a rc_state =
  rc_threadExit :: u8
  callback :: "'a rc_callback option"
  rc_client :: 'a

subsection \<open>Operations\<close>

text \<open>\<open>failed\<close> is the answer of \<open>pthread_create\<close> or \<open>pthread_join\<close>.\<close>

definition remoteControllerInit :: "bool \<Rightarrow> RemoteControllerError" where
  "remoteControllerInit failed = (if failed then RC_THREAD_ERROR else RC_NO_ERROR)"

text \<open>\<open>remoteControllerDeinit\<close> sets the flag, then joins the thread.\<close>

definition remoteControllerDeinit_begin :: "'a rc_state \<Rightarrow> 'a rc_state" where
  "remoteControllerDeinit_begin s = s\<lparr>rc_threadExit := 1\<rparr>"

definition remoteControllerDeinit :: "bool \<Rightarrow> 'a rc_state \<Rightarrow> RemoteControllerError \<times> 'a rc_state" where
  "remoteControllerDeinit failed s =
    (if failed then RC_THREAD_ERROR else RC_NO_ERROR, remoteControllerDeinit_begin s)"

definition registerRemoteControllerCallback ::
  "'a rc_callback option \<Rightarrow> 'a rc_state \<Rightarrow> RemoteControllerError \<times> 'a rc_state" where
  "registerRemoteControllerCallback remoteControllerCallback s =
    (case remoteControllerCallback of
       None \<Rightarrow> (RC_ERROR, s)
     | Some f \<Rightarrow> (RC_NO_ERROR, s\<lparr>callback := Some f\<rparr>))"

definition unregisterRemoteControllerCallback ::
  "'a rc_callback option \<Rightarrow> 'a rc_state \<Rightarrow> RemoteControllerError \<times> 'a rc_state" where
  "unregisterRemoteControllerCallback remoteControllerCallback s = (RC_NO_ERROR, s\<lparr>callback := None\<rparr>)"

definition getKey :: "input_event option \<Rightarrow> RemoteControllerError \<times> input_event option" where
  "getKey r = (case r of None \<Rightarrow> (RC_ERROR, None) | Some e \<Rightarrow> (RC_NO_ERROR, Some e))"

definition key_event :: "u16 \<Rightarrow> input_event \<Rightarrow> bool" where
  "key_event EV_KEY e \<longleftrightarrow> ev_type e = EV_KEY \<and> (ev_value e = EV_VALUE_KEYPRESS \<or> ev_value e = EV_VALUE_AUTOREPEAT)"

definition call_callback :: "input_event \<Rightarrow> 'a rc_state \<Rightarrow> 'a rc_state c_res" where
  "call_callback e s =
    (case callback s of
       None \<Rightarrow> Inl Null_Dereference
     | Some f \<Rightarrow> c_bind (f (ev_code e) (ev_type e) (ev_value e) (rc_client s)) (\<lambda>a. Inr (s\<lparr>rc_client := a\<rparr>)))"

text \<open>
  The loop: \<open>None\<close> as a result means that the thread is still running, waiting in \<open>read\<close>.
\<close>

fun inputEventTask_loop ::
  "u16 \<Rightarrow> input_event option list \<Rightarrow> 'a rc_state \<Rightarrow> (RemoteControllerError option \<times> 'a rc_state) c_res" where
  "inputEventTask_loop EV_KEY [] s =
     (if rc_threadExit s \<noteq> 0 then Inr (Some RC_NO_ERROR, s) else Inr (None, s))"
| "inputEventTask_loop EV_KEY (r # rs) s =
     (if rc_threadExit s \<noteq> 0 then Inr (Some RC_NO_ERROR, s)
      else case getKey r of
             (rc, None) \<Rightarrow> Inr (Some RC_ERROR, s)
           | (rc, Some e) \<Rightarrow>
               if key_event EV_KEY e
               then c_bind (call_callback e s) (inputEventTask_loop EV_KEY rs)
               else inputEventTask_loop EV_KEY rs s)"

text \<open>
  The same loop from the return of one \<open>read\<close> to the next: the flag is tested only before
  a read, so a thread already inside \<open>read\<close> handles one more event.
\<close>

definition inputEventTask_return ::
  "u16 \<Rightarrow> input_event option \<Rightarrow> 'a rc_state \<Rightarrow> (RemoteControllerError option \<times> 'a rc_state) c_res" where
  "inputEventTask_return EV_KEY r s =
    (case getKey r of
       (rc, None) \<Rightarrow> Inr (Some RC_ERROR, s)
     | (rc, Some e) \<Rightarrow>
         c_bind (if key_event EV_KEY e then call_callback e s else Inr s) (\<lambda>s.
         Inr (if rc_threadExit s \<noteq> 0 then Some RC_NO_ERROR else None, s)))"

text \<open>\<open>inputFileDesc\<close> is what \<open>open\<close> returned.\<close>

definition inputEventTask ::
  "u16 \<Rightarrow> int \<Rightarrow> input_event option list \<Rightarrow> 'a rc_state \<Rightarrow> (RemoteControllerError option \<times> 'a rc_state) c_res" where
  "inputEventTask EV_KEY inputFileDesc reads s =
    (if inputFileDesc = -1 then Inr (Some RC_ERROR, s) else inputEventTask_loop EV_KEY reads s)"

subsection \<open>Properties\<close>

text \<open>The reference: the callback folded over the key events that pass the filter.\<close>

fun dispatch :: "'a rc_callback \<Rightarrow> input_event list \<Rightarrow> 'a \<Rightarrow> 'a c_res" where
  "dispatch f [] a = Inr a"
| "dispatch f (e # es) a = c_bind (f (ev_code e) (ev_type e) (ev_value e) a) (dispatch f es)"

lemma inputEventTask_loop_dispatch:
  assumes "callback s = Some f" and "rc_threadExit s = 0"
  shows "inputEventTask_loop EV_KEY (map Some es) s =
    c_bind (dispatch f (filter (key_event EV_KEY) es) (rc_client s)) (\<lambda>a. Inr (None, s\<lparr>rc_client := a\<rparr>))"
  using assms
proof (induction es arbitrary: s)
  case (Cons e es)
  show ?case
  proof (cases "key_event EV_KEY e")
    case True
    show ?thesis
    proof (cases "f (ev_code e) (ev_type e) (ev_value e) (rc_client s)")
      case (Inl x)
      then show ?thesis using True Cons.prems by (simp add: getKey_def call_callback_def)
    next
      case (Inr a)
      then show ?thesis
        using True Cons.prems Cons.IH [of "s\<lparr>rc_client := a\<rparr>"] by (simp add: getKey_def call_callback_def)
    qed
  next
    case False
    then show ?thesis using Cons by (simp add: getKey_def)
  qed
qed simp

text \<open>The loop is the sequence of its returns from \<open>read\<close>.\<close>

lemma inputEventTask_loop_unfold:
  assumes "rc_threadExit s = 0"
  shows "inputEventTask_loop EV_KEY (r # rs) s =
    c_bind (inputEventTask_return EV_KEY r s) (\<lambda>(res, s). case res of
      None \<Rightarrow> inputEventTask_loop EV_KEY rs s
    | Some rc \<Rightarrow> Inr (Some rc, s))"
proof -
  have ended: "inputEventTask_loop EV_KEY rs t = Inr (Some RC_NO_ERROR, t)" if "rc_threadExit t \<noteq> 0" for t :: "'a rc_state"
    using that by (cases rs) simp_all
  show ?thesis
  proof (cases r)
    case (Some e)
    then show ?thesis
      using assms ended by (cases "call_callback e s") (simp_all add: inputEventTask_return_def getKey_def)
  qed (simp add: inputEventTask_return_def getKey_def assms)
qed

text \<open>
  C18. The input thread is the fold of the registered callback over the key events: on an
  opened device that delivers \<open>es\<close>, the callback is called for exactly the events of
  type \<open>EV_KEY\<close> that are presses or repetitions, in order and with their code, type and
  value; releases and other events are dropped; the first fault of the callback ends
  it; and a failing read ends the thread with \<open>RC_ERROR\<close>, dropping what follows.
\<close>

theorem inputEventTask_dispatches:
  assumes "callback s = Some f" and "rc_threadExit s = 0" and "fd \<noteq> -1"
  shows "inputEventTask EV_KEY fd (map Some es) s =
      c_bind (dispatch f (filter (key_event EV_KEY) es) (rc_client s)) (\<lambda>a. Inr (None, s\<lparr>rc_client := a\<rparr>))
    \<and> inputEventTask EV_KEY fd (None # rs) s = Inr (Some RC_ERROR, s)
    \<and> inputEventTask EV_KEY (-1) rs s = Inr (Some RC_ERROR, s)"
  using assms by (simp add: inputEventTask_def inputEventTask_loop_dispatch getKey_def)

theorem inputEventTask_dispatches_witness:
  "inputEventTask 1 3 (map Some [\<lparr>ev_type = 1, ev_code = 62, ev_value = 1\<rparr>, \<lparr>ev_type = 1, ev_code = 62, ev_value = 0\<rparr>,
      \<lparr>ev_type = 0, ev_code = 0, ev_value = 0\<rparr>, \<lparr>ev_type = 1, ev_code = 61, ev_value = 2\<rparr>])
     \<lparr>rc_threadExit = 0, callback = Some (\<lambda>c _ _ log. Inr (log @ [c])), rc_client = []\<rparr> =
   Inr (None, \<lparr>rc_threadExit = 0, callback = Some (\<lambda>c _ _ log. Inr (log @ [c])), rc_client = [62, 61]\<rparr>)"
  using inputEventTask_dispatches [of "\<lparr>rc_threadExit = 0, callback = Some (\<lambda>c _ _ log. Inr (log @ [c])), rc_client = []\<rparr>"
      "\<lambda>c _ _ log. Inr (log @ [c])" 3 1 "[\<lparr>ev_type = 1, ev_code = 62, ev_value = 1\<rparr>, \<lparr>ev_type = 1, ev_code = 62, ev_value = 0\<rparr>,
      \<lparr>ev_type = 0, ev_code = 0, ev_value = 0\<rparr>, \<lparr>ev_type = 1, ev_code = 61, ev_value = 2\<rparr>]" "[]"]
  by (simp add: key_event_def EV_VALUE_KEYPRESS_def EV_VALUE_AUTOREPEAT_def)

text \<open>
  Shutting the remote controller down: once \<open>remoteControllerDeinit\<close> has set the exit flag
  the thread reads nothing more and ends with \<open>RC_NO_ERROR\<close>. But the callback is
  unregistered before that, and a key event that arrives in between (or that a thread already
  inside \<open>read\<close> returns with) is a call through a null pointer; other events are harmless.
\<close>

theorem remote_shutdown:
  assumes "rc_threadExit s = 0"
  shows "(\<forall>rs. inputEventTask_loop EV_KEY rs (snd (remoteControllerDeinit failed s)) =
        Inr (Some RC_NO_ERROR, snd (remoteControllerDeinit failed s)))
    \<and> (key_event EV_KEY e \<longrightarrow>
        inputEventTask_loop EV_KEY (Some e # rs) (snd (unregisterRemoteControllerCallback f s)) = Inl Null_Dereference)
    \<and> (\<not> key_event EV_KEY e \<longrightarrow>
        inputEventTask_loop EV_KEY (Some e # rs) (snd (unregisterRemoteControllerCallback f s)) =
        inputEventTask_loop EV_KEY rs (snd (unregisterRemoteControllerCallback f s)))"
proof -
  have "inputEventTask_loop EV_KEY rs (s\<lparr>rc_threadExit := 1\<rparr>) = Inr (Some RC_NO_ERROR, s\<lparr>rc_threadExit := 1\<rparr>)" for rs
    by (cases rs) simp_all
  then show ?thesis
    using assms
    by (simp add: remoteControllerDeinit_def remoteControllerDeinit_begin_def unregisterRemoteControllerCallback_def
        getKey_def call_callback_def)
qed

theorem remote_shutdown_witness:
  "inputEventTask_loop 1 [Some \<lparr>ev_type = 1, ev_code = 102, ev_value = 2\<rparr>]
     (snd (unregisterRemoteControllerCallback None
       \<lparr>rc_threadExit = 0, callback = Some (\<lambda>c _ _ log. Inr (log @ [c])), rc_client = []\<rparr>)) = Inl Null_Dereference"
  using remote_shutdown [of "\<lparr>rc_threadExit = 0, callback = Some (\<lambda>c _ _ log. Inr (log @ [c])), rc_client = []\<rparr>"
      1 False "\<lparr>ev_type = 1, ev_code = 102, ev_value = 2\<rparr>" "[]" None]
  by (simp add: key_event_def EV_VALUE_AUTOREPEAT_def EV_VALUE_KEYPRESS_def)

end
