(* ===== verification/Tv_App.thy ===== *)
theory Tv_App
  imports Stream_Controller Graphics_Controller Remote_Controller
begin

section \<open>The application (tv\_app.c)\<close>

text \<open>
  The main program: it registers its callbacks with the three modules, turns key presses into
  operations on them, collects the digits of a channel number until its timer
  expires, and brings the modules up and down.
\<close>

subsection \<open>State\<close>

text \<open>\<open>deinitSignals\<close> counts the signals sent to \<open>deinitCond\<close>.\<close>

record TimeStructure =
  time_hours :: u8
  time_minutes :: u8
  time_seconds :: u8
  time_Year :: u16
  time_tmpMonth :: u8
  time_day :: u8
  timeStampSeconds :: int

record tv_state =
  channelInfo :: ChannelInfo
  keysPressed :: i32
  keys :: "i32 list"
  keyTimer :: timer
  currentDateMain :: CurrentDate
  currentTime :: TimeStructure
  tv_currentVolume :: u8
  deinitSignals :: nat

text \<open>The stream controller holds the state of the application as its client.\<close>

record ('m, 'd, 'g) app =
  sc :: "('m, 'd, tv_state) sc_state"
  gc :: "'g gc_state"

definition tv :: "('m, 'd, 'g) app \<Rightarrow> tv_state" where
  "tv a = client (sc a)"

definition with_tv :: "(tv_state \<Rightarrow> tv_state) \<Rightarrow> ('m, 'd, 'g) app \<Rightarrow> ('m, 'd, 'g) app" where
  "with_tv f a = a\<lparr>sc := (sc a)\<lparr>client := f (client (sc a))\<rparr>\<rparr>"

subsection \<open>Callbacks for the stream controller\<close>

definition registerCurrentDate :: "CurrentDate \<Rightarrow> tv_state \<Rightarrow> tv_state" where
  "registerCurrentDate date t =
    t\<lparr>currentDateMain := \<lparr>date_Year = date_Year date, date_tmpMonth = date_tmpMonth date,
        date_day = date_day date\<rparr>\<rparr>"

definition registerCurrentVolume :: "u8 \<Rightarrow> tv_state \<Rightarrow> tv_state" where
  "registerCurrentVolume volumeValue t = t\<lparr>tv_currentVolume := volumeValue\<rparr>"

subsection \<open>Dialling a channel number\<close>

text \<open>The fourth digit reaches the statement \<open>keysPressed == 1;\<close>, which has no effect.\<close>

definition inputChannelNumber :: "u16 \<Rightarrow> tv_state \<Rightarrow> tv_state" where
  "inputChannelNumber key t =
    (let t = t\<lparr>keyTimer := Timer_Armed 2\<rparr> in
     if keysPressed t = 0 then t\<lparr>keys := (keys t)[0 := ucast key], keysPressed := keysPressed t + 1\<rparr>
     else if keysPressed t = 1 then t\<lparr>keys := (keys t)[1 := ucast key], keysPressed := keysPressed t + 1\<rparr>
     else if keysPressed t = 2 then t\<lparr>keys := (keys t)[2 := ucast key], keysPressed := keysPressed t + 1\<rparr>
     else if keysPressed t = 3 then t\<lparr>keys := (keys t)[0 := ucast key, 1 := 0, 2 := 0]\<rparr>
     else t)"

text \<open>The local variable \<open>channel\<close> stays uninitialised for any other number of digits.\<close>

definition dialled_channel :: "tv_state \<Rightarrow> int c_res" where
  "dialled_channel t =
    (if keysPressed t = 1 then Inr (sint (keys t ! 0))
     else if keysPressed t = 2 then Inr (sint (10 * keys t ! 0 + keys t ! 1))
     else if keysPressed t = 3 then Inr (sint (100 * keys t ! 0 + 10 * keys t ! 1 + keys t ! 2))
     else Inl Indeterminate_Value)"

text \<open>
  \<open>changeChannel\<close>, run by the expiry of the key timer, up to the wait inside
  \<open>startChannel\<close>, and its end.
\<close>

definition changeChannel_begin ::
  "('m, 'd) platform \<Rightarrow> ('m, 'd, 'g) app \<Rightarrow> (start_pc \<times> ('m, 'd, 'g) app) c_res" where
  "changeChannel_begin plat a =
    c_bind (dialled_channel (tv a)) (\<lambda>channel.
    c_bind (changeChannelKey_begin plat channel (sc (with_tv (\<lambda>t. t\<lparr>keyTimer := Timer_Idle\<rparr>) a))) (\<lambda>(pc, s).
    Inr (pc, a\<lparr>sc := s\<rparr>)))"

definition changeChannel_end :: "tv_state \<Rightarrow> tv_state" where
  "changeChannel_end t = t\<lparr>keysPressed := 0, keys := (keys t)[0 := 0, 1 := 0, 2 := 0]\<rparr>"

subsection \<open>Key presses\<close>

definition remoteControllerCallback ::
  "('m, 'd) platform \<Rightarrow> u16 \<Rightarrow> u16 \<Rightarrow> u32 \<Rightarrow> ('m, 'd, 'g) app \<Rightarrow> ('m, 'd, 'g) app c_res" where
  "remoteControllerCallback plat code type value a =
    (if code = KEYCODE_INFO then
       let info = snd (getChannelInfo (Some (channelInfo (tv a))) (sc a));
           a = with_tv (\<lambda>t. t\<lparr>channelInfo := the info\<rparr>) a;
           date = currentDateMain (tv a)
       in Inr (a\<lparr>gc := drawInfoRect (date_tmpMonth date) (date_day date) (date_Year date)
                 (channel_audioPid (channelInfo (tv a))) (channel_videoPid (channelInfo (tv a))) (gc a)\<rparr>)
     else if code = KEYCODE_P_PLUS then
       c_bind (channelUp (sc a)) (\<lambda>(_, s). Inr (a\<lparr>sc := s, gc := drawProgramNumber (gc a)\<rparr>))
     else if code = KEYCODE_P_MINUS then
       c_bind (channelDown (sc a)) (\<lambda>(_, s). Inr (a\<lparr>sc := s\<rparr>))
     else if code = KEYCODE_V_PLUS then
       c_bind (volumeUp plat (sc a)) (\<lambda>s.
       let a = a\<lparr>sc := s\<rparr> in Inr (a\<lparr>gc := drawVolumeBar (tv_currentVolume (tv a)) (gc a)\<rparr>))
     else if code = KEYCODE_V_MINUS then
       c_bind (volumeDown plat (sc a)) (\<lambda>s.
       let a = a\<lparr>sc := s\<rparr> in Inr (a\<lparr>gc := drawVolumeBar (tv_currentVolume (tv a)) (gc a)\<rparr>))
     else if code = KEYCODE_MUTE then
       let a = a\<lparr>sc := volumeMute plat (sc a)\<rparr>;
           a = with_tv (\<lambda>t. t\<lparr>tv_currentVolume := 0\<rparr>) a
       in Inr (a\<lparr>gc := drawVolumeBar (tv_currentVolume (tv a)) (gc a)\<rparr>)
     else if code = KEYCODE_EXIT then
       Inr (with_tv (\<lambda>t. t\<lparr>deinitSignals := deinitSignals t + 1\<rparr>) a)
     else if code = KEYCODE_digit 1 then Inr (with_tv (inputChannelNumber 1) a)
     else if code = KEYCODE_digit 2 then Inr (with_tv (inputChannelNumber 2) a)
     else if code = KEYCODE_digit 3 then Inr (with_tv (inputChannelNumber 3) a)
     else if code = KEYCODE_digit 4 then Inr (with_tv (inputChannelNumber 4) a)
     else if code = KEYCODE_digit 5 then Inr (with_tv (inputChannelNumber 5) a)
     else if code = KEYCODE_digit 6 then Inr (with_tv (inputChannelNumber 6) a)
     else if code = KEYCODE_digit 7 then Inr (with_tv (inputChannelNumber 7) a)
     else if code = KEYCODE_digit 8 then Inr (with_tv (inputChannelNumber 8) a)
     else if code = KEYCODE_digit 9 then Inr (with_tv (inputChannelNumber 9) a)
     else if code = KEYCODE_digit 0 then Inr (with_tv (inputChannelNumber 0) a)
     else Inr a)"

subsection \<open>The main program\<close>

text \<open>\<open>textColor\<close> formats a terminal command into thirteen characters.\<close>

definition textColor :: "int \<Rightarrow> int \<Rightarrow> int \<Rightarrow> string c_res" where
  "textColor attr fg bg =
    c_sprintf 13 (CHR 0x1B # ''['' @ show_int attr @ '';'' @ show_int (fg + 30) @ '';'' @ show_int (bg + 40) @ ''m'')"

text \<open>\<open>ERRORCHECK\<close>: a nonzero result is reported and \<open>main\<close> returns -1.\<close>

definition ERRORCHECK :: "bool \<Rightarrow> 's \<Rightarrow> ('s \<Rightarrow> (int option \<times> 's) c_res) \<Rightarrow> (int option \<times> 's) c_res" where
  "ERRORCHECK failed s rest =
    (if failed then c_bind (textColor 1 1 0) (\<lambda>_. c_bind (textColor 0 7 0) (\<lambda>_. Inr (Some (-1), s)))
     else rest s)"

text \<open>
  \<open>main\<close> up to its wait for the EXIT key, statement by statement. \<open>Some\<close> is a value
  returned, \<open>None\<close> leads on to the next statement. \<open>rc_failed\<close> is the answer
  of \<open>pthread_create\<close> for the remote controller.
\<close>

definition main_then :: "(int option \<times> 's) c_res \<Rightarrow> ('s \<Rightarrow> (int option \<times> 's) c_res) \<Rightarrow> (int option \<times> 's) c_res" where
  "main_then m f = c_bind m (\<lambda>(r, s). case r of None \<Rightarrow> f s | Some n \<Rightarrow> Inr (Some n, s))"

definition main_load ::
  "('m, 'd) platform \<Rightarrow> char list option \<Rightarrow> ('m, 'd, 'g) app rc_state \<Rightarrow> (int option \<times> ('m, 'd, 'g) app rc_state) c_res" where
  "main_load plat config_file s =
    (let a = with_tv (\<lambda>t. t\<lparr>keyTimer := Timer_Idle,
               currentTime := (currentTime t)\<lparr>time_hours := 30, time_Year := 1000\<rparr>\<rparr>) (rc_client s) in
     c_bind (loadInitialInfo plat config_file (sc a)) (\<lambda>(rc, st).
     let s = s\<lparr>rc_client := a\<lparr>sc := st\<rparr>\<rparr> in
     if rc \<noteq> SC_NO_ERROR then Inr (Some (-1), s) else Inr (None, s)))"

definition main_input_up :: "bool \<Rightarrow> ('m, 'd, 'g) app rc_state \<Rightarrow> (int option \<times> ('m, 'd, 'g) app rc_state) c_res" where
  "main_input_up rc_failed s = ERRORCHECK (remoteControllerInit rc_failed \<noteq> RC_NO_ERROR) s (\<lambda>s. Inr (None, s))"

definition main_register :: "('m, 'd) platform \<Rightarrow> ('m, 'd, 'g) app rc_state \<Rightarrow> (int option \<times> ('m, 'd, 'g) app rc_state) c_res" where
  "main_register plat s =
    (case registerRemoteControllerCallback (Some (remoteControllerCallback plat)) s of (rc, s) \<Rightarrow>
     ERRORCHECK (rc \<noteq> RC_NO_ERROR) s (\<lambda>s. Inr (None, s)))"

definition main_date_up :: "('m, 'd, 'g) app rc_state \<Rightarrow> (int option \<times> ('m, 'd, 'g) app rc_state) c_res" where
  "main_date_up s =
    (case registerDateCallback (Some registerCurrentDate) (sc (rc_client s)) of (rc, st) \<Rightarrow>
     ERRORCHECK (rc \<noteq> SC_NO_ERROR) (s\<lparr>rc_client := (rc_client s)\<lparr>sc := st\<rparr>\<rparr>) (\<lambda>s. Inr (None, s)))"

definition main_volume_up :: "('m, 'd, 'g) app rc_state \<Rightarrow> (int option \<times> ('m, 'd, 'g) app rc_state) c_res" where
  "main_volume_up s =
    (case registerVolumeCallback (Some registerCurrentVolume) (sc (rc_client s)) of (rc, st) \<Rightarrow>
     ERRORCHECK (rc \<noteq> SC_NO_ERROR) (s\<lparr>rc_client := (rc_client s)\<lparr>sc := st\<rparr>\<rparr>) (\<lambda>s. Inr (None, s)))"

definition main_stream_up :: "('m, 'd) platform \<Rightarrow> ('m, 'd, 'g) app rc_state \<Rightarrow> (int option \<times> ('m, 'd, 'g) app rc_state) c_res" where
  "main_stream_up plat s =
    (case streamControllerInit plat (sc (rc_client s)) of (rc, st) \<Rightarrow>
     ERRORCHECK (rc \<noteq> SC_NO_ERROR) (s\<lparr>rc_client := (rc_client s)\<lparr>sc := st\<rparr>\<rparr>) (\<lambda>s. Inr (None, s)))"

definition main_graphics_up :: "'g dfb \<Rightarrow> ('m, 'd, 'g) app rc_state \<Rightarrow> (int option \<times> ('m, 'd, 'g) app rc_state) c_res" where
  "main_graphics_up dfb s =
    c_bind (graphicsControllerInit dfb (gc (rc_client s))) (\<lambda>(rc, g).
    ERRORCHECK (rc \<noteq> GC_NO_ERROR) (s\<lparr>rc_client := (rc_client s)\<lparr>gc := g\<rparr>\<rparr>) (\<lambda>s. Inr (None, s)))"

definition main_begin ::
  "('m, 'd) platform \<Rightarrow> 'g dfb \<Rightarrow> bool \<Rightarrow> char list option \<Rightarrow> ('m, 'd, 'g) app rc_state
   \<Rightarrow> (int option \<times> ('m, 'd, 'g) app rc_state) c_res" where
  "main_begin plat dfb rc_failed config_file s =
    main_then (main_load plat config_file s) (\<lambda>s.
    main_then (main_input_up rc_failed s) (\<lambda>s.
    main_then (main_register plat s) (\<lambda>s.
    main_then (main_date_up s) (\<lambda>s.
    main_then (main_volume_up s) (\<lambda>s.
    main_then (main_stream_up plat s) (main_graphics_up dfb))))))"

text \<open>
  Behind the wait for the EXIT key \<open>main\<close> calls \<open>graphicsControllerDeinit\<close>, which sets its flag, begins to
  wait and returns from the wait.
\<close>

definition main_woken :: "('m, 'd, 'g) app rc_state \<Rightarrow> ('m, 'd, 'g) app rc_state" where
  "main_woken s = s\<lparr>rc_client := (rc_client s)\<lparr>gc := graphicsControllerDeinit_begin (gc (rc_client s))\<rparr>\<rparr>"

definition main_waiting :: "('m, 'd, 'g) app rc_state \<Rightarrow> ('m, 'd, 'g) app rc_state" where
  "main_waiting s = s\<lparr>rc_client := (rc_client s)\<lparr>gc := graphicsControllerDeinit_wait (gc (rc_client s))\<rparr>\<rparr>"

definition main_waited :: "('m, 'd, 'g) app rc_state \<Rightarrow> ('m, 'd, 'g) app rc_state" where
  "main_waited s = s\<lparr>rc_client := (rc_client s)\<lparr>gc := graphicsControllerDeinit_wake (gc (rc_client s))\<rparr>\<rparr>"

text \<open>\<open>main\<close> from the return of that wait to its end, statement by statement.\<close>

definition main_graphics_down :: "'g dfb \<Rightarrow> ('m, 'd, 'g) app rc_state \<Rightarrow> (int option \<times> ('m, 'd, 'g) app rc_state) c_res" where
  "main_graphics_down dfb s =
    c_bind (graphicsControllerDeinit_finish dfb (gc (rc_client s))) (\<lambda>(rc, g).
    ERRORCHECK (rc \<noteq> GC_NO_ERROR) (s\<lparr>rc_client := (rc_client s)\<lparr>gc := g\<rparr>\<rparr>) (\<lambda>s. Inr (None, s)))"

definition main_unregister :: "('m, 'd) platform \<Rightarrow> ('m, 'd, 'g) app rc_state \<Rightarrow> (int option \<times> ('m, 'd, 'g) app rc_state) c_res" where
  "main_unregister plat s =
    (case unregisterRemoteControllerCallback (Some (remoteControllerCallback plat)) s of (rc, s) \<Rightarrow>
     ERRORCHECK (rc \<noteq> RC_NO_ERROR) s (\<lambda>s. Inr (None, s)))"

definition main_input_down :: "bool \<Rightarrow> ('m, 'd, 'g) app rc_state \<Rightarrow> (int option \<times> ('m, 'd, 'g) app rc_state) c_res" where
  "main_input_down rc_failed s =
    (case remoteControllerDeinit rc_failed s of (rc, s) \<Rightarrow>
     ERRORCHECK (rc \<noteq> RC_NO_ERROR) s (\<lambda>s. Inr (None, s)))"

definition main_stream_stop :: "('m, 'd, 'g) app rc_state \<Rightarrow> (int option \<times> ('m, 'd, 'g) app rc_state) c_res" where
  "main_stream_stop s =
    (case streamControllerDeinit_begin (sc (rc_client s)) of
       None \<Rightarrow> ERRORCHECK True s (\<lambda>s. Inr (None, s))
     | Some st \<Rightarrow> Inr (None, s\<lparr>rc_client := (rc_client s)\<lparr>sc := st\<rparr>\<rparr>))"

definition main_stream_join :: "('m, 'd) platform \<Rightarrow> ('m, 'd, 'g) app rc_state \<Rightarrow> (int option \<times> ('m, 'd, 'g) app rc_state) c_res" where
  "main_stream_join plat s =
    c_bind (streamControllerDeinit_join plat (sc (rc_client s))) (\<lambda>(rc, st).
    ERRORCHECK (rc \<noteq> SC_NO_ERROR) (s\<lparr>rc_client := (rc_client s)\<lparr>sc := st\<rparr>\<rparr>) (\<lambda>s. Inr (None, s)))"

definition main_return :: "('m, 'd, 'g) app rc_state \<Rightarrow> int option \<times> ('m, 'd, 'g) app rc_state" where
  "main_return s = (Some 0, s\<lparr>rc_client := with_tv (\<lambda>t. t\<lparr>keyTimer := Timer_None\<rparr>) (rc_client s)\<rparr>)"

definition main_end ::
  "('m, 'd) platform \<Rightarrow> 'g dfb \<Rightarrow> bool \<Rightarrow> ('m, 'd, 'g) app rc_state
   \<Rightarrow> (int option \<times> ('m, 'd, 'g) app rc_state) c_res" where
  "main_end plat dfb rc_failed s =
    main_then (main_graphics_down dfb s) (\<lambda>s.
    main_then (main_unregister plat s) (\<lambda>s.
    main_then (main_input_down rc_failed s) (\<lambda>s.
    main_then (main_stream_stop s) (\<lambda>s.
    main_then (main_stream_join plat s) (\<lambda>s. Inr (main_return s))))))"

end
