(* ===== verification/Graphics_Frames.thy ===== *)
theory Graphics_Frames
  imports Graphics_Controller
begin

section \<open>Overlays, frames and shutdown of the graphics controller\<close>

text \<open>
  An overlay is on the screen exactly while its timer runs; a frame with the volume bar
  shows the image of the level; a frame with the information bar overruns its text
  buffer; initialisation and its error paths; the shutdown and the wait it can miss.
\<close>

lemma dfb_out_eq:
  "dfb_out dfb c s = (fst (dfb c (gc_device s)), fst (snd (dfb c (gc_device s))),
     s\<lparr>gc_calls := gc_calls s @ [c], gc_device := snd (snd (dfb c (gc_device s)))\<rparr>)"
  by (simp add: dfb_out_def split: prod.split)

lemma dfb_do_eq:
  "dfb_do dfb c s = s\<lparr>gc_calls := gc_calls s @ [c], gc_device := snd (snd (dfb c (gc_device s)))\<rparr>"
  by (simp add: dfb_do_def dfb_out_eq)

definition dfb_works :: "'d dfb \<Rightarrow> bool" where
  "dfb_works dfb \<longleftrightarrow> (\<forall>c d. \<not> fst (dfb c d))"

lemma DFBCHECK_works:
  assumes "dfb_works dfb"
  shows "DFBCHECK dfb c s = Inr (fst (snd (dfb c (gc_device s))), dfb_do dfb c s)"
    and "dfb_checked dfb c s = Inr (dfb_do dfb c s)"
  using assms by (simp_all add: dfb_checked_def DFBCHECK_def dfb_out_eq dfb_do_eq dfb_works_def)

subsection \<open>Overlays\<close>

text \<open>
  The protocol every overlay follows: some events open it and start its timer, some close it
  and end the timer, the others leave both alone. Over any sequence of events it is
  then shown exactly if the last event that concerned it opened it.
\<close>

locale timed_overlay =
  fixes step :: "'e \<Rightarrow> 's \<Rightarrow> 's" and shown armed :: "'s \<Rightarrow> bool" and opens closes :: "'e \<Rightarrow> bool"
  assumes open_law: "opens e \<Longrightarrow> shown (step e s) \<and> armed (step e s)"
    and close_law: "closes e \<Longrightarrow> \<not> shown (step e s) \<and> \<not> armed (step e s)"
    and other_law: "\<not> opens e \<Longrightarrow> \<not> closes e \<Longrightarrow> shown (step e s) = shown s \<and> armed (step e s) = armed s"
begin

lemma shown_iff_armed: "shown s = armed s \<Longrightarrow> shown (fold step es s) = armed (fold step es s)"
proof (induction es arbitrary: s)
  case (Cons e es)
  have "shown (step e s) = armed (step e s)"
    using open_law [of e s] close_law [of e s] other_law [of e s] Cons.prems by blast
  then show ?case using Cons.IH by simp
qed simp

lemma shown_last:
  "shown (fold step es s) =
    (case find (\<lambda>e. opens e \<or> closes e) (rev es) of None \<Rightarrow> shown s | Some e \<Rightarrow> opens e)"
proof (induction es rule: rev_induct)
  case (snoc e es)
  consider "opens e" | "\<not> opens e" "closes e" | "\<not> opens e" "\<not> closes e" by blast
  then show ?case
    by cases (use snoc open_law [of e] close_law [of e] other_law [of e] in auto)
qed simp

end

text \<open>The events: the drawing operations of the module and the expiry of a timer.\<close>

datatype gc_event =
    Draw_Program | Draw_Volume u8 | Draw_Info u8 u8 u16 i16 i16
  | Expires overlay

fun gc_handle :: "gc_event \<Rightarrow> 'd gc_state \<Rightarrow> 'd gc_state" where
  "gc_handle Draw_Program s = drawProgramNumber s"
| "gc_handle (Draw_Volume v) s = drawVolumeBar v s"
| "gc_handle (Draw_Info m d y a v) s = drawInfoRect m d y a v s"
| "gc_handle (Expires ov) s = timer_expires ov s"

fun gc_opens :: "overlay \<Rightarrow> gc_event \<Rightarrow> bool" where
  "gc_opens Program_Overlay Draw_Program = True"
| "gc_opens Volume_Overlay (Draw_Volume v) = True"
| "gc_opens Info_Overlay (Draw_Info m d y a v) = True"
| "gc_opens ov e = False"

definition gc_closes :: "overlay \<Rightarrow> gc_event \<Rightarrow> bool" where
  "gc_closes ov e \<longleftrightarrow> e = Expires ov"

definition timer_armed :: "overlay \<Rightarrow> 'd gc_state \<Rightarrow> bool" where
  "timer_armed ov s \<longleftrightarrow> (case overlay_timer ov s of Timer_Armed _ \<Rightarrow> True | _ \<Rightarrow> False)"

lemmas gc_op_defs = drawProgramNumber_def drawVolumeBar_def drawInfoRect_def removeProgramNumber_def
  removeVolumeBar_def removeInfo_def

lemma overlay_laws:
  "gc_opens ov e \<Longrightarrow> overlay_shown ov (gc_handle e s) \<and> timer_armed ov (gc_handle e s)"
  "gc_closes ov e \<Longrightarrow> \<not> overlay_shown ov (gc_handle e s) \<and> \<not> timer_armed ov (gc_handle e s)"
  "\<not> gc_opens ov e \<Longrightarrow> \<not> gc_closes ov e \<Longrightarrow>
     overlay_shown ov (gc_handle e s) = overlay_shown ov s \<and> timer_armed ov (gc_handle e s) = timer_armed ov s"
proof -
  show "gc_opens ov e \<Longrightarrow> overlay_shown ov (gc_handle e s) \<and> timer_armed ov (gc_handle e s)"
    by (cases ov; cases e) (simp_all add: timer_armed_def gc_op_defs Let_def)
  show "gc_closes ov e \<Longrightarrow> \<not> overlay_shown ov (gc_handle e s) \<and> \<not> timer_armed ov (gc_handle e s)"
    by (cases ov) (simp_all add: gc_closes_def timer_armed_def gc_op_defs)
  have "overlay_shown ov (timer_expires ov' s) = overlay_shown ov s \<and> timer_armed ov (timer_expires ov' s) = timer_armed ov s"
    if "ov' \<noteq> ov" for ov'
    using that by (cases ov; cases ov') (simp_all add: timer_armed_def gc_op_defs)
  then show "\<not> gc_opens ov e \<Longrightarrow> \<not> gc_closes ov e \<Longrightarrow>
     overlay_shown ov (gc_handle e s) = overlay_shown ov s \<and> timer_armed ov (gc_handle e s) = timer_armed ov s"
    by (cases e; cases ov) (simp_all add: gc_closes_def timer_armed_def gc_op_defs Let_def)
qed

interpretation overlays: timed_overlay gc_handle "overlay_shown ov" "timer_armed ov" "gc_opens ov" "gc_closes ov" for ov
  by unfold_locales (rule overlay_laws; assumption)+

text \<open>
  C19. Overlays never stay on the screen for good: after initialisation and any sequence of
  drawing operations and timer expiries, each of the three overlays is shown exactly
  while its own timer is running, and exactly if the last event that concerned it was its
  drawing and not its expiry. The overlays do not disturb each other.
\<close>

theorem overlays_follow_timers:
  assumes "\<not> overlay_shown ov s" and "overlay_timer ov s = Timer_Idle"
  shows "overlay_shown ov (fold gc_handle es s) = timer_armed ov (fold gc_handle es s)
    \<and> overlay_shown ov (fold gc_handle es s) =
        (case find (\<lambda>e. gc_opens ov e \<or> gc_closes ov e) (rev es) of None \<Rightarrow> False | Some e \<Rightarrow> gc_opens ov e)"
  using overlays.shown_iff_armed [of ov s es] overlays.shown_last [of ov es s] assms
  by (simp add: timer_armed_def split: option.splits)

definition gc_start :: "'d \<Rightarrow> 'd gc_state" where
  "gc_start d = \<lparr>primary = Null, dfbInterface = Null, screenWidth = 0, screenHeight = 0, stopDrawing = 0, graphicsMutex = False,
     componentsToDraw = \<lparr>showProgramNumber = False, showVolume = False, showInfo = False,
       showChannelDial = False, draw_programNumber = 0, draw_volume_level = 0\<rparr>,
     programNumberTimer = Timer_None, volumeTimer = Timer_None, infoTimer = Timer_None,
     YearToDraw = 1000, tmpMonthToDraw = 0, dayToDraw = 0, audioPidToDraw = 0, videoPidToDraw = 0,
     provider = Null, logoSurface = Null, gc_calls = [], gc_device = d\<rparr>"

theorem overlays_follow_timers_witness:
  "overlay_shown Volume_Overlay (fold gc_handle [Draw_Volume 3, Draw_Program, Expires Program_Overlay, Draw_Volume 4]
     (setTimerParams (gc_start ())))
   \<and> \<not> overlay_shown Volume_Overlay (fold gc_handle [Draw_Volume 3, Expires Volume_Overlay] (setTimerParams (gc_start ())))"
proof -
  have s: "\<not> overlay_shown Volume_Overlay (setTimerParams (gc_start ()))"
    "overlay_timer Volume_Overlay (setTimerParams (gc_start ())) = Timer_Idle"
    by (simp_all add: setTimerParams_def gc_start_def)
  show ?thesis
    using overlays_follow_timers [OF s, of "[Draw_Volume 3, Draw_Program, Expires Program_Overlay, Draw_Volume 4]"]
      overlays_follow_timers [OF s, of "[Draw_Volume 3, Expires Volume_Overlay]"]
    by (auto simp: gc_closes_def)
qed

subsection \<open>Frames\<close>

text \<open>What drawing a frame leaves alone.\<close>

definition screen_core :: "'d gc_state \<Rightarrow> unit heap_ptr \<times> unit heap_ptr \<times> u8 \<times> bool \<times> DrawComponents \<times> timer \<times> timer \<times> timer" where
  "screen_core s = (primary s, dfbInterface s, stopDrawing s, graphicsMutex s, componentsToDraw s, programNumberTimer s, volumeTimer s, infoTimer s)"

lemma dfb_core [simp]:
  "screen_core (dfb_do dfb c s) = screen_core s" "screen_core (snd (snd (dfb_out dfb c s))) = screen_core s"
  "screen_core (s\<lparr>provider := p\<rparr>) = screen_core s" "screen_core (s\<lparr>logoSurface := l\<rparr>) = screen_core s"
  by (simp_all add: dfb_do_eq dfb_out_eq screen_core_def)

lemma DFBCHECK_core:
  "DFBCHECK dfb c s = Inr (sz, s') \<Longrightarrow> screen_core s' = screen_core s"
  "dfb_checked dfb c s = Inr s' \<Longrightarrow> screen_core s' = screen_core s"
  by (auto simp: dfb_checked_def DFBCHECK_def dfb_out_eq screen_core_def split: if_splits)

lemma call_through_eq_Inr: "call_through p f s = Inr r \<longleftrightarrow> (\<exists>x. ptr_read (p s) = Inr x) \<and> f s = Inr r"
  by (auto simp: call_through_def c_bind_eq_Inr)

lemma wipeScreen_core: "wipeScreen dfb s = Inr s' \<Longrightarrow> screen_core s' = screen_core s"
  by (auto simp: wipeScreen_def c_bind_eq_Inr call_through_eq_Inr dest!: DFBCHECK_core)

lemma render_volume_core: "render_volume dfb s = Inr s' \<Longrightarrow> screen_core s' = screen_core s"
  by (auto simp: render_volume_def c_bind_eq_Inr call_through_eq_Inr dest!: DFBCHECK_core split: option.splits)

lemma render_info_core: "render_info dfb s = Inr s' \<Longrightarrow> screen_core s' = screen_core s"
  by (auto simp: render_info_def c_bind_eq_Inr call_through_eq_Inr Let_def dest!: DFBCHECK_core)

lemma renderThread_round_core:
  assumes "renderThread_round dfb s = Inr (ended, s')"
  shows "screen_core s' = screen_core s" and "ended = (stopDrawing s \<noteq> 0)"
  using assms
  by (auto simp: renderThread_round_def renderFrame_def c_bind_eq_Inr call_through_eq_Inr
      dest!: wipeScreen_core render_volume_core render_info_core DFBCHECK_core(2) split: if_splits)

lemma pid_text_length: "pid_text label pid = label @ show_int (sint pid)" and
  pid_text_bound: "length (pid_text label pid) \<le> length label + 6"
proof -
  have "\<bar>sint pid\<bar> < 10 ^ Suc 4" using sint_ge [of pid] sint_lt [of pid] by simp
  then show "length (pid_text label pid) \<le> length label + 6"
    using show_int_length_le [of "sint pid" 4] by (simp add: pid_text_def)
qed (simp add: pid_text_def)

lemma date_text_bound:
  assumes "date_text year month day = Some text"
  shows "length text \<le> 19"
proof -
  have "length (show_nat (unat day)) \<le> 3" using show_nat_length_le [of "unat day" 2] unat_u8_less [of day] by simp
  moreover have "length (show_nat (unat year)) \<le> 5" using show_nat_length_le [of "unat year" 4] unat_u16_less [of year] by simp
  moreover have "length (month_names ! (unat month - 1)) \<le> 9" if "1 \<le> unat month" "unat month \<le> 12"
  proof -
    have "list_all (\<lambda>m. length m \<le> 9) month_names" by code_simp
    then show ?thesis using that by (simp add: list_all_length month_names_def)
  qed
  ultimately show ?thesis
    using assms by (auto simp: date_text_def length_pad_zeros split: if_splits)
qed

text \<open>What a frame does depends on the two surfaces, the flags and the level.\<close>

abbreviation live_surfaces :: "'d gc_state \<Rightarrow> bool" where
  "live_surfaces s \<equiv> primary s = Ptr () \<and> dfbInterface s = Ptr ()"

lemma call_through_live:
  "p s = Ptr x \<Longrightarrow> call_through p f s = f s" "p s = Null \<Longrightarrow> call_through p f s = Inl Null_Dereference"
  "p s = Freed \<Longrightarrow> call_through p f s = Inl Dangling_Pointer"
  by (simp_all add: call_through_def)

definition wiped :: "'d dfb \<Rightarrow> 'd gc_state \<Rightarrow> 'd gc_state" where
  "wiped dfb s = dfb_do dfb (FillRectangle 0 0 (screenWidth s) (screenHeight s)) (dfb_do dfb (SetColor 0 0 0 0) s)"

lemma wiped_simps [simp]:
  "componentsToDraw (wiped dfb s) = componentsToDraw s" "primary (wiped dfb s) = primary s"
  "dfbInterface (wiped dfb s) = dfbInterface s" "provider (wiped dfb s) = provider s"
  "gc_calls (wiped dfb s) = gc_calls s @ [SetColor 0 0 0 0, FillRectangle 0 0 (screenWidth s) (screenHeight s)]"
  by (simp_all add: wiped_def dfb_do_eq)

lemma wipeScreen_live:
  assumes "dfb_works dfb"
  shows "primary s = Ptr () \<Longrightarrow> wipeScreen dfb s = Inr (wiped dfb s)"
    and "primary s = Null \<Longrightarrow> wipeScreen dfb s = Inl Null_Dereference"
    and "primary s = Freed \<Longrightarrow> wipeScreen dfb s = Inl Dangling_Pointer"
  by (simp_all add: wipeScreen_def wiped_def call_through_live DFBCHECK_works [OF assms] dfb_do_eq)

lemma renderFrame_live:
  assumes "dfb_works dfb" and "live_surfaces s"
  shows "renderFrame dfb s =
    c_bind (if showVolume (componentsToDraw s) then render_volume dfb (wiped dfb s) else Inr (wiped dfb s)) (\<lambda>s.
    c_bind (if showInfo (componentsToDraw s) then render_info dfb s else Inr s) (call_through primary (dfb_checked dfb Flip)))"
  using assms(2) by (simp add: renderFrame_def wipeScreen_live [OF assms(1)])

lemma render_volume_live:
  assumes "dfb_works dfb" and "live_surfaces s"
  defines "v \<equiv> draw_volume_level (componentsToDraw s)"
  shows "0 \<le> v \<and> v \<le> 10 \<Longrightarrow> \<exists>s' x. render_volume dfb s = Inr s' \<and> provider s' = Freed
      \<and> screen_core s' = screen_core s
      \<and> gc_calls s' = gc_calls s @ [CreateImageProvider (''volume_'' @ show_int v @ ''.png''), GetSurfaceDescription,
           CreateLogoSurface, RenderTo, ReleaseProvider, GetLogoSize, Blit x 350]"
    and "v < 0 \<or> 10 < v \<Longrightarrow> provider s = Null \<Longrightarrow> render_volume dfb s = Inl Null_Dereference"
    and "v < 0 \<or> 10 < v \<Longrightarrow> provider s = Freed \<Longrightarrow> render_volume dfb s = Inl Dangling_Pointer"
  using assms(2) unfolding v_def
  by (auto simp: render_volume_def volume_image_def DFBCHECK_works [OF assms(1)] call_through_live
      dfb_do_eq screen_core_def split: prod.splits)

lemma render_info_live:
  assumes "dfb_works dfb" and "primary s = Ptr ()"
  shows "render_info dfb s = Inl Write_Out_Of_Bounds"
  using assms(2) by (simp add: render_info_def DFBCHECK_works [OF assms(1)] call_through_live dfb_do_eq Let_def
      c_sprintf_def TEMP_STRING_def pid_text_length)

text \<open>
  C27. What a frame does, on a working DirectFB. With the primary surface and the interface
  there: a frame without overlays wipes the screen and flips; a frame with the volume bar
  alone loads the image of exactly the level (0 to 10), renders it to a new surface,
  releases the image provider, puts the surface on the screen and flips, and no call releases the surface;
  a level outside 0 to 10 has no image, and the frame goes through a provider that is
  null or already released. A frame with the information bar, with or without a
  volume bar of a proper level, writes past the ten characters of \<open>tempString\<close>, with the
  first text already and whatever the PID; no text the bar writes is longer than 19 characters, so
  a buffer of 20 would do. Without the primary surface, or after its release, the frame faults
  at once.
\<close>

theorem renderFrame_cases:
  assumes "dfb_works dfb"
  defines "v s \<equiv> draw_volume_level (componentsToDraw s)"
  shows "(live_surfaces s \<and> \<not> showVolume (componentsToDraw s) \<and> \<not> showInfo (componentsToDraw s) \<longrightarrow>
      (\<exists>s'. renderFrame dfb s = Inr s' \<and> componentsToDraw s' = componentsToDraw s \<and> gc_calls s' = gc_calls s @
         [SetColor 0 0 0 0, FillRectangle 0 0 (screenWidth s) (screenHeight s), Flip]))
   \<and> (live_surfaces s \<and> showVolume (componentsToDraw s) \<and> \<not> showInfo (componentsToDraw s) \<and> 0 \<le> v s \<and> v s \<le> 10 \<longrightarrow>
      (\<exists>s' x. renderFrame dfb s = Inr s' \<and> provider s' = Freed \<and> componentsToDraw s' = componentsToDraw s
       \<and> gc_calls s' = gc_calls s @ [SetColor 0 0 0 0, FillRectangle 0 0 (screenWidth s) (screenHeight s),
            CreateImageProvider (''volume_'' @ show_int (v s) @ ''.png''), GetSurfaceDescription, CreateLogoSurface,
            RenderTo, ReleaseProvider, GetLogoSize, Blit x 350, Flip]))
   \<and> (live_surfaces s \<and> showVolume (componentsToDraw s) \<and> (v s < 0 \<or> 10 < v s) \<longrightarrow>
        (provider s = Null \<longrightarrow> renderFrame dfb s = Inl Null_Dereference)
      \<and> (provider s = Freed \<longrightarrow> renderFrame dfb s = Inl Dangling_Pointer))
   \<and> (live_surfaces s \<and> showInfo (componentsToDraw s) \<and> (showVolume (componentsToDraw s) \<longrightarrow> 0 \<le> v s \<and> v s \<le> 10) \<longrightarrow>
        renderFrame dfb s = Inl Write_Out_Of_Bounds)
   \<and> length (pid_text ''Video PID : '' (videoPidToDraw s)) \<le> 18
   \<and> length (pid_text ''Audio PID : '' (audioPidToDraw s)) \<le> 18
   \<and> (\<forall>text. date_text (YearToDraw s) (tmpMonthToDraw s) (dayToDraw s) = Some text \<longrightarrow> length text \<le> 19)
   \<and> (primary s = Null \<longrightarrow> renderFrame dfb s = Inl Null_Dereference)
   \<and> (primary s = Freed \<longrightarrow> renderFrame dfb s = Inl Dangling_Pointer)"
    (is "(?live \<and> ?none \<longrightarrow> ?plain) \<and> (?live \<and> ?bar \<longrightarrow> ?volume) \<and> (?live \<and> ?off \<longrightarrow> ?image) \<and> (?live \<and> ?info \<longrightarrow> ?overrun)
      \<and> ?video \<and> ?audio \<and> ?date \<and> ?null \<and> ?freed")
proof (intro conjI impI allI)
  let ?w = "wiped dfb s"
  note works = DFBCHECK_works [OF assms(1)] and frame = renderFrame_live [OF assms(1)]
  have volume: "\<exists>s' x. render_volume dfb ?w = Inr s' \<and> provider s' = Freed \<and> screen_core s' = screen_core ?w
      \<and> gc_calls s' = gc_calls ?w @ [CreateImageProvider (''volume_'' @ show_int (v s) @ ''.png''), GetSurfaceDescription,
           CreateLogoSurface, RenderTo, ReleaseProvider, GetLogoSize, Blit x 350]" if ?live "0 \<le> v s \<and> v s \<le> 10"
    using render_volume_live(1) [OF assms(1), of ?w] that by (simp add: v_def)
  show ?plain if "?live \<and> ?none"
    using that frame by (simp add: call_through_live works dfb_do_eq)
  show ?volume if bar: "?live \<and> ?bar"
  proof -
    obtain s' x where s': "render_volume dfb ?w = Inr s'" "provider s' = Freed" "screen_core s' = screen_core ?w"
      "gc_calls s' = gc_calls ?w @ [CreateImageProvider (''volume_'' @ show_int (v s) @ ''.png''), GetSurfaceDescription,
           CreateLogoSurface, RenderTo, ReleaseProvider, GetLogoSize, Blit x 350]"
      using volume bar by blast
    moreover have "primary s' = Ptr ()" "componentsToDraw s' = componentsToDraw s"
      using s'(3) that by (simp_all add: screen_core_def)
    ultimately show ?thesis
      using that frame by (simp add: call_through_live works dfb_do_eq)
  qed
  show "renderFrame dfb s = Inl Null_Dereference" if "?live \<and> ?off" "provider s = Null"
    using that frame render_volume_live(2) [OF assms(1), of ?w] by (simp add: v_def)
  show "renderFrame dfb s = Inl Dangling_Pointer" if "?live \<and> ?off" "provider s = Freed"
    using that frame render_volume_live(3) [OF assms(1), of ?w] by (simp add: v_def)
  show ?overrun if info: "?live \<and> ?info"
  proof (cases "showVolume (componentsToDraw s)")
    case True
    then obtain s' where s': "render_volume dfb ?w = Inr s'" "screen_core s' = screen_core ?w" using volume info by blast
    then have "primary s' = Ptr ()" "componentsToDraw s' = componentsToDraw s"
      using that by (simp_all add: screen_core_def)
    then show ?thesis using s'(1) that frame True by (simp add: render_info_live [OF assms(1)])
  next
    case False
    then show ?thesis using that frame by (simp add: render_info_live [OF assms(1)])
  qed
  show ?video ?audio using pid_text_bound [of "''Video PID : ''"] pid_text_bound [of "''Audio PID : ''"] by simp_all
  show "length str \<le> 19" if "date_text (YearToDraw s) (tmpMonthToDraw s) (dayToDraw s) = Some str" for str
    using that by (rule date_text_bound)
  show "renderFrame dfb s = Inl Null_Dereference" if "primary s = Null"
    using that by (simp add: renderFrame_def wipeScreen_live [OF assms(1)])
  show "renderFrame dfb s = Inl Dangling_Pointer" if "primary s = Freed"
    using that by (simp add: renderFrame_def wipeScreen_live [OF assms(1)])
qed

definition gc_live :: "unit gc_state" where
  "gc_live = (gc_start ())\<lparr>primary := Ptr (), dfbInterface := Ptr ()\<rparr>"

theorem renderFrame_cases_witness:
  "(\<exists>s'. renderFrame (\<lambda>_ _. (False, (200, 100), ())) (drawVolumeBar 7 gc_live) = Inr s'
     \<and> gc_calls s' ! 2 = CreateImageProvider ''volume_7.png'')
   \<and> renderFrame (\<lambda>_ _. (False, (200, 100), ())) (drawInfoRect 9 23 2009 101 100 gc_live) = Inl Write_Out_Of_Bounds
   \<and> renderFrame (\<lambda>_ _. (False, (200, 100), ())) (gc_start ()) = Inl Null_Dereference"
proof -
  let ?dfb = "\<lambda>_ _. (False, (200, 100), ())"
  have w: "dfb_works ?dfb" by (simp add: dfb_works_def)
  have "show_int 7 = ''7''" by code_simp
  then show ?thesis
    using renderFrame_cases [OF w, of "drawVolumeBar 7 gc_live"] renderFrame_cases [OF w, of "drawInfoRect 9 23 2009 101 100 gc_live"]
      renderFrame_cases [OF w, of "gc_start ()"]
    by (auto simp: drawVolumeBar_def drawInfoRect_def gc_live_def gc_start_def)
qed

subsection \<open>Initialisation\<close>

lemma graphicsControllerInit_success:
  assumes "graphicsControllerInit dfb s = Inr (GC_NO_ERROR, s')"
  shows "\<not> overlay_shown ov s' \<and> overlay_timer ov s' = Timer_Idle"
proof -
  have "componentsToDraw s' = \<lparr>showProgramNumber = False, showVolume = False, showInfo = False,
      showChannelDial = False, draw_programNumber = 0, draw_volume_level = 0\<rparr>"
    "programNumberTimer s' = Timer_Idle" "volumeTimer s' = Timer_Idle" "infoTimer s' = Timer_Idle"
    using assms by (auto simp: graphicsControllerInit_def dfb_out_eq Let_def dfb_checked_def DFBCHECK_def
        setTimerParams_def c_bind_eq_Inr split: if_splits prod.splits)
  then show ?thesis by (cases ov) simp_all
qed

text \<open>
  \<open>graphicsControllerInit\<close> on a working DirectFB reports success with all overlays hidden, the
  timers created and idle, the surface and the interface there and the screen size
  stored. In any case it makes no call after one that fails: the calls made are a
  prefix of the full sequence.
\<close>

theorem graphicsControllerInit_sequence:
  "(dfb_works dfb \<longrightarrow> (\<exists>s'. graphicsControllerInit dfb s = Inr (GC_NO_ERROR, s')
      \<and> (\<forall>ov. \<not> overlay_shown ov s' \<and> overlay_timer ov s' = Timer_Idle)
      \<and> primary s' = Ptr () \<and> dfbInterface s' = Ptr ()
      \<and> gc_calls s' = gc_calls s @ [DirectFBInit, DirectFBCreate, SetCooperativeLevel, CreatePrimarySurface,
           GetScreenSize, CreateFont, SetFont, Render_Thread_Create]))
   \<and> (\<forall>rc s'. graphicsControllerInit dfb s = Inr (rc, s') \<longrightarrow>
        (\<exists>n. gc_calls s' = gc_calls s @ take n [DirectFBInit, DirectFBCreate, SetCooperativeLevel, CreatePrimarySurface,
           GetScreenSize, CreateFont, SetFont, Render_Thread_Create] \<and> (rc = GC_NO_ERROR \<longrightarrow> n = 8)))"
  (is "?works \<and> ?prefix")
proof
  show ?works
  proof
    assume w: "dfb_works dfb"
    show "\<exists>s'. graphicsControllerInit dfb s = Inr (GC_NO_ERROR, s')
      \<and> (\<forall>ov. \<not> overlay_shown ov s' \<and> overlay_timer ov s' = Timer_Idle)
      \<and> primary s' = Ptr () \<and> dfbInterface s' = Ptr ()
      \<and> gc_calls s' = gc_calls s @ [DirectFBInit, DirectFBCreate, SetCooperativeLevel, CreatePrimarySurface,
           GetScreenSize, CreateFont, SetFont, Render_Thread_Create]"
    proof -
      have "\<not> overlay_shown ov s' \<and> overlay_timer ov s' = Timer_Idle"
        if "componentsToDraw s' = \<lparr>showProgramNumber = False, showVolume = False, showInfo = False,
            showChannelDial = False, draw_programNumber = 0, draw_volume_level = 0\<rparr>"
          "programNumberTimer s' = Timer_Idle" "volumeTimer s' = Timer_Idle" "infoTimer s' = Timer_Idle"
        for ov and s' :: "'a gc_state"
        using that by (cases ov) simp_all
      then show ?thesis
        using w by (simp add: graphicsControllerInit_def dfb_out_eq Let_def DFBCHECK_works [OF w] dfb_do_eq
            setTimerParams_def dfb_works_def split: prod.splits)
    qed
  qed
  let ?all = "[DirectFBInit, DirectFBCreate, SetCooperativeLevel, CreatePrimarySurface,
    GetScreenSize, CreateFont, SetFont, Render_Thread_Create]"
  have n: "take (Suc 0) ?all = take 1 ?all" by simp
  show ?prefix
  proof (intro allI impI)
    fix rc s'
    assume "graphicsControllerInit dfb s = Inr (rc, s')"
    then have "\<exists>n \<in> {1, 2, 3, 4, 5, 8}. gc_calls s' = gc_calls s @ take n ?all \<and> (rc = GC_NO_ERROR \<longrightarrow> n = 8)"
      by (simp add: graphicsControllerInit_def dfb_out_eq Let_def dfb_checked_def DFBCHECK_def
          setTimerParams_def c_bind_eq_Inr split: if_splits prod.splits) auto
    then show "\<exists>n. gc_calls s' = gc_calls s @ take n ?all \<and> (rc = GC_NO_ERROR \<longrightarrow> n = 8)" by blast
  qed
qed

theorem graphicsControllerInit_sequence_witness:
  "\<exists>s'. graphicsControllerInit (\<lambda>_ _. (False, (1280, 720), ())) (gc_start ()) = Inr (GC_NO_ERROR, s')
     \<and> primary s' = Ptr () \<and> length (gc_calls s') = 8"
proof -
  have "dfb_works (\<lambda>_ _. (False, (1280, 720), ()))" by (simp add: dfb_works_def)
  then show ?thesis
    using graphicsControllerInit_sequence [of "\<lambda>_ _. (False, (1280, 720), ())" "gc_start ()"]
    by (auto simp: gc_start_def)
qed

subsection \<open>Shutdown\<close>

text \<open>
  The two threads of the shutdown: the main thread sets \<open>stopDrawing\<close>, waits for
  \<open>graphicsCond\<close>, then joins and releases; the render thread draws frames until it sees
  the flag, then locks \<open>graphicsMutex\<close>, signals once, unlocks and ends. A signal wakes the main thread only if it is
  waiting; the wait may also end for no reason. In both cases it ends with the mutex
  taken again.
\<close>

datatype gc_main = Drawing | Stop_Set | Cond_Wait | Woken | Finished GraphicsControllerError
datatype gc_render = Rendering | Render_Ended

inductive gc_step :: "'d dfb \<Rightarrow> gc_main \<times> gc_render \<times> 'd gc_state \<Rightarrow> gc_main \<times> gc_render \<times> 'd gc_state \<Rightarrow> bool"
  for dfb :: "'d dfb" where
  set_stop: "gc_step dfb (Drawing, r, s) (Stop_Set, r, graphicsControllerDeinit_begin s)"
| begin_wait: "gc_step dfb (Stop_Set, r, s) (Cond_Wait, r, graphicsControllerDeinit_wait s)"
| wake_up: "\<not> graphicsMutex s \<Longrightarrow> gc_step dfb (Cond_Wait, r, s) (Woken, r, graphicsControllerDeinit_wake s)"
| draw_frame: "renderThread_round dfb s = Inr (False, s') \<Longrightarrow> gc_step dfb (m, Rendering, s) (m, Rendering, s')"
| leave_loop: "renderThread_round dfb s = Inr (True, s') \<Longrightarrow> \<not> graphicsMutex s \<Longrightarrow> m \<noteq> Cond_Wait \<Longrightarrow>
    gc_step dfb (m, Rendering, s) (m, Render_Ended, s')"
| leave_loop_signal: "renderThread_round dfb s = Inr (True, s') \<Longrightarrow> \<not> graphicsMutex s \<Longrightarrow>
    gc_step dfb (Cond_Wait, Rendering, s) (Woken, Render_Ended, graphicsControllerDeinit_wake s')"
| join: "graphicsControllerDeinit_finish dfb s = Inr (rc, s') \<Longrightarrow>
    gc_step dfb (Woken, Render_Ended, s) (Finished rc, Render_Ended, s')"

inductive_cases from_lost_wait: "gc_step dfb (Cond_Wait, Render_Ended, s) c"
inductive_cases from_woken: "gc_step dfb (Woken, Rendering, s) c"

text \<open>
  C38. The shutdown of the graphics, from a running renderer on a working DirectFB. There is an
  execution that ends with everything released. There is one in which the render thread sees the
  flag and signals before the main thread has begun to wait: then the render thread has
  ended, and the only step left is that the wait ends for no reason. And if the wait ends for no reason
  while the render thread is still in its loop, the two threads block each other for good: the main
  thread holds \<open>graphicsMutex\<close> and waits for the end of the render thread, which waits for
  the mutex, and no step of either is possible.
\<close>

theorem graphics_shutdown_can_hang:
  assumes "dfb_works dfb" and "live_surfaces s" and "\<not> graphicsMutex s"
  shows "(\<exists>s'. (gc_step dfb)\<^sup>*\<^sup>* (Drawing, Rendering, s) (Finished GC_NO_ERROR, Render_Ended, s')
       \<and> primary s' = Freed \<and> dfbInterface s' = Freed)
    \<and> (\<exists>s'. (gc_step dfb)\<^sup>*\<^sup>* (Drawing, Rendering, s) (Cond_Wait, Render_Ended, s')
       \<and> (\<forall>c. gc_step dfb (Cond_Wait, Render_Ended, s') c \<longleftrightarrow> c = (Woken, Render_Ended, graphicsControllerDeinit_wake s')))
    \<and> (\<exists>s'. (gc_step dfb)\<^sup>*\<^sup>* (Drawing, Rendering, s) (Cond_Wait, Rendering, s')
       \<and> gc_step dfb (Cond_Wait, Rendering, s') (Woken, Rendering, graphicsControllerDeinit_wake s')
       \<and> (\<forall>c. \<not> gc_step dfb (Woken, Rendering, graphicsControllerDeinit_wake s') c))"
proof -
  let ?b = "graphicsControllerDeinit_begin s"
  let ?w = "graphicsControllerDeinit_wait ?b"
  let ?k = "graphicsControllerDeinit_wake ?w"
  note defs = graphicsControllerDeinit_begin_def graphicsControllerDeinit_wait_def graphicsControllerDeinit_wake_def
  have loop: "renderThread_round dfb t = Inr (True, t)" if "t \<in> {?b, ?w, ?k}" for t
    using that by (auto simp: renderThread_round_def defs)
  have free: "\<not> graphicsMutex ?b" "\<not> graphicsMutex ?w" "graphicsMutex ?k" using assms(3) by (simp_all add: defs)
  have stop: "(gc_step dfb)\<^sup>*\<^sup>* (Drawing, Rendering, s) (Stop_Set, Rendering, ?b)" by (rule r_into_rtranclp) (rule set_stop)
  have wait: "(gc_step dfb)\<^sup>*\<^sup>* (Drawing, Rendering, s) (Cond_Wait, Rendering, ?w)"
    using stop begin_wait by (rule rtranclp.rtrancl_into_rtrancl)
  obtain e where fin: "graphicsControllerDeinit_finish dfb ?k = Inr (GC_NO_ERROR, e)" "primary e = Freed" "dfbInterface e = Freed"
    using assms by (auto simp: graphicsControllerDeinit_finish_def defs dfb_out_eq dfb_do_eq dfb_works_def)
  have "gc_step dfb (Cond_Wait, Rendering, ?w) (Woken, Render_Ended, ?k)"
    using loop free by (intro leave_loop_signal) simp_all
  with wait have "(gc_step dfb)\<^sup>*\<^sup>* (Drawing, Rendering, s) (Woken, Render_Ended, ?k)" by (rule rtranclp.rtrancl_into_rtrancl)
  then have "(gc_step dfb)\<^sup>*\<^sup>* (Drawing, Rendering, s) (Finished GC_NO_ERROR, Render_Ended, e)"
    using join [OF fin(1)] by (rule rtranclp.rtrancl_into_rtrancl)
  moreover have "(gc_step dfb)\<^sup>*\<^sup>* (Drawing, Rendering, s) (Cond_Wait, Render_Ended, ?w)"
  proof -
    have "gc_step dfb (Stop_Set, Rendering, ?b) (Stop_Set, Render_Ended, ?b)"
      using loop free by (intro leave_loop) simp_all
    with stop have "(gc_step dfb)\<^sup>*\<^sup>* (Drawing, Rendering, s) (Stop_Set, Render_Ended, ?b)" by (rule rtranclp.rtrancl_into_rtrancl)
    then show ?thesis using begin_wait by (rule rtranclp.rtrancl_into_rtrancl)
  qed
  moreover have "gc_step dfb (Cond_Wait, Render_Ended, ?w) c \<longleftrightarrow> c = (Woken, Render_Ended, ?k)" for c
    using wake_up [OF free(2), of dfb Render_Ended] by (auto elim: from_lost_wait)
  moreover have "gc_step dfb (Cond_Wait, Rendering, ?w) (Woken, Rendering, ?k)"
    using free(2) by (rule wake_up)
  moreover have "\<not> gc_step dfb (Woken, Rendering, ?k) c" for c
    using loop [of ?k] free(3) by (auto elim!: from_woken)
  ultimately show ?thesis using fin(2,3) wait by blast
qed

theorem graphics_shutdown_can_hang_witness:
  "\<exists>s'. (gc_step (\<lambda>_ _. (False, (200, 100), ())))\<^sup>*\<^sup>* (Drawing, Rendering, gc_live) (Cond_Wait, Rendering, s')
     \<and> gc_step (\<lambda>_ _. (False, (200, 100), ())) (Cond_Wait, Rendering, s') (Woken, Rendering, graphicsControllerDeinit_wake s')
     \<and> (\<forall>c. \<not> gc_step (\<lambda>_ _. (False, (200, 100), ())) (Woken, Rendering, graphicsControllerDeinit_wake s') c)"
  using graphics_shutdown_can_hang [of "\<lambda>_ _. (False, (200, 100), ())" gc_live]
  by (simp add: dfb_works_def gc_live_def gc_start_def)

end
