(* ===== verification/Tv_Keys.thy ===== *)
theory Tv_Keys
  imports Tv_App Stream_Lifecycle Graphics_Frames
begin

section \<open>Keys of the application\<close>

text \<open>
  Dialling a channel number digit by digit, the volume as the three modules see it, and
  the main program with the order in which it brings the modules up and down.
\<close>

subsection \<open>Dialling\<close>

lemma sint_of_int_i32: "- 2147483648 \<le> k \<Longrightarrow> k < 2147483648 \<Longrightarrow> sint (of_int k :: i32) = k"
  by (simp only: int_word_sint) (simp add: mod_pos_pos_trivial)

text \<open>The \<open>int\<close> arithmetic on digits does not overflow.\<close>

lemma dial_arith:
  fixes a b c :: i32
  assumes "uint a \<le> 9" and "uint b \<le> 9" and "uint c \<le> 9"
  shows "sint a = uint a" and "sint (10 * a + b) = 10 * uint a + uint b"
    and "sint (100 * a + 10 * b + c) = 100 * uint a + 10 * uint b + uint c"
proof -
  have nn: "0 \<le> uint a" "0 \<le> uint b" "0 \<le> uint c" by simp_all
  have "sint (of_int (uint a) :: i32) = uint a"
    "sint (of_int (10 * uint a + uint b) :: i32) = 10 * uint a + uint b"
    "sint (of_int (100 * uint a + 10 * uint b + uint c) :: i32) = 100 * uint a + 10 * uint b + uint c"
    using assms nn by (intro sint_of_int_i32; linarith)+
  then show "sint a = uint a" and "sint (10 * a + b) = 10 * uint a + uint b"
    and "sint (100 * a + 10 * b + c) = 100 * uint a + 10 * uint b + uint c"
    by simp_all
qed

text \<open>The number the digits stand for.\<close>

definition decimal :: "u16 list \<Rightarrow> int" where
  "decimal ds = foldl (\<lambda>n d. 10 * n + uint d) 0 ds"

definition dial_ready :: "tv_state \<Rightarrow> bool" where
  "dial_ready t \<longleftrightarrow> keysPressed t = 0 \<and> length (keys t) = 3"

lemma inputChannelNumber_frame [simp]:
  "length (keys (inputChannelNumber d t)) = length (keys t)"
  "keyTimer (inputChannelNumber d t) = Timer_Armed 2"
  by (simp_all add: inputChannelNumber_def Let_def)

lemma inputChannelNumber_fourth:
  assumes "keysPressed t = 3" and "length (keys t) = 3"
  shows "inputChannelNumber d t = t\<lparr>keyTimer := Timer_Armed 2, keys := [ucast d, 0, 0]\<rparr>"
proof -
  obtain a b c where "keys t = [a, b, c]" using assms(2) by (auto simp: numeral_3_eq_3 length_Suc_conv)
  then show ?thesis using assms(1) by (simp add: inputChannelNumber_def)
qed

lemma dial_long:
  assumes "dial_ready t" and "3 \<le> length ds"
  shows "keysPressed (fold inputChannelNumber ds t) = 3 \<and> length (keys (fold inputChannelNumber ds t)) = 3
    \<and> (3 < length ds \<longrightarrow> keys (fold inputChannelNumber ds t) = [ucast (last ds), 0, 0])"
  using assms(2)
proof (induction ds rule: rev_induct)
  case (snoc d ds)
  show ?case
  proof (cases "3 \<le> length ds")
    case True
    then have IH: "keysPressed (fold inputChannelNumber ds t) = 3" "length (keys (fold inputChannelNumber ds t)) = 3"
      using snoc by simp_all
    then show ?thesis using inputChannelNumber_fourth [OF IH, of d] by simp
  next
    case False
    then have "length ds = 2" using snoc.prems by simp
    then obtain a b where "ds = [a, b]" by (auto simp: numeral_2_eq_2 length_Suc_conv)
    then show ?thesis
      using assms(1) by (simp add: inputChannelNumber_def dial_ready_def)
  qed
qed simp

lemma dial_short:
  assumes "dial_ready t"
  shows "dialled_channel (fold inputChannelNumber [a] t) = Inr (sint (ucast a :: i32))"
    and "dialled_channel (fold inputChannelNumber [a, b] t) = Inr (sint (10 * ucast a + ucast b :: i32))"
    and "dialled_channel (fold inputChannelNumber [a, b, c] t) = Inr (sint (100 * ucast a + 10 * ucast b + ucast c :: i32))"
  using assms by (simp_all add: inputChannelNumber_def dialled_channel_def dial_ready_def)

lemma uint_digit: "uint (ucast (d :: u16) :: i32) = uint d"
proof -
  have "uint d < 65536" using uint_bounded [of d] by simp
  then show ?thesis by (simp add: unsigned_ucast_eq take_bit_int_eq_self)
qed

lemma digit_range: "(d :: u16) < 10 \<Longrightarrow> uint d \<le> 9"
  by (simp add: word_less_def)

lemma dial_number:
  assumes "dial_ready t" and "ds \<noteq> []" and "\<forall>d \<in> set ds. d < 10"
  shows "dialled_channel (fold inputChannelNumber ds t) =
      Inr (if length ds \<le> 3 then decimal ds else 100 * uint (last ds))
    \<and> keyTimer (fold inputChannelNumber ds t) = Timer_Armed 2"
proof -
  have timer: "keyTimer (fold inputChannelNumber ds t) = Timer_Armed 2"
    using assms(2) by (cases ds rule: rev_cases) simp_all
  consider a where "ds = [a]" | a b where "ds = [a, b]" | a b c where "ds = [a, b, c]" | "3 < length ds"
  proof -
    have "0 < length ds" using assms(2) by simp
    then have "length ds = 1 \<or> length ds = 2 \<or> length ds = 3 \<or> 3 < length ds" by presburger
    then show ?thesis
      using that by (auto simp: numeral_3_eq_3 numeral_2_eq_2 length_Suc_conv)
  qed
  then have "dialled_channel (fold inputChannelNumber ds t) =
      Inr (if length ds \<le> 3 then decimal ds else 100 * uint (last ds))"
  proof cases
    case (1 a)
    then show ?thesis
      using assms(3) digit_range [of a] dial_arith(1) [of "ucast a" 0 0]
      by (simp only: dial_short(1) [OF assms(1)] decimal_def) (simp add: uint_digit)
  next
    case (2 a b)
    then show ?thesis
      using assms(3) digit_range [of a] digit_range [of b] dial_arith(2) [of "ucast a" "ucast b" 0]
      by (simp only: dial_short(2) [OF assms(1)] decimal_def) (simp add: uint_digit)
  next
    case (3 a b c)
    then show ?thesis
      using assms(3) digit_range [of a] digit_range [of b] digit_range [of c]
        dial_arith(3) [of "ucast a" "ucast b" "ucast c"]
      by (simp only: dial_short(3) [OF assms(1)] decimal_def) (simp add: uint_digit)
  next
    case 4
    then have "last ds < 10" using assms(2,3) by simp
    then show ?thesis
      using dial_long [OF assms(1), of ds] 4 digit_range [of "last ds"] dial_arith(3) [of "ucast (last ds)" 0 0]
      by (simp add: dialled_channel_def uint_digit)
  qed
  then show ?thesis using timer by blast
qed

text \<open>
  Dialling: one, two or three digit keys select the channel with that decimal number.
  From the fourth digit on the number is a hundred times the last digit pressed: the code
  starts over with it but goes on counting three digits.
\<close>

theorem dial_selects:
  assumes "dial_ready t" and "ds \<noteq> []" and "\<forall>d \<in> set ds. d < 10"
  shows "dialled_channel (fold inputChannelNumber ds t) =
      Inr (if length ds \<le> 3 then decimal ds else 100 * uint (last ds))
    \<and> keyTimer (fold inputChannelNumber ds t) = Timer_Armed 2"
  using assms by (rule dial_number)

definition tv_start :: tv_state where
  "tv_start = \<lparr>channelInfo = \<lparr>channel_programNumber = 0, channel_audioPid = 0, channel_videoPid = 0\<rparr>,
     keysPressed = 0, keys = [0, 0, 0], keyTimer = Timer_None,
     currentDateMain = \<lparr>date_Year = 0, date_tmpMonth = 0, date_day = 0\<rparr>,
     currentTime = \<lparr>time_hours = 0, time_minutes = 0, time_seconds = 0, time_Year = 0, time_tmpMonth = 0,
       time_day = 0, timeStampSeconds = 0\<rparr>,
     tv_currentVolume = 5, deinitSignals = 0\<rparr>"

theorem dial_selects_witness:
  "dialled_channel (fold inputChannelNumber [1, 2] tv_start) = Inr 12
   \<and> dialled_channel (fold inputChannelNumber [1, 2, 3, 4] tv_start) = Inr 400"
proof -
  have "dial_ready tv_start" by (simp add: dial_ready_def tv_start_def)
  then show ?thesis
    using dial_selects [of tv_start "[1, 2]"] dial_selects [of tv_start "[1, 2, 3, 4]"]
    by (simp add: decimal_def)
qed

lemma digit_key:
  assumes "d < 10"
  shows "remoteControllerCallback plat (KEYCODE_digit d) type value a = Inr (with_tv (inputChannelNumber (of_nat d)) a)"
proof -
  have "d \<in> {0, 1, 2, 3, 4, 5, 6, 7, 8, 9}" using assms by auto
  then show ?thesis by (elim insertE) (simp_all add: remoteControllerCallback_def keycodes)
qed

subsection \<open>The key timer\<close>

text \<open>
  The digit keys and the expiry of the key timer as a sequence of events, in which the
  channel change of an expiry is over before the next event.
\<close>

datatype dial_event = Digit u16 | Key_Timer_Expires

fun dial_step :: "dial_event \<Rightarrow> tv_state \<Rightarrow> tv_state" where
  "dial_step (Digit d) t = inputChannelNumber d t"
| "dial_step Key_Timer_Expires t =
     (if keyTimer t = Timer_Armed 2 then changeChannel_end (t\<lparr>keyTimer := Timer_Idle\<rparr>) else t)"

definition digit_event :: "dial_event \<Rightarrow> bool" where
  "digit_event e = (case e of Digit d \<Rightarrow> d < 10 | Key_Timer_Expires \<Rightarrow> True)"

definition dial_inv :: "tv_state \<Rightarrow> bool" where
  "dial_inv t \<longleftrightarrow> length (keys t) = 3 \<and> (\<forall>k \<in> set (keys t). k < 10)
     \<and> (keysPressed t = 0 \<or> keysPressed t = 1 \<or> keysPressed t = 2 \<or> keysPressed t = 3)
     \<and> (keyTimer t = Timer_Armed 2 \<longrightarrow> keysPressed t \<noteq> 0)"

lemma ucast_digit: "(d :: u16) < 10 \<Longrightarrow> (ucast d :: i32) < 10"
  by (simp add: word_less_nat_alt)

lemma dial_inv_step: "digit_event e \<Longrightarrow> dial_inv t \<Longrightarrow> dial_inv (dial_step e t)"
proof (cases e)
  case (Digit d)
  moreover assume "digit_event e" "dial_inv t"
  moreover from this have "(ucast d :: i32) < 10" using Digit ucast_digit by (simp add: digit_event_def)
  ultimately show ?thesis
    by (auto simp: dial_inv_def inputChannelNumber_def dest!: set_update_subset_insert [THEN subsetD])
next
  case Key_Timer_Expires
  moreover assume "dial_inv t"
  ultimately show ?thesis
    by (auto simp: dial_inv_def changeChannel_end_def dest!: set_update_subset_insert [THEN subsetD])
qed

lemma dial_inv_run: "list_all digit_event es \<Longrightarrow> dial_inv t \<Longrightarrow> dial_inv (fold dial_step es t)"
  by (induction es arbitrary: t) (simp_all add: dial_inv_step)

lemma dial_inv_channel:
  assumes "dial_inv t" and "keyTimer t = Timer_Armed 2"
  shows "\<exists>ch. dialled_channel t = Inr ch \<and> 0 \<le> ch \<and> ch \<le> 999"
proof -
  have "length (keys t) = 3" using assms(1) by (simp add: dial_inv_def)
  then obtain a b c where k: "keys t = [a, b, c]" by (auto simp: numeral_3_eq_3 length_Suc_conv)
  have r: "uint a \<le> 9" "uint b \<le> 9" "uint c \<le> 9"
    using assms(1) k by (simp_all add: dial_inv_def word_less_def)
  have nn: "0 \<le> uint a" "0 \<le> uint b" "0 \<le> uint c" by simp_all
  show ?thesis
    using assms k dial_arith [OF r] r nn by (auto simp: dial_inv_def dialled_channel_def)
qed

text \<open>
  Dialling is well defined as long as each channel change is over before the next key: after any
  sequence of digit keys and timer expiries, at most three digits between 0 and 9 are
  stored, and whenever the key timer is running its expiry finds one to three digits and
  forms a channel number between 0 and 999, without overflow and never from the
  uninitialised variable.
\<close>

theorem dialling_well_defined:
  assumes "list_all digit_event es"
  shows "dial_inv (fold dial_step es tv_start)
    \<and> (keyTimer (fold dial_step es tv_start) = Timer_Armed 2 \<longrightarrow>
        (\<exists>ch. dialled_channel (fold dial_step es tv_start) = Inr ch \<and> 0 \<le> ch \<and> ch \<le> 999))"
proof -
  have "dial_inv tv_start" by (simp add: dial_inv_def tv_start_def)
  then show ?thesis using dial_inv_run [OF assms] dial_inv_channel by blast
qed

theorem dialling_well_defined_witness:
  "\<exists>ch. dialled_channel (fold dial_step [Digit 4, Digit 2, Key_Timer_Expires, Digit 7] tv_start) = Inr ch
     \<and> 0 \<le> ch \<and> ch \<le> 999"
proof -
  have "list_all digit_event [Digit 4, Digit 2, Key_Timer_Expires, Digit 7]" by (simp add: digit_event_def)
  from dialling_well_defined [OF this] show ?thesis by simp
qed

text \<open>
  C32. A digit pressed while a dialled channel is being started breaks this: \<open>changeChannel\<close>
  clears the digits only after \<open>changeChannelKey\<close> has returned, and does not stop the
  timer. The digit is thrown away, its timer still expires, and the channel number is
  then read from an uninitialised variable.
\<close>

theorem digit_during_channel_change:
  "dialled_channel (changeChannel_end (inputChannelNumber e ((inputChannelNumber d t)\<lparr>keyTimer := Timer_Idle\<rparr>)))
      = Inl Indeterminate_Value
    \<and> keyTimer (changeChannel_end (inputChannelNumber e ((inputChannelNumber d t)\<lparr>keyTimer := Timer_Idle\<rparr>))) = Timer_Armed 2
    \<and> changeChannel_begin plat (with_tv (\<lambda>_. changeChannel_end (inputChannelNumber e
        ((inputChannelNumber d t)\<lparr>keyTimer := Timer_Idle\<rparr>))) a) = Inl Indeterminate_Value"
  by (simp add: changeChannel_end_def dialled_channel_def changeChannel_begin_def tv_def with_tv_def)

subsection \<open>The volume in three modules\<close>

text \<open>
  The level is kept in the stream controller, mirrored in the application through the
  callback, and shown by the graphics controller.
\<close>

definition volume_inv :: "('m, 'd, 'g) app \<Rightarrow> bool" where
  "volume_inv a \<longleftrightarrow> unat (sc_currentVolume (sc a)) \<le> 10
     \<and> volumeReportCallback (sc a) = Some registerCurrentVolume
     \<and> tv_currentVolume (tv a) = ucast (sc_currentVolume (sc a))
     \<and> (showVolume (componentsToDraw (gc a)) \<longrightarrow>
          draw_volume_level (componentsToDraw (gc a)) = uint (sc_currentVolume (sc a)))"

lemma volume_narrow:
  assumes "unat (w :: u32) \<le> 10"
  shows "unat (ucast w :: u8) = unat w" and "uint (ucast w :: u8) = uint w"
proof -
  show "unat (ucast w :: u8) = unat w" using assms by (simp add: unsigned_ucast_eq take_bit_eq_mod)
  then show "uint (ucast w :: u8) = uint w" by (metis uint_nat)
qed

lemma volume_set_inv:
  assumes "n \<le> 10" and "volumeReportCallback (sc a) = Some registerCurrentVolume"
    and "b = a\<lparr>sc := volume_set plat n registerCurrentVolume (sc a)\<rparr>"
  shows "volume_inv (b\<lparr>gc := drawVolumeBar (tv_currentVolume (tv b)) (gc b)\<rparr>)"
proof -
  have n: "unat (of_nat n :: u32) \<le> 10" using assms(1) unat_of_nat_u32 [of n] by simp
  show ?thesis
    using assms(2) n volume_narrow [OF n]
    by (simp add: assms(3) volume_inv_def volume_set_def tv_def registerCurrentVolume_def drawVolumeBar_def)
qed

lemma volume_frame:
  assumes "volume_inv a" and "sc_currentVolume (sc b) = sc_currentVolume (sc a)"
    and "volumeReportCallback (sc b) = volumeReportCallback (sc a)"
    and "tv_currentVolume (tv b) = tv_currentVolume (tv a)"
    and "showVolume (componentsToDraw (gc b)) = showVolume (componentsToDraw (gc a))"
    and "draw_volume_level (componentsToDraw (gc b)) = draw_volume_level (componentsToDraw (gc a))"
  shows "volume_inv b"
  using assms by (simp add: volume_inv_def)

lemma inputChannelNumber_volume [simp]: "tv_currentVolume (inputChannelNumber d t) = tv_currentVolume t"
  by (simp add: inputChannelNumber_def Let_def)

lemma digit_key_frame:
  assumes "volume_inv a"
  shows "volume_inv (with_tv (inputChannelNumber d) a)"
    and "volume_inv (with_tv (\<lambda>t. t\<lparr>deinitSignals := deinitSignals t + 1\<rparr>) a)"
  by (rule volume_frame [OF assms]; simp add: with_tv_def tv_def)+

lemma channel_key_shape:
  "channelUp s = Inr (rc, s') \<Longrightarrow> \<exists>p. s' = moved_to p s"
  "channelDown s = Inr (rc, s') \<Longrightarrow> \<exists>p. s' = moved_to p s"
  by (cases "patTable s"; force simp: channelUp_def channelDown_def moved_to_def Let_def split: if_splits)+

lemma channel_key_frame:
  assumes "volume_inv a" and "s' = moved_to p (sc a)"
  shows "volume_inv (a\<lparr>sc := s'\<rparr>)" and "volume_inv (a\<lparr>sc := s', gc := drawProgramNumber (gc a)\<rparr>)"
  by (rule volume_frame [OF assms(1)]; simp add: assms(2) moved_to_def tv_def drawProgramNumber_def)+

lemma volume_key_inv:
  assumes "volume_inv a" and "remoteControllerCallback plat code type value a = Inr a'"
  shows "volume_inv a'"
proof -
  have v: "unat (sc_currentVolume (sc a)) \<le> 10" "volumeReportCallback (sc a) = Some registerCurrentVolume"
    using assms(1) by (simp_all add: volume_inv_def)
  let ?up = "volume_set plat (min 10 (unat (sc_currentVolume (sc a)) + 1)) registerCurrentVolume (sc a)"
  let ?down = "volume_set plat (unat (sc_currentVolume (sc a)) - 1) registerCurrentVolume (sc a)"
  consider "code = KEYCODE_INFO" | "code = KEYCODE_P_PLUS" | "code = KEYCODE_P_MINUS" | "code = KEYCODE_V_PLUS"
    | "code = KEYCODE_V_MINUS" | "code = KEYCODE_MUTE"
    | "code \<notin> {KEYCODE_INFO, KEYCODE_P_PLUS, KEYCODE_P_MINUS, KEYCODE_V_PLUS, KEYCODE_V_MINUS, KEYCODE_MUTE}"
    by blast
  then show ?thesis
  proof cases
    case 1
    then show ?thesis
      using assms by (auto simp: remoteControllerCallback_def Let_def with_tv_def tv_def drawInfoRect_def
          intro!: volume_frame [OF assms(1)])
  next
    case 2
    then obtain rc s' where "channelUp (sc a) = Inr (rc, s')" "a' = a\<lparr>sc := s', gc := drawProgramNumber (gc a)\<rparr>"
      using assms(2) by (auto simp: remoteControllerCallback_def keycodes c_bind_eq_Inr)
    then show ?thesis using channel_key_shape(1) channel_key_frame(2) [OF assms(1)] by metis
  next
    case 3
    then obtain rc s' where "channelDown (sc a) = Inr (rc, s')" "a' = a\<lparr>sc := s'\<rparr>"
      using assms(2) by (auto simp: remoteControllerCallback_def keycodes c_bind_eq_Inr)
    then show ?thesis using channel_key_shape(2) channel_key_frame(1) [OF assms(1)] by metis
  next
    case 4
    then have "a' = a\<lparr>sc := ?up, gc := drawVolumeBar (tv_currentVolume (tv (a\<lparr>sc := ?up\<rparr>))) (gc a)\<rparr>"
      using assms(2) by (simp add: remoteControllerCallback_def keycodes volumeUp_sets [OF v] Let_def)
    then show ?thesis
      using volume_set_inv [OF _ v(2) refl, of "min 10 (unat (sc_currentVolume (sc a)) + 1)" plat] by simp
  next
    case 5
    then have "a' = a\<lparr>sc := ?down, gc := drawVolumeBar (tv_currentVolume (tv (a\<lparr>sc := ?down\<rparr>))) (gc a)\<rparr>"
      using assms(2) by (simp add: remoteControllerCallback_def keycodes volumeDown_sets [OF v] Let_def)
    then show ?thesis
      using volume_set_inv [OF _ v(2) refl, of "unat (sc_currentVolume (sc a)) - 1" plat] v(1) by simp
  next
    case 6
    then show ?thesis
      using assms(2) v(2)
      by (auto simp: remoteControllerCallback_def keycodes Let_def volumeMute_def call_simps with_tv_def tv_def
          volume_inv_def drawVolumeBar_def)
  next
    case 7
    then show ?thesis
      using assms digit_key_frame [OF assms(1)]
      by (auto simp: remoteControllerCallback_def split: if_splits)
  qed
qed

text \<open>
  The three modules agree on the volume: starting from a state where they do, after any sequence
  of events the remote controller dispatches without a fault the level is at most 10, the
  application's copy equals the stream controller's, and the volume bar on the screen shows that
  level and has an image for it.
\<close>

theorem volume_agrees:
  assumes "volume_inv a" and "dispatch (remoteControllerCallback plat) es a = Inr a'"
  shows "volume_inv a'
    \<and> (showVolume (componentsToDraw (gc a')) \<longrightarrow>
        volume_image (draw_volume_level (componentsToDraw (gc a'))) =
        Some (''volume_'' @ show_nat (unat (tv_currentVolume (tv a'))) @ ''.png''))"
proof -
  have inv: "volume_inv a'"
    using assms
  proof (induction es arbitrary: a)
    case (Cons e es)
    then obtain b where "remoteControllerCallback plat (ev_code e) (ev_type e) (ev_value e) a = Inr b"
      "dispatch (remoteControllerCallback plat) es b = Inr a'"
      by (auto simp: c_bind_eq_Inr)
    then show ?case using Cons.IH volume_key_inv [OF Cons.prems(1)] by blast
  qed simp
  then have le: "unat (sc_currentVolume (sc a')) \<le> 10" by (simp add: volume_inv_def)
  have "uint (sc_currentVolume (sc a')) \<le> 10" using le by (metis of_nat_le_iff of_nat_numeral uint_nat)
  then show ?thesis
    using inv volume_narrow [OF le] by (auto simp: volume_inv_def volume_image_def show_int_def)
qed

definition app_start :: "(nat, unit, unit) app" where
  "app_start = \<lparr>sc = (initial_state 0 () tv_start)\<lparr>volumeReportCallback := Some registerCurrentVolume,
     dateRecievedCallback := Some registerCurrentDate\<rparr>, gc = setTimerParams (gc_start ())\<rparr>"

theorem volume_agrees_witness:
  "\<exists>a'. dispatch (remoteControllerCallback ideal_platform) [\<lparr>ev_type = 1, ev_code = 63, ev_value = 1\<rparr>,
      \<lparr>ev_type = 1, ev_code = 60, ev_value = 1\<rparr>] app_start = Inr a' \<and> volume_inv a'"
proof -
  have inv: "volume_inv app_start"
    by (simp add: volume_inv_def app_start_def tv_def initial_state_def tv_start_def setTimerParams_def gc_start_def)
  have "no_fault (dispatch (remoteControllerCallback ideal_platform) [\<lparr>ev_type = 1, ev_code = 63, ev_value = 1\<rparr>,
      \<lparr>ev_type = 1, ev_code = 60, ev_value = 1\<rparr>] app_start)"
    by (simp add: remoteControllerCallback_def keycodes volumeUp_def report_volume_def app_start_def initial_state_def call_simps
        Let_def)
  then show ?thesis using volume_agrees [OF inv] unfolding no_fault_iff by blast
qed

subsection \<open>The main program\<close>

lemma textColor_ok: "\<exists>c. textColor 1 1 0 = Inr c" "\<exists>c. textColor 0 7 0 = Inr c"
proof -
  have "no_fault (textColor 1 1 0)" by code_simp
  then show "\<exists>c. textColor 1 1 0 = Inr c" by (simp add: no_fault_iff)
  have "no_fault (textColor 0 7 0)" by code_simp
  then show "\<exists>c. textColor 0 7 0 = Inr c" by (simp add: no_fault_iff)
qed

lemma ERRORCHECK_eq: "ERRORCHECK failed s rest = (if failed then Inr (Some (-1), s) else rest s)"
  using textColor_ok by (auto simp: ERRORCHECK_def)

lemmas main_part_defs = main_graphics_down_def main_unregister_def main_input_down_def main_stream_stop_def main_stream_join_def main_return_def
  ERRORCHECK_eq unregisterRemoteControllerCallback_def remoteControllerDeinit_def remoteControllerDeinit_begin_def
  with_tv_def tv_def

lemmas main_up_defs = main_then_def main_load_def main_input_up_def main_register_def main_date_up_def main_volume_up_def
  main_stream_up_def main_graphics_up_def ERRORCHECK_eq

lemmas register_simps = registerRemoteControllerCallback_def registerDateCallback_def registerVolumeCallback_def

text \<open>
  The main program up to its wait for the EXIT key. It reaches the wait, or returns -1; the
  report of an error fits the buffer of \<open>textColor\<close>. When it waits, the configuration has been
  loaded, all three callbacks are registered, the key timer exists, the thread of the
  stream controller has been created and the graphics are initialised with nothing on the
  screen. Without a configuration file it returns before it starts anything.
\<close>

theorem main_begin_ready:
  "(\<forall>r s'. main_begin plat dfb rc_failed config_file s = Inr (r, s') \<longrightarrow>
      (r = Some (-1)
       \<or> r = None \<and> callback s' = Some (remoteControllerCallback plat)
         \<and> dateRecievedCallback (sc (rc_client s')) = Some registerCurrentDate
         \<and> volumeReportCallback (sc (rc_client s')) = Some registerCurrentVolume
         \<and> programNumber (sc (rc_client s')) = ucast (info_programNumber (configFile (sc (rc_client s'))))
         \<and> keyTimer (tv (rc_client s')) = Timer_Idle
         \<and> calls (sc (rc_client s')) = calls (sc (rc_client s)) @ [Pthread_Create]
         \<and> (\<forall>ov. \<not> overlay_shown ov (gc (rc_client s')) \<and> overlay_timer ov (gc (rc_client s')) = Timer_Idle)))
   \<and> (\<exists>s'. main_begin plat dfb rc_failed None s = Inr (Some (-1), s') \<and> callback s' = callback s
        \<and> calls (sc (rc_client s')) = calls (sc (rc_client s)) \<and> gc (rc_client s') = gc (rc_client s))"
  (is "(\<forall>r s'. _ \<longrightarrow> ?ready r s') \<and> ?no_file")
proof
  show ?no_file by (simp add: main_begin_def main_up_defs loadInitialInfo_def loadConfigFile_def Let_def with_tv_def)
  show "\<forall>r s'. main_begin plat dfb rc_failed config_file s = Inr (r, s') \<longrightarrow> ?ready r s'"
  proof (intro allI impI)
    fix r s'
    assume m: "main_begin plat dfb rc_failed config_file s = Inr (r, s')"
    let ?a = "with_tv (\<lambda>t. t\<lparr>keyTimer := Timer_Idle,
               currentTime := (currentTime t)\<lparr>time_hours := 30, time_Year := 1000\<rparr>\<rparr>) (rc_client s)"
    obtain rc st where l: "loadInitialInfo plat config_file (sc ?a) = Inr (rc, st)"
      using m by (auto simp: main_begin_def main_up_defs c_bind_eq_Inr Let_def)
    have st: "client st = client (sc ?a)" "calls st = calls (sc ?a)"
      "rc = SC_NO_ERROR \<Longrightarrow> programNumber st = ucast (info_programNumber (configFile st))"
      using l by (auto simp: loadInitialInfo_def c_bind_eq_Inr Let_def split: if_splits prod.splits)
    show "?ready r s'"
      using m l st
      by (simp add: main_begin_def main_up_defs register_simps streamControllerInit_def call_simps Let_def
          c_bind_eq_Inr split: if_splits)
        (auto simp: tv_def with_tv_def dest: graphicsControllerInit_success)
  qed
qed

theorem main_begin_ready_witness:
  "\<exists>s'. main_begin ideal_platform (\<lambda>_ _. (False, (1280, 720), ())) False None
     \<lparr>rc_threadExit = 0, callback = None, rc_client = app_start\<rparr> = Inr (Some (-1), s') \<and> callback s' = None"
  using main_begin_ready [of ideal_platform "\<lambda>_ _. (False, (1280, 720), ())" False None
      "\<lparr>rc_threadExit = 0, callback = None, rc_client = app_start\<rparr>"]
  by auto

text \<open>
  The end of the main program, when every thread can be joined: it returns 0 with the
  graphics released, the callback unregistered, the input thread told to stop, the stream
  controller deinitialised with its tables freed, and the key timer deleted.
\<close>

theorem main_end_releases:
  assumes "primary (gc (rc_client s)) = Ptr ()" and "dfbInterface (gc (rc_client s)) = Ptr ()" and "dfb_works dfb"
    and "isInitialized (sc (rc_client s))" and "tables_live (sc (rc_client s))"
    and "\<not> fst (respond plat Pthread_Join (device (sc (rc_client s))))"
  shows "\<exists>s'. main_end plat dfb False s = Inr (Some 0, s') \<and> callback s' = None \<and> rc_threadExit s' = 1
    \<and> primary (gc (rc_client s')) = Freed \<and> dfbInterface (gc (rc_client s')) = Freed
    \<and> tables_freed (sc (rc_client s')) \<and> \<not> isInitialized (sc (rc_client s'))
    \<and> threadExit (sc (rc_client s')) = 1 \<and> keyTimer (tv (rc_client s')) = Timer_None"
proof -
  obtain st where st: "streamControllerDeinit_join plat ((sc (rc_client s))\<lparr>threadExit := 1\<rparr>) = Inr (SC_NO_ERROR, st)"
    "tables_freed st" "\<not> isInitialized st" "threadExit st = 1"
    using streamControllerDeinit_success [OF assms(4,5,6)] assms(4)
    by (auto simp: streamControllerDeinit_def streamControllerDeinit_begin_def)
  obtain g where g: "graphicsControllerDeinit_finish dfb (gc (rc_client s)) = Inr (GC_NO_ERROR, g)"
    "primary g = Freed" "dfbInterface g = Freed"
    using assms(1-3) by (auto simp: graphicsControllerDeinit_finish_def dfb_out_eq dfb_do_eq dfb_works_def)
  show ?thesis
    using st g assms(4)
    by (simp add: main_end_def main_then_def main_part_defs streamControllerDeinit_begin_def tables_freed_def)
qed

theorem main_end_releases_witness:
  "\<exists>s'. main_end ideal_platform (\<lambda>_ _. (False, (1280, 720), ())) False
     \<lparr>rc_threadExit = 0, callback = None, rc_client = app_start
       \<lparr>sc := (sc app_start)\<lparr>isInitialized := True, patTable := Ptr zero_PatTable, pmtTable := Ptr zero_PmtTable,
          tdtTable := Ptr zero_TdtTable, totTable := Ptr zero_TotTable\<rparr>,
        gc := (gc app_start)\<lparr>primary := Ptr (), dfbInterface := Ptr ()\<rparr>\<rparr>\<rparr> = Inr (Some 0, s')"
  using main_end_releases [of "\<lparr>rc_threadExit = 0, callback = None, rc_client = app_start
       \<lparr>sc := (sc app_start)\<lparr>isInitialized := True, patTable := Ptr zero_PatTable, pmtTable := Ptr zero_PmtTable,
          tdtTable := Ptr zero_TdtTable, totTable := Ptr zero_TotTable\<rparr>,
        gc := (gc app_start)\<lparr>primary := Ptr (), dfbInterface := Ptr ()\<rparr>\<rparr>\<rparr>" "\<lambda>_ _. (False, (1280, 720), ())"
      ideal_platform]
  by (auto simp: dfb_works_def tables_live_def ideal_platform_def)

end
