(* ===== verification/Stream_Frame.thy ===== *)
theory Stream_Frame
  imports Stream_Steps
begin

section \<open>What the steps of the stream controller do to their client\<close>

text \<open>
  Apart from the keys, a step of the stream controller leaves program number, volume and callbacks
  alone, and it changes the state of the client at most by reporting a date to it. This is what
  the application may rely on while the controller runs beside it.
\<close>

definition client_follows :: "('m, 'd, 'a) sc_state \<Rightarrow> ('m, 'd, 'a) sc_state \<Rightarrow> bool" where
  "client_follows s s' \<longleftrightarrow> client s' = client s
     \<or> (\<exists>f d. dateRecievedCallback s = Some f \<and> client s' = f d (client s))"

lemma client_follows_same [intro]: "client s' = client s \<Longrightarrow> client_follows s s'"
  by (simp add: client_follows_def)

lemma startChannel_begin_client: "startChannel_begin plat ch s = Inr (pc, s') \<Longrightarrow> client s' = client s"
  by (auto simp: startChannel_begin_def call_simps Let_def c_bind_eq_Inr split: if_splits)

lemma changeChannelKey_begin_client: "changeChannelKey_begin plat ch s = Inr (pc, s') \<Longrightarrow> client s' = client s"
  by (auto simp: changeChannelKey_begin_def c_bind_eq_Inr dest: startChannel_begin_client split: if_splits)

lemma startChannel_pmt_client:
  assumes "creates_streams plat" and "startChannel_pmt plat ch False s = Inr (pc, s')"
  shows "client s' = client s"
proof -
  have v: "start_video plat v s = Inr t \<Longrightarrow> client t = client s" for v s t
    using start_video_calls [OF assms(1), of v s] by auto
  have a: "start_audio plat v s = Inr t \<Longrightarrow> client t = client s" for v s t
    using start_audio_calls [OF assms(1), of v s] by auto
  show ?thesis
    using assms(2)
    by (auto simp: startChannel_pmt_def wait_over_def c_bind_eq_Inr parseTimeTables_begin_def call_simps Let_def
        dest!: v a split: if_splits)
qed

lemma startChannel_resume_client:
  assumes "creates_streams plat" and "startChannel_resume plat False pc s = Inr (pc', s')"
  shows "client_follows s s'"
proof (cases pc)
  case (Pmt_Wait ch)
  then show ?thesis using startChannel_pmt_client [OF assms(1), of ch s pc' s'] assms(2) by auto
next
  case Tdt_Wait
  then show ?thesis
    using assms(2) by (auto simp: parseTimeTables_tdt_def wait_over_def call_simps Let_def split: if_splits)
next
  case Tot_Wait
  then show ?thesis
    using assms(2)
    by (auto simp: parseTimeTables_tot_def wait_over_def c_bind_eq_Inr Let_def client_follows_def split: option.splits) blast
qed (use assms in auto)

lemma task_resume_client:
  assumes "creates_streams plat" and "task_resume plat pc s = Inr (pc', s')" and "task_waiting pc"
  shows "client_follows s s'"
proof -
  have f: "client (snd (after_first r)) = client (snd r)" "client (snd (after_loop_start r)) = client (snd r)"
    for r :: "start_pc \<times> ('a, 'b, 'c) sc_state"
    by (cases r; simp add: after_first_def after_loop_start_def)+
  have after: "client_follows s s'" if "startChannel_resume plat False p s = Inr r" "after_first r = (pc', s') \<or> after_loop_start r = (pc', s')" for p r
    using that f [of r] startChannel_resume_client [OF assms(1), of p s "fst r" "snd r"]
    by (auto simp: client_follows_def)
  show ?thesis
  proof (cases pc)
    case Pat_Wait
    then obtain r where "startChannel_begin plat (sint (programNumber s)) s = Inr r" "after_first r = (pc', s')"
      using assms(2) by (auto simp: streamControllerTask_pat_def c_bind_eq_Inr)
    then show ?thesis using f [of r] startChannel_begin_client [of plat _ s "fst r" "snd r"] by auto
  qed (use assms(2,3) after in \<open>auto simp: c_bind_eq_Inr\<close>)
qed

lemma task_round_client:
  assumes "streamControllerTask_round plat s = Inr (pc, s')"
  shows "client s' = client s"
proof -
  have f: "client (snd (after_loop_start r)) = client (snd r)" for r :: "start_pc \<times> ('a, 'b, 'c) sc_state"
    by (cases r) (simp add: after_loop_start_def)
  show ?thesis
  proof (cases "threadExit s \<noteq> 0 \<or> \<not> changeChannelFlag s")
    case False
    then obtain r where "startChannel_begin plat (sint (programNumber s)) (s\<lparr>changeChannelFlag := False\<rparr>) = Inr r"
      "after_loop_start r = (pc, s')"
      using assms by (auto simp: streamControllerTask_round_def c_bind_eq_Inr)
    then show ?thesis
      using f [of r] startChannel_begin_client [of plat _ "s\<lparr>changeChannelFlag := False\<rparr>" "fst r" "snd r"] by simp
  qed (use assms in \<open>auto simp: streamControllerTask_round_def split: if_splits\<close>)
qed

lemma fold_call_client: "client (fold (call_void plat) cs s) = client s"
  by (induction cs arbitrary: s) (simp_all add: call_simps)

lemma free_and_return_client: "free_and_return plat cs s = Inr (pc, s') \<Longrightarrow> client s' = client s"
  by (auto simp: free_and_return_def free_tables_def c_bind_eq_Inr fold_call_client)

lemma status_client: "streamControllerTask_status plat timed_out s = Inr (pc, s') \<Longrightarrow> client s' = client s"
  by (auto simp: streamControllerTask_status_def call_simps Let_def dest!: free_and_return_client split: if_splits)

lemma section_client: "sectionReceivedCallback plat buf s = Inr (sig, s') \<Longrightarrow> client s' = client s"
  by (auto simp: sectionReceivedCallback_def c_bind_eq_Inr split: if_splits option.splits)

lemma task_begin_client:
  assumes "mallocs_succeed plat" and "streamControllerTask_begin plat s = Inr (pc, s')"
  shows "client s' = client s"
  using assms(2)
  by (auto simp: task_begin_allocates [OF assms(1)] task_tuner_def call_simps Let_def allocated_def
      dest!: free_and_return_client split: if_splits)

fun from_client :: "sc_event \<Rightarrow> bool" where
  "from_client (Key k) = True"
| "from_client (Dial_Starts ch) = True"
| "from_client _ = False"

lemma sc_step_frame:
  assumes "sc_step plat e m m'" and "machine_inv m" and "well_behaved e m" and "creates_streams plat" and "\<not> from_client e"
  shows "settings (ctl m') = settings (ctl m) \<and> client_follows (ctl m) (ctl m')"
  using assms(1)
proof cases
  case (tuner_reports pc s)
  have "tables_wf (ctl m)" using tuner_reports(3) assms(2) by (simp add: machine_inv_def)
  then show ?thesis
    using status_frame [OF _ tuner_reports(5)] status_client [OF tuner_reports(5)] tuner_reports(2) by auto
next
  case (tuner_timeout pc s)
  have "tables_wf (ctl m)" using tuner_timeout(3) assms(2) by (simp add: machine_inv_def)
  then show ?thesis
    using status_frame [OF _ tuner_timeout(4)] status_client [OF tuner_timeout(4)] tuner_timeout(2) by auto
next
  case (task_resumes pc s)
  have run: "running (task m)" using task_resumes inv_running by blast
  note k = task_resume_keeps(1) [OF inv_wf [OF assms(2) run, THEN conjunct1] inv_wf [OF assms(2) run, THEN conjunct2]
      assms(4) task_resumes(3)]
  show ?thesis
    using keepsD [OF k task_resumes(5)] task_resume_client [OF assms(4) task_resumes(5,3)] task_resumes(2) by simp
next
  case (task_round pc s)
  have run: "running (task m)" using task_round by (simp add: running_def early_def)
  note k = task_round_keeps(1) [OF inv_wf [OF assms(2) run, THEN conjunct1] inv_wf [OF assms(2) run, THEN conjunct2], of plat]
  show ?thesis using keepsD [OF k task_round(4)] task_round_client [OF task_round(4)] task_round(2) by auto
next
  case (dial_resumes i pc pc' s)
  have run: "running (task m)" using dial_resumes(3-5) by (intro inv_dialling [OF assms(2), of i]) auto
  then obtain f where f: "dateRecievedCallback (ctl m) = Some f" using inv_wf [OF assms(2)] by (auto simp: settings_ok_def)
  note k = startChannel_resume_keeps [OF inv_wf [OF assms(2) run, THEN conjunct1] f assms(4), of pc]
  show ?thesis
    using keepsD [OF k dial_resumes(6)] startChannel_resume_client [OF assms(4) dial_resumes(6)] dial_resumes(2) by simp
next
  case (section_arrives bs sig s w)
  then have r: "registered (ctl m)" "good_section bs" using assms(3) by simp_all
  then have "tables_wf (ctl m)" "service_count (ctl m) \<le> 19" using assms(2) by (auto simp: machine_inv_def)
  then show ?thesis using section_keeps [OF _ _ r(2) section_arrives(3)] section_client [OF section_arrives(3)] section_arrives(2) by auto
qed (use assms(5) in auto)

lemma wake_length [simp]: "length (dials (wake w m)) = length (dials m)"
  using wake_fields(3) [of w m] by (rule map_eq_imp_length_eq)

lemma sc_step_dials: "sc_step plat e m m' \<Longrightarrow> \<not> from_client e \<Longrightarrow> length (dials m') = length (dials m)"
  by (cases rule: sc_step.cases) (auto simp: wake_length)

lemma machine_inv_dials: "machine_inv m \<Longrightarrow> (quiet m \<longrightarrow> quiet (m\<lparr>dials := ds\<rparr>)) \<Longrightarrow> machine_inv (m\<lparr>dials := ds\<rparr>)"
  by (auto simp: machine_inv_def)

lemma machine_inv_client: "machine_inv (m\<lparr>ctl := s\<lparr>client := c\<rparr>\<rparr>) = machine_inv (m\<lparr>ctl := s\<rparr>)"
  by (simp add: machine_inv_def settings_ok_def tables_wf_def tables_freed_def service_count_def registered_def quiet_def
      split: heap_ptr.splits)

end
