(* ===== verification/Tv_Machine.thy ===== *)
theory Tv_Machine
  imports Tv_Keys Stream_Frame
begin

section \<open>The whole program as a concurrent machine\<close>

text \<open>
  All threads of the running program: \<open>main\<close>, the input thread of the remote controller, the render
  thread, the controller thread of the stream controller with the callbacks it runs beside (the
  steps of \<open>Stream_Steps\<close>), one thread per expiry of the key timer, and the timers of the
  overlays. They share the state of the program; a part of a thread runs without interruption. The machine begins when \<open>main\<close> has
  brought the modules up; how it comes there is in \<open>Tv_Startup\<close>.
\<close>

subsection \<open>Threads\<close>

text \<open>
  Where \<open>main\<close> stands: before and inside its wait for the EXIT key, behind it; behind the
  statement \<open>stopDrawing = 1\<close>, inside the wait of \<open>graphicsControllerDeinit\<close>, behind it; with the graphics
  released, the callback unregistered, inside the join of the input thread, behind it; inside the join
  of the controller thread, behind it; returned.
\<close>

datatype main_pc =
    Main_Ready | Exit_Wait | Exit_Woken
  | Gc_Stop_Set | Gc_Wait | Gc_Woken
  | Gc_Down | Unregistered | Input_Join | Input_Joined | Stream_Join | Stream_Down
  | Main_Returned int

fun phase :: "main_pc \<Rightarrow> nat" where
  "phase Main_Ready = 0" | "phase Exit_Wait = 1" | "phase Exit_Woken = 2"
| "phase Gc_Stop_Set = 3" | "phase Gc_Wait = 4" | "phase Gc_Woken = 5"
| "phase Gc_Down = 6" | "phase Unregistered = 7" | "phase Input_Join = 8" | "phase Input_Joined = 9"
| "phase Stream_Join = 10" | "phase Stream_Down = 11" | "phase (Main_Returned n) = 12"

text \<open>\<open>main\<close> only moves forward; its program points are ordered by how far it has come.\<close>

instantiation main_pc :: preorder
begin

definition less_eq_main_pc :: "main_pc \<Rightarrow> main_pc \<Rightarrow> bool" where
  "less_eq_main_pc a b \<longleftrightarrow> phase a \<le> phase b"

definition less_main_pc :: "main_pc \<Rightarrow> main_pc \<Rightarrow> bool" where
  "less_main_pc a b \<longleftrightarrow> phase a < phase b"

instance
  by standard (auto simp: less_eq_main_pc_def less_main_pc_def)

end

declare less_eq_main_pc_def [simp] less_main_pc_def [simp]

datatype input_pc = Reading | Input_Ended RemoteControllerError

record ('m, 'd, 'g) whole =
  main_at :: main_pc
  input_at :: input_pc
  render_at :: gc_render
  task_at :: task_pc
  task_wake :: bool
  dial_threads :: "(start_pc \<times> bool) list"
  prog :: "('m, 'd, 'g) app rc_state"

definition app_of :: "('m, 'd, 'g) whole \<Rightarrow> ('m, 'd, 'g) app" where
  "app_of q = rc_client (prog q)"

definition with_app :: "('m, 'd, 'g) app \<Rightarrow> ('m, 'd, 'g) whole \<Rightarrow> ('m, 'd, 'g) whole" where
  "with_app a q = q\<lparr>prog := (prog q)\<lparr>rc_client := a\<rparr>\<rparr>"

text \<open>The machine of the stream controller inside the whole.\<close>

definition stream_of :: "('m, 'd, 'g) whole \<Rightarrow> ('m, 'd, tv_state) machine" where
  "stream_of q = \<lparr>task = task_at q, task_woken = task_wake q, dials = dial_threads q, ctl = sc (app_of q)\<rparr>"

definition with_stream :: "('m, 'd, tv_state) machine \<Rightarrow> ('m, 'd, 'g) whole \<Rightarrow> ('m, 'd, 'g) whole" where
  "with_stream m q = (with_app ((app_of q)\<lparr>sc := ctl m\<rparr>) q)
     \<lparr>task_at := task m, task_wake := task_woken m, dial_threads := dials m\<rparr>"

fun task_over :: "task_pc \<Rightarrow> bool" where
  "task_over Task_Ended = True"
| "task_over (Task_Returned rc) = True"
| "task_over _ = False"

subsection \<open>Steps\<close>

datatype tv_event =
    Main_Moves | Main_Wakes
  | Input "input_event option"
  | Frame | Overlay_Expires overlay
  | Key_Timer | Dial_Done nat
  | Stream sc_event

text \<open>The main thread behind a statement that may have returned a value.\<close>

definition main_to :: "main_pc \<Rightarrow> int option \<Rightarrow> main_pc" where
  "main_to pc r = (case r of None \<Rightarrow> pc | Some n \<Rightarrow> Main_Returned n)"

inductive main_step :: "('m, 'd) platform \<Rightarrow> 'g dfb \<Rightarrow> ('m, 'd, 'g) whole \<Rightarrow> ('m, 'd, 'g) whole \<Rightarrow> bool"
  for plat :: "('m, 'd) platform" and dfb :: "'g dfb" where
  exit_wait: "main_at q = Main_Ready \<Longrightarrow> main_step plat dfb q (q\<lparr>main_at := Exit_Wait\<rparr>)"
| stop_drawing: "main_at q = Exit_Woken \<Longrightarrow>
    main_step plat dfb q (q\<lparr>main_at := Gc_Stop_Set, prog := main_woken (prog q)\<rparr>)"
| graphics_wait: "main_at q = Gc_Stop_Set \<Longrightarrow>
    main_step plat dfb q (q\<lparr>main_at := Gc_Wait, prog := main_waiting (prog q)\<rparr>)"
| graphics_down: "main_at q = Gc_Woken \<Longrightarrow> render_at q = Render_Ended \<Longrightarrow> main_graphics_down dfb (prog q) = Inr (r, s) \<Longrightarrow>
    main_step plat dfb q (q\<lparr>main_at := main_to Gc_Down r, prog := s\<rparr>)"
| unregister: "main_at q = Gc_Down \<Longrightarrow> main_unregister plat (prog q) = Inr (r, s) \<Longrightarrow>
    main_step plat dfb q (q\<lparr>main_at := main_to Unregistered r, prog := s\<rparr>)"
| stop_input: "main_at q = Unregistered \<Longrightarrow>
    main_step plat dfb q (q\<lparr>main_at := Input_Join, prog := remoteControllerDeinit_begin (prog q)\<rparr>)"
| join_input: "main_at q = Input_Join \<Longrightarrow> input_at q = Input_Ended rc \<Longrightarrow> main_input_down False (prog q) = Inr (r, s) \<Longrightarrow>
    main_step plat dfb q (q\<lparr>main_at := main_to Input_Joined r, prog := s\<rparr>)"
| stop_stream: "main_at q = Input_Joined \<Longrightarrow> main_stream_stop (prog q) = Inr (r, s) \<Longrightarrow>
    main_step plat dfb q (q\<lparr>main_at := main_to Stream_Join r, prog := s\<rparr>)"
| join_stream: "main_at q = Stream_Join \<Longrightarrow> task_over (task_at q) \<Longrightarrow> main_stream_join plat (prog q) = Inr (r, s) \<Longrightarrow>
    main_step plat dfb q (q\<lparr>main_at := main_to Stream_Down r, prog := s\<rparr>)"
| main_returns: "main_at q = Stream_Down \<Longrightarrow> main_return (prog q) = (Some n, s) \<Longrightarrow>
    main_step plat dfb q (q\<lparr>main_at := Main_Returned n, prog := s\<rparr>)"

text \<open>
  The other threads run until \<open>main\<close> returns. \<open>main\<close> is woken inside a wait by the signal it
  waits for, or for no reason. The callback of the input thread signals \<open>deinitCond\<close> when it counts one more signal; a
  signal that finds \<open>main\<close> outside its wait is lost. The render thread, behind its loop, needs \<open>graphicsMutex\<close>
  to signal \<open>graphicsCond\<close>; the wait of \<open>graphicsControllerDeinit\<close> ends with the mutex taken.
\<close>

definition exit_signalled :: "('m, 'd, 'g) app rc_state \<Rightarrow> ('m, 'd, 'g) app rc_state \<Rightarrow> bool" where
  "exit_signalled s s' \<longleftrightarrow> deinitSignals (tv (rc_client s)) < deinitSignals (tv (rc_client s'))"

inductive tv_step ::
  "('m, 'd) platform \<Rightarrow> 'g dfb \<Rightarrow> u16 \<Rightarrow> tv_event \<Rightarrow> ('m, 'd, 'g) whole \<Rightarrow> ('m, 'd, 'g) whole \<Rightarrow> bool"
  for plat :: "('m, 'd) platform" and dfb :: "'g dfb" and EV_KEY :: u16 where
  main_moves: "main_step plat dfb q q' \<Longrightarrow> tv_step plat dfb EV_KEY Main_Moves q q'"
| main_wakes: "main_at q = Exit_Wait \<Longrightarrow> tv_step plat dfb EV_KEY Main_Wakes q (q\<lparr>main_at := Exit_Woken\<rparr>)"
| graphics_wakes: "main_at q = Gc_Wait \<Longrightarrow> \<not> graphicsMutex (gc (app_of q)) \<Longrightarrow>
    tv_step plat dfb EV_KEY Main_Wakes q (q\<lparr>main_at := Gc_Woken, prog := main_waited (prog q)\<rparr>)"
| input_returns: "phase (main_at q) < 12 \<Longrightarrow> input_at q = Reading \<Longrightarrow> inputEventTask_return EV_KEY r (prog q) = Inr (res, s) \<Longrightarrow>
    tv_step plat dfb EV_KEY (Input r) q (q\<lparr>
      main_at := (if exit_signalled (prog q) s \<and> main_at q = Exit_Wait then Exit_Woken else main_at q),
      input_at := (case res of None \<Rightarrow> Reading | Some rc \<Rightarrow> Input_Ended rc), prog := s\<rparr>)"
| frame: "phase (main_at q) < 12 \<Longrightarrow> render_at q = Rendering \<Longrightarrow> renderThread_round dfb (gc (app_of q)) = Inr (False, g) \<Longrightarrow>
    tv_step plat dfb EV_KEY Frame q (with_app ((app_of q)\<lparr>gc := g\<rparr>) q)"
| last_frame: "phase (main_at q) < 12 \<Longrightarrow> render_at q = Rendering \<Longrightarrow> renderThread_round dfb (gc (app_of q)) = Inr (True, g) \<Longrightarrow>
    \<not> graphicsMutex g \<Longrightarrow> main_at q \<noteq> Gc_Wait \<Longrightarrow>
    tv_step plat dfb EV_KEY Frame q ((with_app ((app_of q)\<lparr>gc := g\<rparr>) q)\<lparr>render_at := Render_Ended\<rparr>)"
| last_frame_signal: "render_at q = Rendering \<Longrightarrow> renderThread_round dfb (gc (app_of q)) = Inr (True, g) \<Longrightarrow>
    \<not> graphicsMutex g \<Longrightarrow> main_at q = Gc_Wait \<Longrightarrow>
    tv_step plat dfb EV_KEY Frame q ((with_app ((app_of q)\<lparr>gc := graphicsControllerDeinit_wake g\<rparr>) q)
      \<lparr>main_at := Gc_Woken, render_at := Render_Ended\<rparr>)"
| overlay_expires: "phase (main_at q) < 12 \<Longrightarrow> timer_armed ov (gc (app_of q)) \<Longrightarrow>
    tv_step plat dfb EV_KEY (Overlay_Expires ov) q (with_app ((app_of q)\<lparr>gc := timer_expires ov (gc (app_of q))\<rparr>) q)"
| key_timer: "phase (main_at q) < 12 \<Longrightarrow> keyTimer (tv (app_of q)) = Timer_Armed 2 \<Longrightarrow>
    changeChannel_begin plat (app_of q) = Inr (pc, a) \<Longrightarrow>
    tv_step plat dfb EV_KEY Key_Timer q ((with_app a q)\<lparr>dial_threads := dial_threads q @ [(pc, False)]\<rparr>)"
| dial_done: "phase (main_at q) < 12 \<Longrightarrow> i < length (dial_threads q) \<Longrightarrow> fst (dial_threads q ! i) = Returned \<Longrightarrow>
    tv_step plat dfb EV_KEY (Dial_Done i) q ((with_app (with_tv changeChannel_end (app_of q)) q)
      \<lparr>dial_threads := take i (dial_threads q) @ drop (Suc i) (dial_threads q)\<rparr>)"
| stream_moves: "phase (main_at q) < 12 \<Longrightarrow> \<not> from_client e \<Longrightarrow> sc_step plat e (stream_of q) m \<Longrightarrow>
    tv_step plat dfb EV_KEY (Stream e) q (with_stream m q)"

lemma stream_of_simps [simp]:
  "stream_of (with_stream m q) = m" "ctl (stream_of q) = sc (app_of q)" "task (stream_of q) = task_at q"
  "dials (stream_of q) = dial_threads q" "app_of (with_app a q) = a" "main_at (with_app a q) = main_at q"
  "dial_threads (with_app a q) = dial_threads q" "task_at (with_app a q) = task_at q"
  "render_at (with_app a q) = render_at q" "input_at (with_app a q) = input_at q"
  "main_at (with_stream m q) = main_at q" "render_at (with_stream m q) = render_at q"
  "input_at (with_stream m q) = input_at q" "dial_threads (with_stream m q) = dials m"
  "app_of (with_stream m q) = (app_of q)\<lparr>sc := ctl m\<rparr>"
  by (simp_all add: stream_of_def with_stream_def with_app_def app_of_def)

lemma app_of_updates [simp]:
  "app_of (q\<lparr>main_at := pc\<rparr>) = app_of q" "app_of (q\<lparr>input_at := i\<rparr>) = app_of q" "app_of (q\<lparr>render_at := r\<rparr>) = app_of q"
  "app_of (q\<lparr>dial_threads := ds\<rparr>) = app_of q" "app_of (q\<lparr>prog := s\<rparr>) = rc_client s"
  "stream_of (q\<lparr>main_at := pc\<rparr>) = stream_of q" "stream_of (q\<lparr>input_at := i\<rparr>) = stream_of q"
  "stream_of (q\<lparr>render_at := r\<rparr>) = stream_of q"
  by (simp_all add: app_of_def stream_of_def)

end
