(* ===== verification/Tv_Safety.thy ===== *)
theory Tv_Safety
  imports Tv_Machine
begin

section \<open>The whole program keeps its invariant and does not fault\<close>

text \<open>
  From the initial values of the program's variables, and in an environment that avoids the known
  defects, every reachable state of the whole program satisfies the invariants of all modules,
  and no thread faults in its next part.
\<close>

subsection \<open>Keys and the stream controller\<close>

text \<open>The key of the stream controller behind a key code.\<close>

definition key_code :: "u16 \<Rightarrow> sc_key option" where
  "key_code code = (if code = KEYCODE_P_PLUS then Some P_Plus else if code = KEYCODE_P_MINUS then Some P_Minus
     else if code = KEYCODE_V_PLUS then Some V_Plus else if code = KEYCODE_V_MINUS then Some V_Minus
     else if code = KEYCODE_MUTE then Some Mute else None)"

definition digit_code :: "u16 \<Rightarrow> bool" where
  "digit_code code \<longleftrightarrow> (\<exists>d < 10. code = KEYCODE_digit d)"

lemma digit_codes:
  "digit_code code \<longleftrightarrow> code \<in> {KEYCODE_digit 1, KEYCODE_digit 2, KEYCODE_digit 3, KEYCODE_digit 4, KEYCODE_digit 5,
     KEYCODE_digit 6, KEYCODE_digit 7, KEYCODE_digit 8, KEYCODE_digit 9, KEYCODE_digit 0}"
proof -
  have "d < 10 \<longleftrightarrow> d \<in> {1, 2, 3, 4, 5, 6, 7, 8, 9, 0}" for d :: nat by (simp, presburger)
  then show ?thesis unfolding digit_code_def by (simp add: bex_simps(5) [symmetric] del: bex_simps(5)) blast
qed

text \<open>What a key does to the application, apart from the screen.\<close>

lemma callback_keys:
  assumes "key_code code = Some k"
  shows "no_fault (remoteControllerCallback plat code type value a) = no_fault (key_op plat k (sc a))"
    and "remoteControllerCallback plat code type value a = Inr a' \<Longrightarrow>
      \<exists>s. key_op plat k (sc a) = Inr s \<and> (sc a' = s \<or> sc a' = s\<lparr>client := (client s)\<lparr>tv_currentVolume := 0\<rparr>\<rparr>)"
proof -
  have cases: "code = KEYCODE_P_PLUS \<and> k = P_Plus \<or> code = KEYCODE_P_MINUS \<and> k = P_Minus
    \<or> code = KEYCODE_V_PLUS \<and> k = V_Plus \<or> code = KEYCODE_V_MINUS \<and> k = V_Minus \<or> code = KEYCODE_MUTE \<and> k = Mute"
    using assms by (auto simp: key_code_def split: if_splits)
  then show "no_fault (remoteControllerCallback plat code type value a) = no_fault (key_op plat k (sc a))"
    by (elim disjE) (auto simp: remoteControllerCallback_def keycodes no_fault_def c_bind_def Let_def split: sum.splits)
  show "\<exists>s. key_op plat k (sc a) = Inr s \<and> (sc a' = s \<or> sc a' = s\<lparr>client := (client s)\<lparr>tv_currentVolume := 0\<rparr>\<rparr>)"
    if "remoteControllerCallback plat code type value a = Inr a'"
    using cases that
    by (elim disjE) (auto simp: remoteControllerCallback_def keycodes c_bind_eq_Inr Let_def with_tv_def)
qed

lemma callback_other:
  assumes "key_code code = None"
  shows "\<exists>a'. remoteControllerCallback plat code type value a = Inr a'
    \<and> (\<exists>f. sc a' = sc (with_tv f a) \<and> (\<forall>t. tv_currentVolume (f t) = tv_currentVolume t)
        \<and> (if digit_code code then \<exists>d < 10. f = inputChannelNumber d
           else \<forall>t. keys (f t) = keys t \<and> keysPressed (f t) = keysPressed t \<and> keyTimer (f t) = keyTimer t))"
proof -
  have nk: "code \<noteq> KEYCODE_P_PLUS" "code \<noteq> KEYCODE_P_MINUS" "code \<noteq> KEYCODE_V_PLUS" "code \<noteq> KEYCODE_V_MINUS" "code \<noteq> KEYCODE_MUTE"
    using assms by (auto simp: key_code_def split: if_splits)
  consider "code = KEYCODE_INFO" | "code = KEYCODE_EXIT" | "digit_code code"
    | "code \<noteq> KEYCODE_INFO" "code \<noteq> KEYCODE_EXIT" "\<not> digit_code code" by blast
  then show ?thesis
  proof cases
    case 1
    then have "\<not> digit_code code" by (simp add: digit_codes keycodes)
    then show ?thesis
      using 1 by (simp add: remoteControllerCallback_def Let_def)
        (intro exI [of _ "\<lambda>t. t\<lparr>channelInfo := the (snd (getChannelInfo (Some (channelInfo (tv a))) (sc a)))\<rparr>"], simp)
  next
    case 2
    then have "\<not> digit_code code" by (simp add: digit_codes keycodes)
    then show ?thesis
      using 2 nk by (intro exI [of _ "with_tv (\<lambda>t. t\<lparr>deinitSignals := deinitSignals t + 1\<rparr>) a"] conjI exI [of _ "\<lambda>t. t\<lparr>deinitSignals := deinitSignals t + 1\<rparr>"])
        (auto simp: remoteControllerCallback_def keycodes)
  next
    case 3
    then obtain d where d: "d < 10" "code = KEYCODE_digit d" by (auto simp: digit_code_def)
    have "remoteControllerCallback plat code type value a = Inr (with_tv (inputChannelNumber (of_nat d)) a)"
      unfolding d(2) using d(1) by (rule digit_key)
    moreover have "(of_nat d :: u16) < 10" using d(1) by (simp add: word_less_nat_alt unat_of_nat_u16)
    ultimately show ?thesis using 3 by (intro exI [of _ "with_tv (inputChannelNumber (of_nat d)) a"]) auto
  next
    case 4
    then have "remoteControllerCallback plat code type value a = Inr a"
      using nk by (auto simp: remoteControllerCallback_def digit_codes)
    then show ?thesis using 4 by (intro exI [of _ a] conjI exI [of _ id]) (simp_all add: with_tv_def)
  qed
qed

subsection \<open>The invariant\<close>

definition dial_fields :: "tv_state \<Rightarrow> i32 list \<times> i32 \<times> timer" where
  "dial_fields t = (keys t, keysPressed t, keyTimer t)"

text \<open>
  The stream controller's invariant, agreement on the volume, the registered callbacks, well-formed
  digits; and while a dialled channel is being started, the key timer is not running.
\<close>

definition app_inv :: "('m, 'd, 'g) app \<Rightarrow> bool" where
  "app_inv a \<longleftrightarrow> volume_inv a \<and> dateRecievedCallback (sc a) = Some registerCurrentDate \<and> dial_inv (tv a)
     \<and> (keyTimer (tv a) = Timer_Idle \<or> keyTimer (tv a) = Timer_Armed 2)"

definition tv_inv :: "('m, 'd, 'g) whole \<Rightarrow> bool" where
  "tv_inv q \<longleftrightarrow> machine_inv (stream_of q) \<and> app_inv (app_of q)
     \<and> (dial_threads q \<noteq> [] \<longrightarrow> keyTimer (tv (app_of q)) = Timer_Idle)"

lemma app_inv_frame:
  assumes "app_inv a" and "volume_inv b" and "dial_fields (tv b) = dial_fields (tv a)"
    and "dateRecievedCallback (sc b) = dateRecievedCallback (sc a)"
  shows "app_inv b"
  using assms by (simp add: app_inv_def dial_fields_def dial_inv_def)

lemma app_inv_volume: "app_inv a \<Longrightarrow> volume_inv a"
  by (simp add: app_inv_def)

lemma key_op_fields:
  assumes "unat (sc_currentVolume s) \<le> 10" and "volumeReportCallback s = Some registerCurrentVolume"
    and "key_op plat k s = Inr s'"
  shows "dial_fields (client s') = dial_fields (client s) \<and> dateRecievedCallback s' = dateRecievedCallback s"
proof (cases "k = P_Plus \<or> k = P_Minus")
  case True
  then obtain p where "s' = moved_to p s" using assms(3) channel_key_shape [of s] by (auto simp: c_bind_eq_Inr)
  then show ?thesis by (simp add: moved_to_def)
next
  case False
  then have "k \<in> {V_Plus, V_Minus, Mute}" by (cases k) simp_all
  then show ?thesis
    using assms(3)
    by (auto simp: volumeUp_sets [OF assms(1,2)] volumeDown_sets [OF assms(1,2)] volume_set_def volumeMute_def
        registerCurrentVolume_def dial_fields_def call_simps)
qed

lemma dial_inv_digit:
  assumes "dial_inv t" and "d < 10"
  shows "dial_inv (inputChannelNumber d t)"
  using dial_inv_step [of "Digit d" t] assms by (simp add: digit_event_def)

text \<open>A key press, in a state where it is allowed.\<close>

definition key_ok :: "u16 \<Rightarrow> ('m, 'd, 'g) whole \<Rightarrow> bool" where
  "key_ok code q \<longleftrightarrow> (\<forall>k. key_code code = Some k \<longrightarrow> well_behaved (Key k) (stream_of q))
     \<and> (digit_code code \<longrightarrow> dial_threads q = [])"

lemma inv_press:
  assumes "tv_inv q" and "key_ok code q" and "remoteControllerCallback plat code type value (app_of q) = Inr a"
  shows "tv_inv (with_app a q)"
proof -
  let ?m = "stream_of q"
  have inv: "machine_inv ?m" "app_inv (app_of q)" and vol: "volume_inv (app_of q)"
    using assms(1) by (auto simp: tv_inv_def app_inv_def)
  have vol': "volume_inv a" using volume_key_inv [OF vol assms(3)] .
  have so: "stream_of (with_app a q) = ?m\<lparr>ctl := sc a\<rparr>" by (simp add: stream_of_def with_app_def app_of_def)
  show ?thesis
  proof (cases "key_code code")
    case (Some k)
    obtain s where s: "key_op plat k (sc (app_of q)) = Inr s"
      "sc a = s \<or> sc a = s\<lparr>client := (client s)\<lparr>tv_currentVolume := 0\<rparr>\<rparr>"
      using callback_keys(2) [OF Some assms(3)] by blast
    have "machine_inv (?m\<lparr>ctl := s\<rparr>)"
      using inv_key [OF inv(1), of k plat s] assms(2) Some s(1) by (simp add: key_ok_def)
    then have m: "machine_inv (?m\<lparr>ctl := sc a\<rparr>)" using s(2) machine_inv_client [of _ s ?m] by auto
    have f: "dial_fields (tv a) = dial_fields (tv (app_of q)) \<and> dateRecievedCallback (sc a) = dateRecievedCallback (sc (app_of q))"
      using key_op_fields [OF _ _ s(1)] s(2) vol by (auto simp: volume_inv_def tv_def dial_fields_def)
    have "app_inv a" using app_inv_frame [OF inv(2) vol'] f by blast
    then show ?thesis using m f assms(1) so by (simp add: tv_inv_def dial_fields_def)
  next
    case None
    obtain f where f: "sc a = sc (with_tv f (app_of q))"
      "if digit_code code then \<exists>d < 10. f = inputChannelNumber d
       else \<forall>t. keys (f t) = keys t \<and> keysPressed (f t) = keysPressed t \<and> keyTimer (f t) = keyTimer t"
      using callback_other [OF None, of plat type "value" "app_of q"] assms(3) by auto
    have m: "machine_inv (?m\<lparr>ctl := sc a\<rparr>)"
      using inv(1) machine_inv_client [of _ "sc (app_of q)" ?m] f(1) by (simp add: with_tv_def stream_of_def)
    have tv: "tv a = f (tv (app_of q))" "dateRecievedCallback (sc a) = dateRecievedCallback (sc (app_of q))"
      using f(1) by (simp_all add: tv_def with_tv_def)
    show ?thesis
    proof (cases "digit_code code")
      case True
      then obtain d where d: "d < 10" "f = inputChannelNumber d" using f(2) by auto
      have "app_inv a" using inv(2) vol' d tv dial_inv_digit [OF _ d(1)] by (simp add: app_inv_def)
      then show ?thesis using m assms(2) True so by (simp add: tv_inv_def key_ok_def)
    next
      case False
      then have "dial_fields (tv a) = dial_fields (tv (app_of q))" using f(2) tv(1) by (simp add: dial_fields_def)
      moreover from this have "app_inv a" using app_inv_frame [OF inv(2) vol'] tv(2) by blast
      ultimately show ?thesis using m assms(1) so by (simp add: tv_inv_def dial_fields_def)
    qed
  qed
qed

lemma press_no_fault:
  assumes "tv_inv q" and "key_ok code q"
  shows "no_fault (remoteControllerCallback plat code type value (app_of q))"
proof (cases "key_code code")
  case (Some k)
  then show ?thesis
    using callback_keys(1) [OF Some, of plat type "value" "app_of q"] key_no_fault [of "stream_of q" k plat] assms by (simp add: key_ok_def tv_inv_def)
next
  case None
  then show ?thesis using callback_other [OF None, of plat type "value" "app_of q"] by (auto simp: no_fault_iff)
qed

subsection \<open>Every step keeps it\<close>

lemma inv_input:
  assumes "tv_inv q" and "inputEventTask_return EV_KEY r (prog q) = Inr (res, s)"
    and "callback (prog q) = Some (remoteControllerCallback plat) \<or> callback (prog q) = None"
    and "\<And>e. r = Some e \<Longrightarrow> key_event EV_KEY e \<Longrightarrow> key_ok (ev_code e) q"
  shows "tv_inv (q\<lparr>prog := s\<rparr>)"
proof -
  have "rc_client s = app_of q \<or> (\<exists>e a. r = Some e \<and> key_event EV_KEY e \<and> rc_client s = a
      \<and> remoteControllerCallback plat (ev_code e) (ev_type e) (ev_value e) (app_of q) = Inr a)"
    using assms(2,3)
    by (auto simp: inputEventTask_return_def getKey_def call_callback_def app_of_def c_bind_eq_Inr split: option.splits if_splits)
  moreover have "tv_inv (q\<lparr>prog := s\<rparr>) = tv_inv (with_app (rc_client s) q)"
    by (simp add: tv_inv_def stream_of_def with_app_def app_of_def)
  moreover have "with_app (app_of q) q = q" by (simp add: with_app_def app_of_def)
  ultimately show ?thesis using assms(1,4) inv_press [OF assms(1)] by auto
qed

lemma inv_screen:
  assumes "tv_inv q"
    and "showVolume (componentsToDraw g) \<longrightarrow> showVolume (componentsToDraw (gc (app_of q)))"
    and "draw_volume_level (componentsToDraw g) = draw_volume_level (componentsToDraw (gc (app_of q)))"
  shows "tv_inv (with_app ((app_of q)\<lparr>gc := g\<rparr>) q)"
  using assms
  by (auto simp: tv_inv_def app_inv_def volume_inv_def stream_of_def with_app_def app_of_def tv_def)

lemma inv_key_timer:
  assumes "tv_inv q" and "keyTimer (tv (app_of q)) = Timer_Armed 2" and "\<not> gave_up (task_at q)"
    and "changeChannel_begin plat (app_of q) = Inr (pc, a)"
  shows "tv_inv ((with_app a q)\<lparr>dial_threads := dial_threads q @ [(pc, False)]\<rparr>)"
proof -
  let ?b = "with_tv (\<lambda>t. t\<lparr>keyTimer := Timer_Idle\<rparr>) (app_of q)"
  have inv: "machine_inv (stream_of q)" "app_inv (app_of q)" using assms(1) by (simp_all add: tv_inv_def)
  obtain ch where ch: "changeChannelKey_begin plat ch (sc ?b) = Inr (pc, sc a)" "gc a = gc (app_of q)"
    using assms(4) by (auto simp: changeChannel_begin_def c_bind_eq_Inr)
  have m: "machine_inv ((stream_of q)\<lparr>ctl := sc ?b\<rparr>)"
    using inv(1) machine_inv_client [of _ "sc (app_of q)" "stream_of q"] by (simp add: with_tv_def stream_of_def)
  then have m': "machine_inv ((stream_of q)\<lparr>dials := dial_threads q @ [(pc, False)], ctl := sc a\<rparr>)"
    using inv_dial_starts [OF m, of plat ch pc "sc a"] assms(3) ch(1) by simp
  have "tables_wf (sc ?b)" "service_count (sc ?b) \<le> 19" using m assms(3) by (simp_all add: machine_inv_def)
  note k = keepsD [OF dial_keeps(1) [OF this] ch(1)]
  have c: "tv a = (tv (app_of q))\<lparr>keyTimer := Timer_Idle\<rparr>"
    using changeChannelKey_begin_client [OF ch(1)] by (simp add: tv_def with_tv_def)
  have s: "sc_currentVolume (sc a) = sc_currentVolume (sc (app_of q))" "dateRecievedCallback (sc a) = dateRecievedCallback (sc (app_of q))"
    "volumeReportCallback (sc a) = volumeReportCallback (sc (app_of q))"
    using k by (simp_all add: settings_def with_tv_def)
  have "volume_inv a" by (rule volume_frame [OF app_inv_volume [OF inv(2)]]) (simp_all add: c s ch(2))
  moreover have "dial_inv (tv a)" using inv(2) c by (simp add: app_inv_def dial_inv_def)
  ultimately have "app_inv a" using inv(2) c s by (simp add: app_inv_def)
  then show ?thesis using m' c by (simp add: tv_inv_def stream_of_def with_app_def app_of_def)
qed

lemma inv_dial_done:
  assumes "tv_inv q" and "i < length (dial_threads q)"
  shows "tv_inv ((with_app (with_tv changeChannel_end (app_of q)) q)
    \<lparr>dial_threads := take i (dial_threads q) @ drop (Suc i) (dial_threads q)\<rparr>)"
proof -
  let ?a = "with_tv changeChannel_end (app_of q)"
  have inv: "machine_inv (stream_of q)" "app_inv (app_of q)" "keyTimer (tv (app_of q)) = Timer_Idle"
    using assms by (auto simp: tv_inv_def)
  let ?ds = "take i (dial_threads q) @ drop (Suc i) (dial_threads q)"
  have "quiet (stream_of q) \<longrightarrow> quiet ((stream_of q)\<lparr>dials := ?ds\<rparr>)"
    by (auto simp: quiet_def list_all_iff stream_of_def dest: in_set_takeD in_set_dropD)
  from machine_inv_dials [OF inv(1) this]
  have m: "machine_inv ((stream_of q)\<lparr>dials := ?ds, ctl := sc ?a\<rparr>)"
    using machine_inv_client [of _ "sc (app_of q)" "(stream_of q)\<lparr>dials := ?ds\<rparr>"] by (simp add: with_tv_def stream_of_def)
  have t: "tv ?a = changeChannel_end (tv (app_of q))" by (simp add: tv_def with_tv_def)
  have "volume_inv ?a"
    by (rule volume_frame [OF app_inv_volume [OF inv(2)]]) (simp_all add: t, simp_all add: with_tv_def changeChannel_end_def)
  moreover have "dial_inv (tv ?a)"
    using inv(2,3) t by (auto simp: app_inv_def dial_inv_def changeChannel_end_def dest!: set_update_subset_insert [THEN subsetD])
  ultimately have "app_inv ?a" using inv(2,3) t by (simp add: app_inv_def changeChannel_end_def with_tv_def)
  then show ?thesis using m inv(3) t by (simp add: tv_inv_def stream_of_def with_app_def app_of_def changeChannel_end_def)
qed

lemma inv_stream:
  assumes "tv_inv q" and "sc_step plat e (stream_of q) m" and "well_behaved e (stream_of q)" and "\<not> from_client e"
    and "creates_streams plat"
  shows "tv_inv (with_stream m q)"
proof -
  have inv: "machine_inv (stream_of q)" "app_inv (app_of q)" using assms(1) by (simp_all add: tv_inv_def)
  have m: "machine_inv m" using machine_inv_step [OF assms(2) inv(1) assms(3,5)] .
  let ?a = "(app_of q)\<lparr>sc := ctl m\<rparr>"
  note f = sc_step_frame [OF assms(2) inv(1) assms(3,5,4)]
  have s: "sc_currentVolume (sc ?a) = sc_currentVolume (sc (app_of q))" "dateRecievedCallback (sc ?a) = dateRecievedCallback (sc (app_of q))"
    "volumeReportCallback (sc ?a) = volumeReportCallback (sc (app_of q))"
    using f by (simp_all add: settings_def)
  have c: "dial_fields (tv ?a) = dial_fields (tv (app_of q))" "tv_currentVolume (tv ?a) = tv_currentVolume (tv (app_of q))"
    using f inv(2) by (auto simp: client_follows_def app_inv_def tv_def registerCurrentDate_def dial_fields_def)
  have "volume_inv ?a" using s c(2) by (intro volume_frame [OF app_inv_volume [OF inv(2)]]) simp_all
  then have a: "app_inv ?a" using app_inv_frame [OF inv(2)] c s by blast
  have "dials m \<noteq> [] \<Longrightarrow> dial_threads q \<noteq> []" using sc_step_dials [OF assms(2,4)] by auto
  then show ?thesis using m a c(1) assms(1) by (simp add: tv_inv_def dial_fields_def)
qed

end
