(* ===== verification/Tv_Startup.thy ===== *)
theory Tv_Startup
  imports Tv_Safety
begin

section \<open>Switching the program on\<close>

text \<open>
  The start of the program: \<open>main\<close> calls its statements one after the other, and the threads it creates
  run beside it from the moment they are created. What holds when \<open>main\<close> is ready to wait for the EXIT key, and what
  a key does that is pressed before.
\<close>

subsection \<open>The screen\<close>

lemma callback_screen:
  assumes "remoteControllerCallback plat code type value a = Inr a'"
  shows "gc a' = gc a \<or> (\<exists>e. gc a' = gc_handle e (gc a))"
proof -
  let ?i = "with_tv (\<lambda>t. t\<lparr>channelInfo := the (snd (getChannelInfo (Some (channelInfo (tv a))) (sc a)))\<rparr>) a"
  have "gc a' \<in> {gc a, drawProgramNumber (gc a), drawInfoRect (date_tmpMonth (currentDateMain (tv ?i)))
      (date_day (currentDateMain (tv ?i))) (date_Year (currentDateMain (tv ?i)))
      (channel_audioPid (channelInfo (tv ?i))) (channel_videoPid (channelInfo (tv ?i))) (gc a)}
      \<or> (\<exists>v. gc a' = drawVolumeBar v (gc a))"
  proof (cases "code \<in> {KEYCODE_INFO, KEYCODE_P_PLUS, KEYCODE_P_MINUS, KEYCODE_V_PLUS, KEYCODE_V_MINUS, KEYCODE_MUTE}")
    case True
    then show ?thesis
      using assms
      by (elim insertE) (auto simp: remoteControllerCallback_def keycodes c_bind_eq_Inr Let_def with_tv_def)
  next
    case False
    then show ?thesis using assms by (auto simp: remoteControllerCallback_def with_tv_def split: if_splits)
  qed
  then show ?thesis
    by (auto intro: exI [of _ Draw_Program] exI [of _ "Draw_Volume _"] exI [of _ "Draw_Info _ _ _ _ _"])
qed

definition surfaces :: "'g gc_state \<Rightarrow> unit heap_ptr \<times> unit heap_ptr \<times> u8 \<times> bool" where
  "surfaces g = (primary g, dfbInterface g, stopDrawing g, graphicsMutex g)"

definition overlays_timed :: "'g gc_state \<Rightarrow> bool" where
  "overlays_timed g \<longleftrightarrow> (\<forall>ov. overlay_shown ov g = timer_armed ov g)"

lemma overlays_timed_core: "screen_core g' = screen_core g \<Longrightarrow> overlays_timed g' = overlays_timed g \<and> surfaces g' = surfaces g"
proof -
  assume "screen_core g' = screen_core g"
  then have "overlay_shown ov g' = overlay_shown ov g \<and> timer_armed ov g' = timer_armed ov g" for ov
    by (cases ov) (simp_all add: screen_core_def timer_armed_def)
  then show ?thesis using \<open>screen_core g' = screen_core g\<close> by (simp add: overlays_timed_def surfaces_def screen_core_def)
qed

lemma overlays_timed_handle:
  "overlays_timed g \<Longrightarrow> overlays_timed (gc_handle e g)" "surfaces (gc_handle e g) = surfaces g"
proof -
  show "overlays_timed g \<Longrightarrow> overlays_timed (gc_handle e g)"
    using overlays.shown_iff_armed [of _ g "[e]"] by (simp add: overlays_timed_def)
  show "surfaces (gc_handle e g) = surfaces g"
  proof (cases e)
    case (Expires ov)
    then show ?thesis by (cases ov) (simp_all add: surfaces_def gc_op_defs)
  qed (simp_all add: surfaces_def gc_op_defs Let_def)
qed

lemma overlays_timed_cong:
  assumes "componentsToDraw g' = componentsToDraw g" and "programNumberTimer g' = programNumberTimer g"
    and "volumeTimer g' = volumeTimer g" and "infoTimer g' = infoTimer g"
  shows "overlays_timed g' = overlays_timed g"
proof -
  have "overlay_shown ov g' = overlay_shown ov g \<and> timer_armed ov g' = timer_armed ov g" for ov
    using assms by (cases ov) (simp_all add: timer_armed_def)
  then show ?thesis by (simp add: overlays_timed_def)
qed

lemmas screen_defs = graphicsControllerDeinit_begin_def graphicsControllerDeinit_wait_def graphicsControllerDeinit_wake_def

lemma stop_screen [simp]:
  "overlays_timed (graphicsControllerDeinit_begin g) = overlays_timed g"
  "overlays_timed (graphicsControllerDeinit_wait g) = overlays_timed g"
  "overlays_timed (graphicsControllerDeinit_wake g) = overlays_timed g"
  "surfaces (graphicsControllerDeinit_begin g) = (primary g, dfbInterface g, 1, graphicsMutex g)"
  "surfaces (graphicsControllerDeinit_wait g) = (primary g, dfbInterface g, stopDrawing g, False)"
  "surfaces (graphicsControllerDeinit_wake g) = (primary g, dfbInterface g, stopDrawing g, True)"
  by (rule overlays_timed_cong, simp_all add: screen_defs)+ (simp_all add: screen_defs surfaces_def)

lemma press_screen:
  assumes "remoteControllerCallback plat code type value a = Inr a'"
  shows "surfaces (gc a') = surfaces (gc a)" and "overlays_timed (gc a) \<Longrightarrow> overlays_timed (gc a')"
  using callback_screen [OF assms] overlays_timed_handle by auto

subsection \<open>The steps of the start\<close>

text \<open>The initial values of the variables of all modules.\<close>

definition switched_off :: "'m \<Rightarrow> 'd \<Rightarrow> 'g \<Rightarrow> ('m, 'd, 'g) app rc_state" where
  "switched_off m d g = \<lparr>rc_threadExit = 0, callback = None,
     rc_client = \<lparr>sc = initial_state m d tv_start, gc = gc_start g\<rparr>\<rparr>"

text \<open>The machine at the wait of \<open>main\<close>, with the first part of the controller thread done.\<close>

definition whole_start :: "task_pc \<Rightarrow> ('m, 'd, tv_state) sc_state \<Rightarrow> ('m, 'd, 'g) app rc_state \<Rightarrow> ('m, 'd, 'g) whole" where
  "whole_start pc st s = \<lparr>main_at = Main_Ready, input_at = Reading, render_at = Rendering, task_at = pc,
     task_wake = False, dial_threads = [], prog = s\<lparr>rc_client := (rc_client s)\<lparr>sc := st\<rparr>\<rparr>\<rparr>"

text \<open>A configuration with a program number between 0 and 18.\<close>

definition config_ok :: "('m, 'd) platform \<Rightarrow> char list option \<Rightarrow> ('m, 'd, 'a) sc_state \<Rightarrow> bool" where
  "config_ok plat config_file s \<longleftrightarrow> (case loadInitialInfo plat config_file s of
     Inl _ \<Rightarrow> False
   | Inr (rc, st) \<Rightarrow> rc = SC_NO_ERROR \<and> 0 \<le> sint (programNumber st) \<and> sint (programNumber st) \<le> 18)"

lemma loadInitialInfo_client:
  "loadInitialInfo plat config_file (s\<lparr>client := c\<rparr>) =
     c_bind (loadInitialInfo plat config_file s) (\<lambda>(rc, st). Inr (rc, st\<lparr>client := c\<rparr>))"
  by (cases "loadConfigFile (dvb_t plat) config_file (configFile s)") (auto simp: loadInitialInfo_def Let_def)

lemma graphicsControllerInit_surfaces:
  assumes "graphicsControllerInit dfb s = Inr (GC_NO_ERROR, s')"
  shows "surfaces s' = (Ptr (), Ptr (), stopDrawing s, graphicsMutex s)" and "\<not> showVolume (componentsToDraw s')"
    and "overlays_timed s'"
proof -
  show "surfaces s' = (Ptr (), Ptr (), stopDrawing s, graphicsMutex s)"
    using assms by (auto simp: graphicsControllerInit_def dfb_out_eq Let_def dfb_checked_def DFBCHECK_def surfaces_def
        setTimerParams_def c_bind_eq_Inr split: if_splits prod.splits)
  show "\<not> showVolume (componentsToDraw s')" using graphicsControllerInit_success [OF assms, of Volume_Overlay] by simp
  show "overlays_timed s'" using graphicsControllerInit_success [OF assms] by (simp add: overlays_timed_def timer_armed_def)
qed

lemma main_begin_waits:
  assumes "main_begin plat dfb rc_failed config_file s = Inr (None, s')"
  defines "a \<equiv> with_tv (\<lambda>t. t\<lparr>keyTimer := Timer_Idle,
               currentTime := (currentTime t)\<lparr>time_hours := 30, time_Year := 1000\<rparr>\<rparr>) (rc_client s)"
  shows "\<exists>st g. loadInitialInfo plat config_file (sc a) = Inr (SC_NO_ERROR, st)
    \<and> graphicsControllerInit dfb (gc (rc_client s)) = Inr (GC_NO_ERROR, g)
    \<and> s' = s\<lparr>callback := Some (remoteControllerCallback plat), rc_client := \<lparr>sc = call_void plat Pthread_Create
        (st\<lparr>dateRecievedCallback := Some registerCurrentDate, volumeReportCallback := Some registerCurrentVolume\<rparr>), gc = g\<rparr>\<rparr>"
proof -
  have gc: "gc a = gc (rc_client s)" by (simp add: a_def with_tv_def)
  obtain st where l: "loadInitialInfo plat config_file (sc a) = Inr (SC_NO_ERROR, st)"
    using assms(1) by (auto simp: main_begin_def main_up_defs c_bind_eq_Inr Let_def a_def [symmetric] split: if_splits prod.splits)
  obtain g where "graphicsControllerInit dfb (gc (rc_client s)) = Inr (GC_NO_ERROR, g)"
    "s' = s\<lparr>callback := Some (remoteControllerCallback plat), rc_client := a\<lparr>sc := call_void plat Pthread_Create
        (st\<lparr>dateRecievedCallback := Some registerCurrentDate, volumeReportCallback := Some registerCurrentVolume\<rparr>), gc := g\<rparr>\<rparr>"
    using assms(1) l gc
    by (auto simp: main_begin_def main_up_defs a_def [symmetric] register_simps streamControllerInit_def call_simps Let_def
        c_bind_eq_Inr split: if_splits)
  then show ?thesis using l by (intro exI conjI) (auto intro: app.equality)
qed


text \<open>
  Where \<open>main\<close> stands during the start: at its beginning; with the configuration loaded; with the input thread created; with
  the callback for keys, the callback for dates and the callback for the volume registered; with the controller
  thread created; with the graphics initialised. A statement that fails makes \<open>main\<close> return -1, which ends
  the program.
\<close>

datatype up_pc = Up_Start | Up_Loaded | Up_Input | Up_Registered | Up_Date | Up_Volume | Up_Stream | Up_Ready

fun up_part ::
  "('m, 'd) platform \<Rightarrow> 'g dfb \<Rightarrow> char list option \<Rightarrow> up_pc \<Rightarrow> ('m, 'd, 'g) app rc_state
   \<Rightarrow> (int option \<times> ('m, 'd, 'g) app rc_state) c_res" where
  "up_part plat dfb config_file Up_Start s = main_load plat config_file s"
| "up_part plat dfb config_file Up_Loaded s = main_input_up False s"
| "up_part plat dfb config_file Up_Input s = main_register plat s"
| "up_part plat dfb config_file Up_Registered s = main_date_up s"
| "up_part plat dfb config_file Up_Date s = main_volume_up s"
| "up_part plat dfb config_file Up_Volume s = main_stream_up plat s"
| "up_part plat dfb config_file Up_Stream s = main_graphics_up dfb s"
| "up_part plat dfb config_file Up_Ready s = Inr (None, s)"

fun up_next :: "up_pc \<Rightarrow> up_pc" where
  "up_next Up_Start = Up_Loaded" | "up_next Up_Loaded = Up_Input" | "up_next Up_Input = Up_Registered"
| "up_next Up_Registered = Up_Date" | "up_next Up_Date = Up_Volume" | "up_next Up_Volume = Up_Stream"
| "up_next Up_Stream = Up_Ready" | "up_next Up_Ready = Up_Ready"

text \<open>
  The program during the start: where \<open>main\<close> is, whether the controller thread has run its first part, and the machine
  as it will be when \<open>main\<close> is ready. A thread that has not been created takes no step.
\<close>

record ('m, 'd, 'g) rising =
  up_at :: up_pc
  up_task :: bool
  up_whole :: "('m, 'd, 'g) whole"

definition rising_start :: "('m, 'd, 'g) app rc_state \<Rightarrow> ('m, 'd, 'g) rising" where
  "rising_start s = \<lparr>up_at = Up_Start, up_task = False, up_whole = \<lparr>main_at = Main_Ready, input_at = Reading,
     render_at = Rendering, task_at = Status_Lock, task_wake = False, dial_threads = [], prog = s\<rparr>\<rparr>"

datatype up_event = Up_Main | Up_Task_Begins | Up_Thread tv_event

inductive up_step ::
  "('m, 'd) platform \<Rightarrow> 'g dfb \<Rightarrow> u16 \<Rightarrow> char list option \<Rightarrow> up_event \<Rightarrow> ('m, 'd, 'g) rising \<Rightarrow> ('m, 'd, 'g) rising \<Rightarrow> bool"
  for plat :: "('m, 'd) platform" and dfb :: "'g dfb" and EV_KEY :: u16 and config_file :: "char list option" where
  up_main: "up_at u \<noteq> Up_Ready \<Longrightarrow> up_part plat dfb config_file (up_at u) (prog (up_whole u)) = Inr (None, s) \<Longrightarrow>
    up_step plat dfb EV_KEY config_file Up_Main u (u\<lparr>up_at := up_next (up_at u), up_whole := (up_whole u)\<lparr>prog := s\<rparr>\<rparr>)"
| up_task_begins: "up_at u = Up_Stream \<or> up_at u = Up_Ready \<Longrightarrow> \<not> up_task u \<Longrightarrow>
    streamControllerTask_begin plat (sc (app_of (up_whole u))) = Inr (pc, st) \<Longrightarrow>
    up_step plat dfb EV_KEY config_file Up_Task_Begins u (u\<lparr>up_task := True,
      up_whole := (with_app ((app_of (up_whole u))\<lparr>sc := st\<rparr>) (up_whole u))\<lparr>task_at := pc\<rparr>\<rparr>)"
| up_input: "up_at u \<noteq> Up_Start \<Longrightarrow> up_at u \<noteq> Up_Loaded \<Longrightarrow> tv_step plat dfb EV_KEY (Input r) (up_whole u) q \<Longrightarrow>
    up_step plat dfb EV_KEY config_file (Up_Thread (Input r)) u (u\<lparr>up_whole := q\<rparr>)"
| up_stream: "up_task u \<Longrightarrow> tv_step plat dfb EV_KEY (Stream e) (up_whole u) q \<Longrightarrow>
    up_step plat dfb EV_KEY config_file (Up_Thread (Stream e)) u (u\<lparr>up_whole := q\<rparr>)"

text \<open>
  The environment during the start: no key is pressed before \<open>main\<close> is ready and the controller thread has run its first
  part; sections are as \<open>well_behaved\<close> says.
\<close>

fun up_ok :: "u16 \<Rightarrow> up_event \<Rightarrow> ('m, 'd, 'g) rising \<Rightarrow> bool" where
  "up_ok EV_KEY (Up_Thread (Input r)) u \<longleftrightarrow> (\<forall>e. r = Some e \<longrightarrow> \<not> key_event EV_KEY e)"
| "up_ok EV_KEY (Up_Thread (Stream e)) u \<longleftrightarrow> well_behaved e (stream_of (up_whole u))"
| "up_ok EV_KEY _ u \<longleftrightarrow> True"

inductive up_reach ::
  "('m, 'd) platform \<Rightarrow> 'g dfb \<Rightarrow> u16 \<Rightarrow> char list option \<Rightarrow> ('m, 'd, 'g) app rc_state \<Rightarrow> ('m, 'd, 'g) rising \<Rightarrow> bool"
  for plat :: "('m, 'd) platform" and dfb :: "'g dfb" and EV_KEY :: u16 and config_file :: "char list option"
    and s\<^sub>0 :: "('m, 'd, 'g) app rc_state" where
  up_starts: "up_reach plat dfb EV_KEY config_file s\<^sub>0 (rising_start s\<^sub>0)"
| up_steps: "up_reach plat dfb EV_KEY config_file s\<^sub>0 u \<Longrightarrow> up_ok EV_KEY e u \<Longrightarrow> up_step plat dfb EV_KEY config_file e u u' \<Longrightarrow>
    up_reach plat dfb EV_KEY config_file s\<^sub>0 u'"

text \<open>Without other threads the start is \<open>main_begin\<close>, followed by the first part of the controller thread.\<close>

lemma main_then_None: "main_then m f = Inr (None, s) \<longleftrightarrow> (\<exists>s1. m = Inr (None, s1) \<and> f s1 = Inr (None, s))"
  by (auto simp: main_then_def c_bind_eq_Inr split: option.splits)

lemma up_main_reach:
  assumes "up_reach plat dfb EV_KEY config_file s\<^sub>0 u" and "up_at u \<noteq> Up_Ready"
    and "up_part plat dfb config_file (up_at u) (prog (up_whole u)) = Inr (None, s)"
  shows "up_reach plat dfb EV_KEY config_file s\<^sub>0 (u\<lparr>up_at := up_next (up_at u), up_whole := (up_whole u)\<lparr>prog := s\<rparr>\<rparr>)"
  using up_steps [OF assms(1) _ up_main [OF assms(2,3)]] by simp

lemma up_reach_begin:
  assumes "main_begin plat dfb False config_file s\<^sub>0 = Inr (None, s)"
    and "streamControllerTask_begin plat (sc (rc_client s)) = Inr (pc, st)"
  shows "up_reach plat dfb EV_KEY config_file s\<^sub>0 \<lparr>up_at = Up_Ready, up_task = True, up_whole = whole_start pc st s\<rparr>"
proof -
  let ?u = "\<lambda>pc s. \<lparr>up_at = pc, up_task = False, up_whole = (up_whole (rising_start s\<^sub>0))\<lparr>prog := s\<rparr>\<rparr>"
  let ?R = "up_reach plat dfb EV_KEY config_file s\<^sub>0"
  have step: "?R (?u (up_next p) s')" if "?R (?u p s)" "p \<noteq> Up_Ready" "up_part plat dfb config_file p s = Inr (None, s')" for p s s'
    using up_main_reach [OF that(1), of s'] that(2,3) by simp
  have "?R (?u Up_Start s\<^sub>0)" using up_starts [of plat dfb EV_KEY config_file s\<^sub>0] by (simp add: rising_start_def)
  moreover obtain s1 s2 s3 s4 s5 s6 where p: "up_part plat dfb config_file Up_Start s\<^sub>0 = Inr (None, s1)"
    "up_part plat dfb config_file Up_Loaded s1 = Inr (None, s2)" "up_part plat dfb config_file Up_Input s2 = Inr (None, s3)"
    "up_part plat dfb config_file Up_Registered s3 = Inr (None, s4)" "up_part plat dfb config_file Up_Date s4 = Inr (None, s5)"
    "up_part plat dfb config_file Up_Volume s5 = Inr (None, s6)" "up_part plat dfb config_file Up_Stream s6 = Inr (None, s)"
    using assms(1) by (auto simp: main_begin_def main_then_None)
  ultimately have "?R (?u Up_Loaded s1)" using step [of Up_Start s\<^sub>0 s1] by simp
  then have "?R (?u Up_Input s2)" using step [of Up_Loaded s1 s2] p by simp
  then have "?R (?u Up_Registered s3)" using step [of Up_Input s2 s3] p by simp
  then have "?R (?u Up_Date s4)" using step [of Up_Registered s3 s4] p by simp
  then have "?R (?u Up_Volume s5)" using step [of Up_Date s4 s5] p by simp
  then have "?R (?u Up_Stream s6)" using step [of Up_Volume s5 s6] p by simp
  then have r: "?R (?u Up_Ready s)" using step [of Up_Stream s6 s] p by simp
  have "up_step plat dfb EV_KEY config_file Up_Task_Begins (?u Up_Ready s)
      \<lparr>up_at = Up_Ready, up_task = True, up_whole = whole_start pc st s\<rparr>"
    using up_task_begins [of "?u Up_Ready s" plat pc st dfb EV_KEY config_file] assms(2)
    by (simp add: rising_start_def whole_start_def with_app_def app_of_def)
  from up_steps [OF r _ this] show ?thesis by simp
qed

subsection \<open>The invariant of the start\<close>

definition started_tv :: tv_state where
  "started_tv = tv_start\<lparr>keyTimer := Timer_Idle, currentTime := (currentTime tv_start)\<lparr>time_hours := 30, time_Year := 1000\<rparr>\<rparr>"

definition loaded :: "('m, 'd) platform \<Rightarrow> char list option \<Rightarrow> 'm \<Rightarrow> 'd \<Rightarrow> ('m, 'd, tv_state) sc_state \<Rightarrow> bool" where
  "loaded plat config_file m d s \<longleftrightarrow>
     loadInitialInfo plat config_file ((initial_state m d tv_start)\<lparr>client := started_tv\<rparr>) = Inr (SC_NO_ERROR, s)"

text \<open>The controller as \<open>main\<close> leaves it at each point, and the program.\<close>

definition up_registered :: "('m, 'd, tv_state) sc_state \<Rightarrow> ('m, 'd, tv_state) sc_state" where
  "up_registered s = s\<lparr>dateRecievedCallback := Some registerCurrentDate, volumeReportCallback := Some registerCurrentVolume\<rparr>"

fun up_controller :: "('m, 'd) platform \<Rightarrow> up_pc \<Rightarrow> ('m, 'd, tv_state) sc_state \<Rightarrow> ('m, 'd, tv_state) sc_state" where
  "up_controller plat Up_Date s = s\<lparr>dateRecievedCallback := Some registerCurrentDate\<rparr>"
| "up_controller plat Up_Volume s = up_registered s"
| "up_controller plat Up_Stream s = call_void plat Pthread_Create (up_registered s)"
| "up_controller plat Up_Ready s = call_void plat Pthread_Create (up_registered s)"
| "up_controller plat _ s = s"

definition up_graphics :: "'g dfb \<Rightarrow> 'g \<Rightarrow> up_pc \<Rightarrow> 'g gc_state \<Rightarrow> bool" where
  "up_graphics dfb g pc gr \<longleftrightarrow>
     (if pc = Up_Ready then graphicsControllerInit dfb (gc_start g) = Inr (GC_NO_ERROR, gr) else gr = gc_start g)"

definition up_callback :: "('m, 'd) platform \<Rightarrow> up_pc \<Rightarrow> ('m, 'd, 'g) app rc_callback option" where
  "up_callback plat pc = (if pc \<in> {Up_Start, Up_Loaded, Up_Input} then None else Some (remoteControllerCallback plat))"

definition up_shape ::
  "('m, 'd) platform \<Rightarrow> 'g dfb \<Rightarrow> char list option \<Rightarrow> 'm \<Rightarrow> 'd \<Rightarrow> 'g \<Rightarrow> up_pc \<Rightarrow> ('m, 'd, 'g) app rc_state \<Rightarrow> bool" where
  "up_shape plat dfb config_file m d g pc s \<longleftrightarrow>
     callback s = up_callback plat pc \<and> rc_threadExit s = 0 \<and> up_graphics dfb g pc (gc (rc_client s))
     \<and> (if pc = Up_Start then sc (rc_client s) = initial_state m d tv_start
        else \<exists>s1. loaded plat config_file m d s1 \<and> sc (rc_client s) = up_controller plat pc s1)"

lemma shape_start: "up_shape plat dfb config_file m d g Up_Start (switched_off m d g)"
  by (simp add: up_shape_def switched_off_def up_callback_def up_graphics_def)

lemma initial_client: "client (initial_state m d t) = t"
  by (simp add: initial_state_def)

lemma shape_main:
  assumes "up_shape plat dfb config_file m d g pc s" and "pc \<noteq> Up_Ready" and "up_part plat dfb config_file pc s = Inr (None, s')"
  shows "up_shape plat dfb config_file m d g (up_next pc) s'"
proof (cases "pc = Up_Start")
  case True
  then show ?thesis
    using assms(1,3)
    by (auto simp: up_shape_def up_callback_def up_graphics_def main_up_defs initial_client started_tv_def loaded_def c_bind_eq_Inr Let_def with_tv_def
        split: if_splits)
next
  case False
  then obtain s1 where s1: "loaded plat config_file m d s1" "sc (rc_client s) = up_controller plat pc s1"
    using assms(1) by (auto simp: up_shape_def)
  show ?thesis
    using assms s1 False
    by (cases pc) (auto simp: up_shape_def up_callback_def up_graphics_def main_up_defs register_simps streamControllerInit_def up_registered_def
        call_simps c_bind_eq_Inr Let_def split: if_splits)
qed

text \<open>An event that is no key event leaves the program alone.\<close>

lemma silent_input:
  assumes "tv_step plat dfb EV_KEY (Input r) q q'" and "\<And>e. r = Some e \<Longrightarrow> \<not> key_event EV_KEY e"
  shows "\<exists>i. q' = q\<lparr>input_at := i\<rparr>"
  using assms(1)
proof cases
  case (input_returns res s)
  then have "s = prog q"
    using assms(2) by (auto simp: inputEventTask_return_def getKey_def split: option.splits if_splits)
  then show ?thesis using input_returns by (intro exI) (simp add: exit_signalled_def)
qed

lemma up_reach_shape:
  assumes "up_reach plat dfb EV_KEY config_file (switched_off m d g) u" and "\<not> up_task u"
  shows "up_shape plat dfb config_file m d g (up_at u) (prog (up_whole u)) \<and> main_at (up_whole u) = Main_Ready
    \<and> dial_threads (up_whole u) = [] \<and> \<not> task_wake (up_whole u) \<and> render_at (up_whole u) = Rendering"
  using assms
proof (induction rule: up_reach.induct)
  case up_starts
  then show ?case using shape_start by (simp add: rising_start_def)
next
  case (up_steps u e u')
  from up_steps(3) show ?case
  proof cases
    case (up_main s)
    then show ?thesis using up_steps.IH up_steps.prems shape_main [of plat dfb config_file m d g "up_at u" "prog (up_whole u)" s] by simp
  next
    case (up_input r q)
    then obtain i where "q = (up_whole u)\<lparr>input_at := i\<rparr>"
      using silent_input [OF up_input(5)] up_steps(2) by auto
    then show ?thesis using up_input(2) up_steps.IH up_steps.prems by simp
  qed (use up_steps.prems in simp_all)
qed

text \<open>The controller that its thread finds.\<close>

lemma up_controller_facts:
  assumes "loaded plat config_file m d s1" and "config_ok plat config_file (initial_state m d tv_start)"
    and "c = up_controller plat Up_Stream s1"
  shows "start_ok c" and "settings_ok c" and "dateRecievedCallback c = Some registerCurrentDate"
    and "volumeReportCallback c = Some registerCurrentVolume" and "sc_currentVolume c = 5" and "client c = started_tv"
    and "\<not> statusMutex c" and "\<not> timeTablesRecieved c"
proof -
  obtain s2 where s2: "loadInitialInfo plat config_file (initial_state m d tv_start) = Inr (SC_NO_ERROR, s2)"
    "s1 = s2\<lparr>client := started_tv\<rparr>"
    using assms(1) by (auto simp: loaded_def loadInitialInfo_client c_bind_eq_Inr)
  have f: "0 \<le> sint (programNumber s1)" "sint (programNumber s1) \<le> 18" using assms(2) s2 by (simp_all add: config_ok_def)
  have k: "sc_currentVolume s1 = 5" "calls s1 = []" "client s1 = started_tv" "\<not> statusMutex s1" "\<not> timeTablesRecieved s1"
    using s2 by (auto simp: loadInitialInfo_def c_bind_eq_Inr Let_def initial_state_def split: if_splits prod.splits)
  show "start_ok c" "settings_ok c" "dateRecievedCallback c = Some registerCurrentDate"
    "volumeReportCallback c = Some registerCurrentVolume" "sc_currentVolume c = 5" "client c = started_tv"
    "\<not> statusMutex c" "\<not> timeTablesRecieved c"
    using f k by (simp_all add: assms(3) up_registered_def start_ok_def settings_ok_def registered_def call_simps)
qed

lemma begun_inv:
  fixes q :: "('m, 'd, 'g) whole"
  assumes "loaded plat config_file m d s1" and "config_ok plat config_file (initial_state m d tv_start)"
    and "mallocs_succeed plat" and "streamControllerTask_begin plat (up_controller plat Up_Stream s1) = Inr (pc, st)"
    and "stream_of q = machine_start pc st" and "\<not> showVolume (componentsToDraw (gc (app_of q)))"
  shows "tv_inv q"
proof -
  let ?c = "up_controller plat Up_Stream s1"
  note c = up_controller_facts [OF assms(1,2) refl]
  have m: "machine_inv (machine_start pc st)" by (rule machine_inv_start [OF c(1) assms(3,4)])
  have cl: "client st = client ?c" by (rule task_begin_client [OF assms(3,4)])
  have "tables_live (allocated plat ?c)" by (simp add: tables_live_def allocated_def)
  from task_tuner_frame [OF this, of plat pc st] have set: "settings st = settings ?c"
    using assms(4) by (simp add: task_begin_allocates [OF assms(3)]) (simp add: allocated_def settings_def)
  have sc: "sc (app_of q) = st" "dial_threads q = []" using assms(5) by (simp_all add: stream_of_def machine_start_def)
  have "volume_inv (app_of q)"
    using set cl c(4-6) assms(6) sc by (simp add: volume_inv_def tv_def settings_def started_tv_def tv_start_def)
  moreover have "dial_inv (tv (app_of q))" using cl c(6) sc by (simp add: tv_def dial_inv_def started_tv_def tv_start_def)
  ultimately have "app_inv (app_of q)" using set cl c(3,6) sc by (simp add: app_inv_def settings_def tv_def started_tv_def)
  then show ?thesis using m assms(5) sc by (simp add: tv_inv_def)
qed

lemma inv_hidden:
  assumes "tv_inv q" and "\<not> showVolume (componentsToDraw g)"
  shows "tv_inv (with_app ((app_of q)\<lparr>gc := g\<rparr>) q)"
  using assms by (auto simp: tv_inv_def app_inv_def volume_inv_def stream_of_def with_app_def app_of_def tv_def)

lemma up_graphics_hidden: "up_graphics dfb g pc gr \<Longrightarrow> \<not> showVolume (componentsToDraw gr)"
  using graphicsControllerInit_surfaces(2) [of dfb "gc_start g" gr] by (auto simp: up_graphics_def gc_start_def split: if_splits)

definition up_view :: "('m, 'd) platform \<Rightarrow> 'g dfb \<Rightarrow> 'g \<Rightarrow> up_pc \<Rightarrow> ('m, 'd, 'g) whole \<Rightarrow> bool" where
  "up_view plat dfb g pc q \<longleftrightarrow> main_at q = Main_Ready \<and> render_at q = Rendering
     \<and> callback (prog q) = Some (remoteControllerCallback plat) \<and> rc_threadExit (prog q) = 0
     \<and> (pc = Up_Stream \<or> pc = Up_Ready) \<and> up_graphics dfb g pc (gc (app_of q))"

lemma up_main_begun:
  assumes "tv_inv q" and "up_view plat dfb g pc q" and "pc \<noteq> Up_Ready" and "up_part plat dfb config_file pc (prog q) = Inr (None, s)"
  shows "tv_inv (q\<lparr>prog := s\<rparr>) \<and> up_view plat dfb g (up_next pc) (q\<lparr>prog := s\<rparr>)"
proof -
  have pc: "pc = Up_Stream" using assms(2,3) by (simp add: up_view_def)
  obtain gr where gr: "graphicsControllerInit dfb (gc_start g) = Inr (GC_NO_ERROR, gr)"
    "s = (prog q)\<lparr>rc_client := (app_of q)\<lparr>gc := gr\<rparr>\<rparr>"
    using assms(2,4) by (auto simp: pc up_view_def up_graphics_def main_graphics_up_def ERRORCHECK_eq app_of_def c_bind_eq_Inr split: if_splits)
  have "q\<lparr>prog := s\<rparr> = with_app ((app_of q)\<lparr>gc := gr\<rparr>) q" by (simp add: gr(2) with_app_def)
  then show ?thesis
    using inv_hidden [OF assms(1) graphicsControllerInit_surfaces(2) [OF gr(1)]] assms(2) gr
    by (simp add: pc up_view_def up_graphics_def app_of_def with_app_def)
qed

lemma up_task_begun:
  assumes "up_reach plat dfb EV_KEY config_file (switched_off m d g) u" and "mallocs_succeed plat"
    and "config_ok plat config_file (initial_state m d tv_start)" and "\<not> up_task u" and "up_at u = Up_Stream \<or> up_at u = Up_Ready"
    and "streamControllerTask_begin plat (sc (app_of (up_whole u))) = Inr (pc, st)"
  defines "q \<equiv> (with_app ((app_of (up_whole u))\<lparr>sc := st\<rparr>) (up_whole u))\<lparr>task_at := pc\<rparr>"
  shows "tv_inv q \<and> up_view plat dfb g (up_at u) q"
proof -
  note sh = up_reach_shape [OF assms(1,4)]
  then obtain s1 where s1: "loaded plat config_file m d s1" "sc (app_of (up_whole u)) = up_controller plat Up_Stream s1"
    using assms(5) by (auto simp: up_shape_def app_of_def)
  have v: "up_view plat dfb g (up_at u) q"
    using sh assms(5) by (auto simp: q_def up_view_def up_shape_def up_callback_def with_app_def app_of_def)
  have "stream_of q = machine_start pc st"
    using sh by (simp add: q_def stream_of_def machine_start_def with_app_def app_of_def)
  moreover have "\<not> showVolume (componentsToDraw (gc (app_of q)))" using v up_graphics_hidden [of dfb g "up_at u" "gc (app_of q)"] by (simp add: up_view_def)
  ultimately have "tv_inv q" using begun_inv [OF s1(1) assms(3,2), of pc st q] assms(6) s1(2) by simp
  then show ?thesis using v by simp
qed

lemma up_reach_begun:
  assumes "up_reach plat dfb EV_KEY config_file (switched_off m d g) u" and "mallocs_succeed plat" and "creates_streams plat"
    and "config_ok plat config_file (initial_state m d tv_start)" and "up_task u"
  shows "tv_inv (up_whole u) \<and> up_view plat dfb g (up_at u) (up_whole u)"
  using assms(1,5)
proof (induction rule: up_reach.induct)
  case up_starts
  then show ?case by (simp add: rising_start_def)
next
  case (up_steps u e u')
  from up_steps(3) show ?case
  proof cases
    case (up_main s)
    then show ?thesis using up_main_begun [of "up_whole u" plat dfb g "up_at u" config_file s] up_steps.IH up_steps.prems by simp
  next
    case (up_task_begins pc st)
    show ?thesis
      using up_task_begun [OF up_steps(1) assms(2,4) up_task_begins(4,3,5)] up_task_begins(2) by simp
  next
    case (up_input r q)
    then obtain i where "q = (up_whole u)\<lparr>input_at := i\<rparr>"
      using silent_input [OF up_input(5)] up_steps(2) by auto
    then show ?thesis using up_input(2) up_steps.IH up_steps.prems by (simp add: up_view_def tv_inv_def)
  next
    case (up_stream e q)
    then have IH: "tv_inv (up_whole u)" "up_view plat dfb g (up_at u) (up_whole u)" using up_steps.IH by simp_all
    obtain m where m: "\<not> from_client e" "sc_step plat e (stream_of (up_whole u)) m" "q = with_stream m (up_whole u)"
      using up_stream(4) by cases auto
    have "tv_inv q" using inv_stream [OF IH(1) m(2) _ m(1) assms(3)] up_steps(2) up_stream(1) m(3) by simp
    moreover have "up_view plat dfb g (up_at u) q" using IH(2) m(3) by (simp add: up_view_def with_stream_def with_app_def app_of_def)
    ultimately show ?thesis using up_stream(2) by simp
  qed
qed

text \<open>The stream controller when \<open>main\<close> has reached its wait before the controller thread has done anything.\<close>

lemma started_controller:
  assumes "main_begin plat dfb False config_file (switched_off m d g) = Inr (None, s)"
    and "config_ok plat config_file (initial_state m d tv_start)"
  shows "settings_ok (sc (rc_client s))" and "dateRecievedCallback (sc (rc_client s)) = Some registerCurrentDate"
    and "\<not> statusMutex (sc (rc_client s))" and "\<not> timeTablesRecieved (sc (rc_client s))"
    and "dial_ready (client (sc (rc_client s)))"
proof -
  obtain s1 where "loaded plat config_file m d s1" "sc (rc_client s) = up_controller plat Up_Stream s1"
    using main_begin_waits [OF assms(1)]
    by (auto simp: switched_off_def with_tv_def initial_client started_tv_def loaded_def up_registered_def)
  from up_controller_facts [OF this(1) assms(2) this(2)]
  show "settings_ok (sc (rc_client s))" "dateRecievedCallback (sc (rc_client s)) = Some registerCurrentDate"
    "\<not> statusMutex (sc (rc_client s))" "\<not> timeTablesRecieved (sc (rc_client s))" "dial_ready (client (sc (rc_client s)))"
    by (simp_all add: dial_ready_def started_tv_def tv_start_def)
qed

subsection \<open>A key that comes too early\<close>

lemma loaded_fields:
  assumes "loaded plat config_file m d s"
  shows "volumeReportCallback s = None" and "patTable s = Null"
  using assms by (auto simp: loaded_def loadInitialInfo_def c_bind_eq_Inr Let_def initial_state_def split: if_splits prod.splits)

lemma up_window:
  assumes "main_load plat config_file (switched_off m d g) = Inr (None, s)" and "pc \<in> {Up_Input, Up_Registered, Up_Date, Up_Volume}"
  shows "\<exists>u. up_reach plat dfb EV_KEY config_file (switched_off m d g) u \<and> up_at u = pc \<and> \<not> up_task u"
proof -
  let ?R = "\<lambda>pc. \<exists>u. up_reach plat dfb EV_KEY config_file (switched_off m d g) u \<and> up_at u = pc \<and> \<not> up_task u"
  have step: "?R (up_next p)" if r: "?R p" and p: "p \<in> {Up_Loaded, Up_Input, Up_Registered, Up_Date}" for p
  proof -
    obtain u where u: "up_reach plat dfb EV_KEY config_file (switched_off m d g) u" "up_at u = p" "\<not> up_task u" using r by blast
    obtain s' where s': "up_part plat dfb config_file p (prog (up_whole u)) = Inr (None, s')"
      using p by (auto simp: main_up_defs register_simps remoteControllerInit_def)
    from up_main_reach [OF u(1) _, of s'] show ?thesis
      using u p s' by (intro exI [of _ "u\<lparr>up_at := up_next p, up_whole := (up_whole u)\<lparr>prog := s'\<rparr>\<rparr>"]) auto
  qed
  have "up_reach plat dfb EV_KEY config_file (switched_off m d g) (rising_start (switched_off m d g))" by (rule up_starts)
  from up_main_reach [OF this, of s] have "?R Up_Loaded" using assms(1) by (intro exI conjI) (auto simp: rising_start_def)
  then have "?R Up_Input" using step [of Up_Loaded] by simp
  moreover from this have "?R Up_Registered" using step [of Up_Input] by simp
  moreover from this have "?R Up_Date" using step [of Up_Registered] by simp
  moreover from this have "?R Up_Volume" using step [of Up_Date] by simp
  ultimately show ?thesis using assms(2) by blast
qed

text \<open>
  C39. The window at the start, in which a key makes the program fault. The input thread runs from its creation on, while \<open>main\<close> has
  still to register the callbacks; each of the points in between is reached whenever the configuration is loaded. From
  the creation of the thread to the registration of the callback for keys, any press or
  repetition of a key is a call through a null pointer. From there to the registration of the
  volume callback the keys V+ and V- are; and until the controller thread has run its first part, P+ dereferences the
  null pointer to the PAT.
\<close>

theorem start_up_keys_fault:
  assumes "main_load plat config_file (switched_off m d g) = Inr (None, s)" and "key_event EV_KEY e"
  shows "(\<forall>pc \<in> {Up_Input, Up_Registered, Up_Date, Up_Volume}.
       \<exists>u. up_reach plat dfb EV_KEY config_file (switched_off m d g) u \<and> up_at u = pc \<and> \<not> up_task u)
    \<and> (\<forall>u. up_reach plat dfb EV_KEY config_file (switched_off m d g) u \<and> \<not> up_task u \<longrightarrow>
        (up_at u = Up_Input
         \<or> (up_at u = Up_Registered \<or> up_at u = Up_Date) \<and> (ev_code e = KEYCODE_V_PLUS \<or> ev_code e = KEYCODE_V_MINUS)
         \<or> up_at u \<notin> {Up_Start, Up_Loaded} \<and> ev_code e = KEYCODE_P_PLUS \<longrightarrow>
           inputEventTask_return EV_KEY (Some e) (prog (up_whole u)) = Inl Null_Dereference))"
proof (intro conjI ballI allI impI)
  fix pc assume "pc \<in> {Up_Input, Up_Registered, Up_Date, Up_Volume}"
  then show "\<exists>u. up_reach plat dfb EV_KEY config_file (switched_off m d g) u \<and> up_at u = pc \<and> \<not> up_task u"
    by (rule up_window [OF assms(1)])
next
  fix u
  assume u: "up_reach plat dfb EV_KEY config_file (switched_off m d g) u \<and> \<not> up_task u"
    and k: "up_at u = Up_Input
         \<or> (up_at u = Up_Registered \<or> up_at u = Up_Date) \<and> (ev_code e = KEYCODE_V_PLUS \<or> ev_code e = KEYCODE_V_MINUS)
         \<or> up_at u \<notin> {Up_Start, Up_Loaded} \<and> ev_code e = KEYCODE_P_PLUS"
  let ?s = "prog (up_whole u)"
  have sh: "up_shape plat dfb config_file m d g (up_at u) ?s" using up_reach_shape [of plat dfb EV_KEY config_file m d g u] u by simp
  then obtain s1 where s1: "loaded plat config_file m d s1" "sc (rc_client ?s) = up_controller plat (up_at u) s1"
    using k by (auto simp: up_shape_def)
  have f: "patTable (sc (rc_client ?s)) = Null"
    "up_at u = Up_Registered \<or> up_at u = Up_Date \<Longrightarrow> volumeReportCallback (sc (rc_client ?s)) = None"
    using loaded_fields [OF s1(1)] s1(2) by (cases "up_at u"; auto simp: up_registered_def call_simps)+
  have "up_at u \<noteq> Up_Input \<Longrightarrow> remoteControllerCallback plat (ev_code e) (ev_type e) (ev_value e) (rc_client ?s) = Inl Null_Dereference"
    using k f by (auto simp: remoteControllerCallback_def keycodes channelUp_def volumeUp_def volumeDown_def report_volume_def
        call_simps Let_def)
  then show "inputEventTask_return EV_KEY (Some e) ?s = Inl Null_Dereference"
    using sh k assms(2) by (auto simp: inputEventTask_return_def getKey_def call_callback_def up_shape_def up_callback_def)
qed

theorem start_up_keys_fault_witness:
  "\<exists>u. up_reach ideal_platform (\<lambda>_ _. (False, (1280, 720), ())) 1 (Some []) (switched_off 0 () ()) u \<and> up_at u = Up_Input
     \<and> inputEventTask_return 1 (Some \<lparr>ev_type = 1, ev_code = 63, ev_value = 1\<rparr>) (prog (up_whole u)) = Inl Null_Dereference"
proof -
  obtain s where s: "main_load ideal_platform (Some []) (switched_off 0 () ()) = Inr (None, s)"
    by (simp add: main_load_def switched_off_def with_tv_def loadInitialInfo_def loadConfigFile_def loadConfigLines.simps c_fgets_def
        initial_state_def Let_def)
  have k: "key_event 1 \<lparr>ev_type = 1, ev_code = 63, ev_value = 1\<rparr>" by (simp add: key_event_def EV_VALUE_KEYPRESS_def)
  from start_up_keys_fault [OF s k, of "\<lambda>_ _. (False, (1280, 720), ())"] show ?thesis by blast
qed

end
