(* ===== verification/Tv_Program.thy ===== *)
theory Tv_Program
  imports Tv_Startup
begin

section \<open>The life of the program, from switching on to its end\<close>

text \<open>
  The order in which the program releases what it holds, the executions of the whole program from the initial
  values of its variables, and what holds in all of them while the environment keeps to its rules: no thread faults before the
  shutdown, and the render thread never draws on a released surface.
\<close>

subsection \<open>The order of the shutdown\<close>

definition order_inv :: "('m, 'd) platform \<Rightarrow> ('m, 'd, 'g) whole \<Rightarrow> bool" where
  "order_inv plat q \<longleftrightarrow>
    callback (prog q) = (if phase (main_at q) < 7 then Some (remoteControllerCallback plat) else None)
    \<and> rc_threadExit (prog q) = (if phase (main_at q) < 8 then 0 else 1)
    \<and> surfaces (gc (app_of q)) = (if phase (main_at q) < 6
        then (Ptr (), Ptr (), if phase (main_at q) < 3 then 0 else 1, phase (main_at q) = 5) else (Freed, Freed, 1, True))
    \<and> (phase (main_at q) < 6 \<longrightarrow> overlays_timed (gc (app_of q)))
    \<and> (6 \<le> phase (main_at q) \<longrightarrow> render_at q = Render_Ended)
    \<and> (9 \<le> phase (main_at q) \<longrightarrow> input_at q \<noteq> Reading)
    \<and> (11 \<le> phase (main_at q) \<longrightarrow> tables_freed (sc (app_of q)) \<and> \<not> isInitialized (sc (app_of q)) \<and> task_over (task_at q))
    \<and> (phase (main_at q) = 12 \<longrightarrow> keyTimer (tv (app_of q)) = Timer_None)"

text \<open>What the steps of a controller whose thread is over do to freed tables: nothing.\<close>

lemma freed_section: "tables_freed s \<Longrightarrow> sectionReceivedCallback plat buf s = Inr (sig, s') \<Longrightarrow> s' = s"
  by (auto simp: tables_freed_def sectionReceivedCallback_def c_bind_eq_Inr split: option.splits if_splits)

lemma freed_resume:
  assumes "tables_freed s" and "startChannel_resume plat False pc s = Inr (pc', s')"
  shows "tables_freed s' \<and> isInitialized s' = isInitialized s"
  using assms
  by (cases pc) (auto simp: tables_freed_def startChannel_pmt_def parseTimeTables_tdt_def parseTimeTables_tot_def wait_over_def
      call_simps Let_def split: if_splits)

lemma freed_dial: "tables_freed s \<Longrightarrow> changeChannelKey_begin plat ch s = Inr (pc, s') \<Longrightarrow> s' = s"
  by (auto simp: tables_freed_def changeChannelKey_begin_def split: if_splits)

lemma freed_step:
  assumes "sc_step plat e m m'" and "tables_freed (ctl m)" and "task_over (task m)" and "\<not> from_client e"
  shows "tables_freed (ctl m') \<and> isInitialized (ctl m') = isInitialized (ctl m) \<and> task_over (task m')"
  using assms(1)
proof cases
  case (task_waits pc)
  then show ?thesis using assms(3) by (cases "task m") simp_all
next
  case (task_resumes pc s)
  then show ?thesis using assms(3) by (cases "task m") simp_all
next
  case (dial_resumes i pc pc' s)
  then show ?thesis using freed_resume [OF assms(2)] assms(3) by simp
next
  case (section_arrives bs sig s w)
  then show ?thesis using freed_section [OF assms(2)] assms(2,3) by auto
qed (use assms(2-4) in auto)

text \<open>A step of a thread other than \<open>main\<close>, which at most wakes \<open>main\<close>.\<close>

lemma order_frame:
  assumes "order_inv plat q" and "phase (main_at q) < 12"
    and "(main_at q' = main_at q \<or> phase (main_at q) = 1 \<and> phase (main_at q') = 2) \<and> surfaces (gc (app_of q')) = surfaces (gc (app_of q))
      \<or> phase (main_at q) = 4 \<and> phase (main_at q') = 5 \<and> surfaces (gc (app_of q')) = (Ptr (), Ptr (), 1, True)"
    and "callback (prog q') = callback (prog q)" and "rc_threadExit (prog q') = rc_threadExit (prog q)"
    and "phase (main_at q) < 6 \<Longrightarrow> overlays_timed (gc (app_of q)) \<Longrightarrow> overlays_timed (gc (app_of q'))"
    and "render_at q' = render_at q \<or> render_at q' = Render_Ended" and "9 \<le> phase (main_at q) \<Longrightarrow> input_at q' = input_at q"
    and "11 \<le> phase (main_at q) \<Longrightarrow>
      tables_freed (sc (app_of q')) \<and> \<not> isInitialized (sc (app_of q')) \<and> task_over (task_at q')"
  shows "order_inv plat q'"
  using assms(3)
proof (elim disjE conjE)
  assume e: "main_at q' = main_at q" "surfaces (gc (app_of q')) = surfaces (gc (app_of q))"
  show ?thesis unfolding order_inv_def e using assms(1,2,4-9) by (auto simp: order_inv_def)
next
  assume n: "phase (main_at q) = 1" "phase (main_at q') = 2" "surfaces (gc (app_of q')) = surfaces (gc (app_of q))"
  show ?thesis unfolding order_inv_def n(2,3) using assms(1,4-7) n(1) by (simp add: order_inv_def)
next
  assume n: "phase (main_at q) = 4" "phase (main_at q') = 5" "surfaces (gc (app_of q')) = (Ptr (), Ptr (), 1, True)"
  show ?thesis unfolding order_inv_def n(2,3) using assms(1,4-7) n(1) by (simp add: order_inv_def)
qed

lemma order_input:
  assumes "order_inv plat q" and "phase (main_at q) < 12" and "input_at q = Reading"
    and "inputEventTask_return EV_KEY r (prog q) = Inr (res, s)"
    and "pc = main_at q \<or> main_at q = Exit_Wait \<and> pc = Exit_Woken"
  shows "order_inv plat (q\<lparr>main_at := pc, input_at := i, prog := s\<rparr>)"
proof -
  have n: "phase (main_at q) < 9" using assms(1,3) by (auto simp: order_inv_def not_less)
  have s: "callback s = callback (prog q)" "rc_threadExit s = rc_threadExit (prog q)"
    using assms(4)
    by (auto simp: inputEventTask_return_def getKey_def call_callback_def c_bind_eq_Inr split: option.splits if_splits)
  have c: "rc_client s = app_of q \<or> phase (main_at q) < 7 \<and>
      (\<exists>code type v. remoteControllerCallback plat code type v (app_of q) = Inr (rc_client s))"
    using assms(1,4)
    by (auto simp: order_inv_def inputEventTask_return_def getKey_def call_callback_def app_of_def c_bind_eq_Inr
        split: option.splits if_splits)
  have g: "surfaces (gc (rc_client s)) = surfaces (gc (app_of q))"
    "overlays_timed (gc (app_of q)) \<Longrightarrow> overlays_timed (gc (rc_client s))"
    using c press_screen by auto
  show ?thesis using s g n assms(5) by (intro order_frame [OF assms(1,2)]) auto
qed

lemma graphics_down_surfaces:
  assumes "main_graphics_down dfb s = Inr (None, s')"
  shows "surfaces (gc (rc_client s')) = (Freed, Freed, stopDrawing (gc (rc_client s)), graphicsMutex (gc (rc_client s)))
    \<and> callback s' = callback s \<and> rc_threadExit s' = rc_threadExit s"
  using assms
  by (auto simp: main_graphics_down_def graphicsControllerDeinit_finish_def ERRORCHECK_eq dfb_out_eq dfb_do_eq surfaces_def
      c_bind_eq_Inr Let_def split: if_splits)

lemma stream_join_freed:
  assumes "main_stream_join plat s = Inr (None, s')" and "tables_live (sc (rc_client s)) \<or> tables_freed (sc (rc_client s))"
  shows "tables_freed (sc (rc_client s')) \<and> \<not> isInitialized (sc (rc_client s')) \<and> gc (rc_client s') = gc (rc_client s)
    \<and> callback s' = callback s \<and> rc_threadExit s' = rc_threadExit s \<and> client (sc (rc_client s')) = client (sc (rc_client s))"
proof -
  obtain st where st: "streamControllerDeinit_join plat (sc (rc_client s)) = Inr (SC_NO_ERROR, st)"
    "s' = s\<lparr>rc_client := (rc_client s)\<lparr>sc := st\<rparr>\<rparr>"
    using assms(1) by (auto simp: main_stream_join_def ERRORCHECK_eq c_bind_eq_Inr split: if_splits)
  have "tables_freed st \<and> \<not> isInitialized st \<and> client st = client (sc (rc_client s))"
    using st(1) assms(2)
    by (auto simp: tables_live_def streamControllerDeinit_join_def streamControllerDeinit_finish_def free_tables_def call_simps Let_def
        c_bind_eq_Inr tables_freed_def split: if_splits)
  then show ?thesis using st(2) by simp
qed

lemma stream_stop_next:
  assumes "main_stream_stop s = Inr (None, s')"
  shows "isInitialized (sc (rc_client s)) \<and> s' = s\<lparr>rc_client := (rc_client s)\<lparr>sc := (sc (rc_client s))\<lparr>threadExit := 1\<rparr>\<rparr>\<rparr>"
  using assms by (auto simp: main_stream_stop_def streamControllerDeinit_begin_def ERRORCHECK_eq split: if_splits)

text \<open>A statement of \<open>main\<close> that fails returns -1.\<close>

lemma main_parts_fail:
  "main_graphics_down dfb s = Inr (Some n, s') \<Longrightarrow> n = -1" "main_unregister plat s = Inr (Some n, s') \<Longrightarrow> n = -1"
  "main_input_down failed s = Inr (Some n, s') \<Longrightarrow> n = -1" "main_stream_stop s = Inr (Some n, s') \<Longrightarrow> n = -1"
  "main_stream_join plat s = Inr (Some n, s') \<Longrightarrow> n = -1"
  by (auto simp: main_graphics_down_def main_unregister_def main_input_down_def main_stream_stop_def main_stream_join_def ERRORCHECK_eq
      c_bind_eq_Inr split: if_splits prod.splits option.splits)

lemma main_to_cases: "main_to pc r \<noteq> Main_Returned (-1) \<Longrightarrow> (\<And>n. r = Some n \<Longrightarrow> n = -1) \<Longrightarrow> r = None"
  by (cases r) (auto simp: main_to_def)

lemma order_main:
  assumes "main_step plat dfb q q'" and "order_inv plat q" and "main_at q' \<noteq> Main_Returned (-1)"
    and "phase (main_at q) \<le> 10 \<Longrightarrow> tv_inv q"
  shows "order_inv plat q'"
  using assms(1)
proof cases
  case exit_wait
  then show ?thesis using assms(2) by (simp add: order_inv_def)
next
  case stop_drawing
  then show ?thesis
    using assms(2) by (simp add: order_inv_def main_woken_def app_of_def) (simp add: surfaces_def)
next
  case graphics_wait
  then show ?thesis
    using assms(2) by (simp add: order_inv_def main_waiting_def app_of_def) (simp add: surfaces_def)
next
  case (graphics_down r s)
  then have "r = None" using assms(3) main_to_cases [of Gc_Down r] main_parts_fail(1) by auto
  then show ?thesis
    using graphics_down assms(2) graphics_down_surfaces [of dfb "prog q" s]
    by (simp add: order_inv_def main_to_def app_of_def) (simp add: surfaces_def)
next
  case (unregister r s)
  then have "r = None" using assms(3) main_to_cases [of Unregistered r] main_parts_fail(2) by auto
  then show ?thesis
    using unregister assms(2)
    by (auto simp: order_inv_def main_to_def app_of_def main_unregister_def unregisterRemoteControllerCallback_def ERRORCHECK_eq)
next
  case stop_input
  then show ?thesis using assms(2) by (simp add: order_inv_def remoteControllerDeinit_begin_def app_of_def)
next
  case (join_input rc r s)
  then have "r = None" using assms(3) main_to_cases [of Input_Joined r] main_parts_fail(3) by auto
  then show ?thesis
    using join_input assms(2)
    by (auto simp: order_inv_def main_to_def app_of_def main_input_down_def remoteControllerDeinit_def
        remoteControllerDeinit_begin_def ERRORCHECK_eq)
next
  case (stop_stream r s)
  then have "r = None" using assms(3) main_to_cases [of Stream_Join r] main_parts_fail(4) by auto
  then show ?thesis
    using stop_stream assms(2) stream_stop_next [of "prog q" s] by (simp add: order_inv_def main_to_def app_of_def)
next
  case (join_stream r s)
  then have r: "r = None" using assms(3) main_to_cases [of Stream_Down r] main_parts_fail(5) by auto
  have "machine_inv (stream_of q)" using assms(4) join_stream(2) by (simp add: tv_inv_def)
  then have "tables_live (sc (rc_client (prog q))) \<or> tables_freed (sc (rc_client (prog q)))"
    using tables_wf_live [of "sc (app_of q)"] by (auto simp: machine_inv_def app_of_def split: if_splits)
  then show ?thesis
    using join_stream r assms(2) stream_join_freed [of plat "prog q" s] by (simp add: order_inv_def main_to_def app_of_def)
next
  case (main_returns n s)
  then show ?thesis
    using assms(2)
    by (auto simp: order_inv_def main_return_def app_of_def with_tv_def tv_def tables_freed_def)
qed

lemma order_step:
  assumes "tv_step plat dfb EV_KEY e q q'" and "order_inv plat q" and "main_at q' \<noteq> Main_Returned (-1)"
    and "phase (main_at q) \<le> 10 \<Longrightarrow> tv_inv q"
  shows "order_inv plat q'"
  using assms(1)
proof cases
  case main_moves
  then show ?thesis using order_main assms(2-4) by blast
next
  case main_wakes
  then show ?thesis by (intro order_frame [OF assms(2)]) (use assms(2) in \<open>auto simp: order_inv_def\<close>)
next
  case graphics_wakes
  then have "surfaces (gc (app_of q)) = (Ptr (), Ptr (), 1, False)" using assms(2) by (simp add: order_inv_def)
  then have "surfaces (graphicsControllerDeinit_wake (gc (app_of q))) = (Ptr (), Ptr (), 1, True)"
    by (simp add: surfaces_def graphicsControllerDeinit_wake_def)
  then show ?thesis
    using graphics_wakes assms(2)
    by (intro order_frame [OF assms(2)]) (auto simp: order_inv_def main_waited_def app_of_def)
next
  case (input_returns r res s)
  then show ?thesis by (simp only:) (rule order_input [OF assms(2) _ input_returns(4,5)], auto)
next
  case (frame g)
  note c = overlays_timed_core [OF renderThread_round_core(1) [OF frame(5)]]
  show ?thesis
    unfolding frame(2) by (rule order_frame [OF assms(2) frame(3)]) (use c frame(4) assms(2) in \<open>auto simp: with_app_def order_inv_def\<close>)
next
  case (last_frame g)
  note c = overlays_timed_core [OF renderThread_round_core(1) [OF last_frame(5)]]
  show ?thesis
    unfolding last_frame(2) by (rule order_frame [OF assms(2) last_frame(3)])
      (use c last_frame(4) assms(2) in \<open>auto simp: with_app_def order_inv_def\<close>)
next
  case (last_frame_signal g)
  note c = overlays_timed_core [OF renderThread_round_core(1) [OF last_frame_signal(4)]]
  have p: "phase (main_at q) = 4" using last_frame_signal(6) by simp
  then have "surfaces (gc (app_of q)) = (Ptr (), Ptr (), 1, False)" using assms(2) by (simp add: order_inv_def)
  then have "surfaces (graphicsControllerDeinit_wake g) = (Ptr (), Ptr (), 1, True)"
    using c by (simp add: surfaces_def graphicsControllerDeinit_wake_def)
  then show ?thesis
    unfolding last_frame_signal(2) using p c last_frame_signal(3) assms(2)
    by (intro order_frame [OF assms(2)]) (auto simp: with_app_def app_of_def order_inv_def)
next
  case (overlay_expires ov)
  note c = overlays_timed_handle(1) [of "gc (app_of q)" "Expires ov"] overlays_timed_handle(2) [of "Expires ov" "gc (app_of q)"]
  show ?thesis
    unfolding overlay_expires(2) by (rule order_frame [OF assms(2) overlay_expires(3)])
      (use c assms(2) in \<open>auto simp: with_app_def app_of_def order_inv_def\<close>)
next
  case (key_timer pc a)
  let ?b = "with_tv (\<lambda>t. t\<lparr>keyTimer := Timer_Idle\<rparr>) (app_of q)"
  obtain ch where ch: "changeChannelKey_begin plat ch (sc ?b) = Inr (pc, sc a)" "gc a = gc (app_of q)"
    using key_timer(5) by (auto simp: changeChannel_begin_def c_bind_eq_Inr)
  have f: "tables_freed (sc (app_of q)) \<Longrightarrow> tables_freed (sc a) \<and> isInitialized (sc a) = isInitialized (sc (app_of q))"
    using freed_dial [OF _ ch(1)] by (simp add: tables_freed_def with_tv_def)
  show ?thesis
    unfolding key_timer(2) by (intro order_frame [OF assms(2) key_timer(3)]) (use f ch(2) assms(2) in \<open>auto simp: with_app_def app_of_def order_inv_def\<close>)
next
  case (dial_done i)
  show ?thesis
    unfolding dial_done(2) by (rule order_frame [OF assms(2) dial_done(3)])
      (use assms(2) in \<open>auto simp: with_app_def app_of_def with_tv_def order_inv_def tables_freed_def\<close>)
next
  case (stream_moves e m)
  note f = freed_step [OF stream_moves(5) _ _ stream_moves(4)]
  show ?thesis
    unfolding stream_moves(2) by (rule order_frame [OF assms(2) stream_moves(3)])
      (use f assms(2) in \<open>auto simp: with_stream_def with_app_def app_of_def order_inv_def\<close>)
qed

subsection \<open>Executions\<close>

text \<open>
  The environment avoids what the stream controller cannot handle (\<open>well_behaved\<close>): P+ and P- wait for
  the first PAT, sections are complete and come after registration, the key timer does not
  expire once the controller thread has given up; and no digit is pressed while a dialled channel is being started.
\<close>

fun tv_ok :: "u16 \<Rightarrow> tv_event \<Rightarrow> ('m, 'd, 'g) whole \<Rightarrow> bool" where
  "tv_ok EV_KEY (Input r) q \<longleftrightarrow> (\<forall>e. r = Some e \<longrightarrow> key_event EV_KEY e \<longrightarrow> key_ok (ev_code e) q)"
| "tv_ok EV_KEY Key_Timer q \<longleftrightarrow> \<not> gave_up (task_at q)"
| "tv_ok EV_KEY (Stream e) q \<longleftrightarrow> well_behaved e (stream_of q)"
| "tv_ok EV_KEY e q \<longleftrightarrow> True"

lemma inv_stop_stream:
  assumes "tv_inv q" and "main_stream_stop (prog q) = Inr (None, s)"
  shows "tv_inv (with_app (rc_client s) q)"
proof -
  let ?s = "(sc (app_of q))\<lparr>threadExit := 1\<rparr>"
  have s: "rc_client s = (app_of q)\<lparr>sc := ?s\<rparr>" using stream_stop_next [OF assms(2)] by (simp add: app_of_def)
  have f: "settings ?s = settings (sc (app_of q))" "tabs ?s = tabs (sc (app_of q))" "registered ?s = registered (sc (app_of q))"
    "client ?s = client (sc (app_of q))"
    by (simp_all add: settings_def tabs_def registered_def)
  have "machine_inv ((stream_of q)\<lparr>ctl := ?s\<rparr>)"
    using assms(1) f settings_ok_cong [OF f(1)] tables_wf_tabs [OF f(2)] service_count_tabs [OF f(2)]
    by (auto simp: tv_inv_def machine_inv_def quiet_def tables_freed_def tabs_def)
  moreover have "app_inv ((app_of q)\<lparr>sc := ?s\<rparr>)"
    using assms(1) f(1,4) by (simp add: tv_inv_def app_inv_def volume_inv_def tv_def settings_def)
  ultimately show ?thesis
    using assms(1) f(4) s by (simp add: tv_inv_def stream_of_def with_app_def app_of_def tv_def)
qed

lemma inv_main:
  assumes "main_step plat dfb q q'" and "tv_inv q" and "phase (main_at q') \<le> 10"
  shows "tv_inv q'"
proof -
  have p: "tv_inv (q\<lparr>main_at := pc, prog := s\<rparr>) = tv_inv (with_app (rc_client s) q)" for pc s
    by (simp add: tv_inv_def stream_of_def with_app_def app_of_def)
  have same: "with_app (app_of q) q = q" by (simp add: with_app_def app_of_def)
  show ?thesis
    using assms(1)
  proof cases
    case exit_wait
    then show ?thesis using assms(2) by (simp add: tv_inv_def)
  next
    case stop_drawing
    then show ?thesis
      using inv_screen [OF assms(2), of "graphicsControllerDeinit_begin (gc (app_of q))"]
      by (simp add: p main_woken_def graphicsControllerDeinit_begin_def app_of_def)
  next
    case graphics_wait
    then show ?thesis
      using inv_screen [OF assms(2), of "graphicsControllerDeinit_wait (gc (app_of q))"]
      by (simp add: p main_waiting_def graphicsControllerDeinit_wait_def app_of_def)
  next
    case (graphics_down r s)
    then have "r = None" using assms(3) by (cases r) (simp_all add: main_to_def)
    then obtain g where "s = (prog q)\<lparr>rc_client := (app_of q)\<lparr>gc := g\<rparr>\<rparr>" "componentsToDraw g = componentsToDraw (gc (app_of q))"
      using graphics_down(4)
      by (auto simp: main_graphics_down_def graphicsControllerDeinit_finish_def ERRORCHECK_eq dfb_out_eq dfb_do_eq app_of_def
          c_bind_eq_Inr Let_def split: if_splits)
    then show ?thesis using inv_screen [OF assms(2), of g] graphics_down(1) by (simp add: p)
  next
    case (unregister r s)
    then have "rc_client s = app_of q"
      by (auto simp: main_unregister_def unregisterRemoteControllerCallback_def ERRORCHECK_eq app_of_def)
    then show ?thesis using unregister(1) assms(2) same by (simp add: p)
  next
    case stop_input
    then show ?thesis using assms(2) same by (simp add: p remoteControllerDeinit_begin_def) (simp add: app_of_def)
  next
    case (join_input rc r s)
    then have "rc_client s = app_of q"
      by (auto simp: main_input_down_def remoteControllerDeinit_def remoteControllerDeinit_begin_def ERRORCHECK_eq app_of_def)
    then show ?thesis using join_input(1) assms(2) same by (simp add: p)
  next
    case (stop_stream r s)
    then have "r = None" using assms(3) by (cases r) (simp_all add: main_to_def)
    then show ?thesis using inv_stop_stream [OF assms(2), of s] stop_stream by (simp add: p)
  next
    case (join_stream r s)
    then show ?thesis using assms(3) by (cases r) (simp_all add: main_to_def)
  next
    case (main_returns n s)
    then show ?thesis using assms(3) by simp
  qed
qed

lemma inv_step:
  assumes "tv_step plat dfb EV_KEY e q q'" and "tv_inv q" and "order_inv plat q" and "tv_ok EV_KEY e q"
    and "creates_streams plat" and "phase (main_at q') \<le> 10"
  shows "tv_inv q'"
  using assms(1)
proof cases
  case main_moves
  then show ?thesis using inv_main assms(2,6) by blast
next
  case main_wakes
  then show ?thesis using assms(2) by (simp add: tv_inv_def)
next
  case graphics_wakes
  have "tv_inv (with_app (rc_client (main_waited (prog q))) q)"
    using inv_screen [OF assms(2), of "graphicsControllerDeinit_wake (gc (app_of q))"]
    by (simp add: main_waited_def graphicsControllerDeinit_wake_def app_of_def)
  then show ?thesis using graphics_wakes(2) by (simp add: tv_inv_def stream_of_def with_app_def app_of_def)
next
  case (input_returns r res s)
  have "callback (prog q) = Some (remoteControllerCallback plat) \<or> callback (prog q) = None"
    using assms(3) by (auto simp: order_inv_def)
  then have "tv_inv (q\<lparr>prog := s\<rparr>)" using inv_input [OF assms(2) input_returns(5)] assms(4) input_returns(1) by auto
  then show ?thesis using input_returns(2) by (simp add: tv_inv_def stream_of_def app_of_def)
next
  case (frame g)
  then show ?thesis
    using inv_screen [OF assms(2), of g] renderThread_round_core(1) [OF frame(5)] by (simp add: screen_core_def)
next
  case (last_frame g)
  then have "tv_inv (with_app ((app_of q)\<lparr>gc := g\<rparr>) q)"
    using inv_screen [OF assms(2), of g] renderThread_round_core(1) [OF last_frame(5)] by (simp add: screen_core_def)
  then show ?thesis using last_frame(2) by (simp add: tv_inv_def)
next
  case (last_frame_signal g)
  then have "tv_inv (with_app ((app_of q)\<lparr>gc := graphicsControllerDeinit_wake g\<rparr>) q)"
    using inv_screen [OF assms(2), of "graphicsControllerDeinit_wake g"] renderThread_round_core(1) [OF last_frame_signal(4)]
    by (simp add: screen_core_def graphicsControllerDeinit_wake_def)
  then show ?thesis using last_frame_signal(2) by (simp add: tv_inv_def)
next
  case (overlay_expires ov)
  then show ?thesis using inv_screen [OF assms(2), of "timer_expires ov (gc (app_of q))"] by (cases ov) (simp_all add: gc_op_defs)
next
  case (key_timer pc a)
  then show ?thesis using inv_key_timer [OF assms(2) key_timer(4) _ key_timer(5)] assms(4) by simp
next
  case (dial_done i)
  then show ?thesis using inv_dial_done [OF assms(2)] by simp
next
  case (stream_moves e m)
  then show ?thesis using inv_stream [OF assms(2) stream_moves(5) _ stream_moves(4) assms(5)] assms(4) by simp
qed

text \<open>
  The executions: the program starts as \<open>Tv_Startup\<close> says, with its threads interleaved, until \<open>main\<close> is ready to wait and the
  controller thread has run its first part; then all threads take steps that the environment allows.
\<close>

inductive tv_reach ::
  "('m, 'd) platform \<Rightarrow> 'g dfb \<Rightarrow> u16 \<Rightarrow> char list option \<Rightarrow> ('m, 'd, 'g) app rc_state \<Rightarrow> ('m, 'd, 'g) whole \<Rightarrow> bool"
  for plat :: "('m, 'd) platform" and dfb :: "'g dfb" and EV_KEY :: u16 and config_file :: "char list option"
    and s\<^sub>0 :: "('m, 'd, 'g) app rc_state" where
  tv_starts: "up_reach plat dfb EV_KEY config_file s\<^sub>0 u \<Longrightarrow> up_at u = Up_Ready \<Longrightarrow> up_task u \<Longrightarrow>
    tv_reach plat dfb EV_KEY config_file s\<^sub>0 (up_whole u)"
| tv_steps: "tv_reach plat dfb EV_KEY config_file s\<^sub>0 q \<Longrightarrow> tv_ok EV_KEY e q \<Longrightarrow> tv_step plat dfb EV_KEY e q q' \<Longrightarrow>
    tv_reach plat dfb EV_KEY config_file s\<^sub>0 q'"

lemma start_reach:
  assumes "main_begin plat dfb False config_file s\<^sub>0 = Inr (None, s)"
    and "streamControllerTask_begin plat (sc (rc_client s)) = Inr (pc, st)"
  shows "tv_reach plat dfb EV_KEY config_file s\<^sub>0 (whole_start pc st s)"
  using tv_starts [OF up_reach_begin [OF assms, of EV_KEY]] by simp

lemma ready_inv:
  assumes "up_reach plat dfb EV_KEY config_file (switched_off m d g) u" and "up_at u = Up_Ready" and "up_task u"
    and "mallocs_succeed plat" and "creates_streams plat" and "config_ok plat config_file (initial_state m d tv_start)"
  shows "tv_inv (up_whole u) \<and> order_inv plat (up_whole u)"
proof -
  have v: "tv_inv (up_whole u)" "up_view plat dfb g Up_Ready (up_whole u)"
    using up_reach_begun [OF assms(1,4-6,3)] assms(2) by simp_all
  then have "graphicsControllerInit dfb (gc_start g) = Inr (GC_NO_ERROR, gc (app_of (up_whole u)))"
    by (simp add: up_view_def up_graphics_def)
  from graphicsControllerInit_surfaces [OF this]
  have "order_inv plat (up_whole u)" using v(2) by (simp add: order_inv_def up_view_def gc_start_def)
  then show ?thesis using v(1) by simp
qed

text \<open>The two invariants hold together until \<open>main\<close> returns with an error.\<close>

lemma tv_reach_inv:
  assumes "tv_reach plat dfb EV_KEY config_file (switched_off m d g) q"
    and "mallocs_succeed plat" and "creates_streams plat" and "config_ok plat config_file (initial_state m d tv_start)"
    and "main_at q \<noteq> Main_Returned (-1)"
  shows "order_inv plat q \<and> (phase (main_at q) \<le> 10 \<longrightarrow> tv_inv q)"
  using assms(1,5)
proof (induction rule: tv_reach.induct)
  case (tv_starts u)
  then show ?case using ready_inv [OF tv_starts(1-3) assms(2-4)] by blast
next
  case (tv_steps q e q')
  have n: "phase (main_at q) < 12" using tv_steps(3) by cases (auto elim: main_step.cases)
  then have "main_at q \<noteq> Main_Returned (-1)" by auto
  then have IH: "order_inv plat q" "phase (main_at q) \<le> 10 \<Longrightarrow> tv_inv q" using tv_steps.IH by auto
  have "phase (main_at q) \<le> phase (main_at q')"
    using tv_steps(3) by cases (auto elim!: main_step.cases simp: main_to_def split: option.splits)
  then show ?case
    using order_step [OF tv_steps(3) IH(1) tv_steps.prems IH(2)] inv_step [OF tv_steps(3) IH(2) IH(1) tv_steps(2) assms(3)] by auto
qed

subsection \<open>No thread faults\<close>

lemma frame_no_fault:
  assumes "dfb_works dfb" and "volume_inv a" and "\<not> showInfo (componentsToDraw (gc a))" and "live_surfaces (gc a)"
  shows "no_fault (renderThread_round dfb (gc a))"
proof -
  let ?w = "wiped dfb (gc a)"
  obtain s where s: "(if showVolume (componentsToDraw (gc a)) then render_volume dfb ?w else Inr ?w) = Inr s"
    "screen_core s = screen_core ?w"
  proof (cases "showVolume (componentsToDraw (gc a))")
    case True
    then have "draw_volume_level (componentsToDraw (gc a)) = uint (sc_currentVolume (sc a))" "unat (sc_currentVolume (sc a)) \<le> 10"
      using assms(2) by (auto simp: volume_inv_def)
    moreover from this(2) have "uint (sc_currentVolume (sc a)) \<le> 10" by (metis of_nat_le_iff of_nat_numeral uint_nat)
    ultimately show ?thesis using that True render_volume_live(1) [OF assms(1), of ?w] assms(4) by auto
  qed auto
  then have "no_fault (renderFrame dfb (gc a))"
    using assms(3,4) by (simp add: renderFrame_live [OF assms(1,4)] screen_core_def call_through_live DFBCHECK_works [OF assms(1)])
  then show ?thesis by (auto simp: renderThread_round_def no_fault_iff)
qed

lemma key_timer_no_fault:
  assumes "tv_inv q" and "keyTimer (tv (app_of q)) = Timer_Armed 2" and "\<not> gave_up (task_at q)"
  shows "no_fault (changeChannel_begin plat (app_of q))"
proof -
  let ?s = "sc (with_tv (\<lambda>t. t\<lparr>keyTimer := Timer_Idle\<rparr>) (app_of q))"
  obtain ch where ch: "dialled_channel (tv (app_of q)) = Inr ch"
    using dial_inv_channel [OF _ assms(2)] assms(1) by (auto simp: tv_inv_def app_inv_def)
  have "machine_inv ((stream_of q)\<lparr>ctl := ?s\<rparr>)"
    using assms(1) machine_inv_client [of _ "sc (app_of q)" "stream_of q"] by (simp add: with_tv_def stream_of_def tv_inv_def)
  then have "tables_wf ?s" "service_count ?s \<le> 19" using assms(3) by (simp_all add: machine_inv_def)
  then have "no_fault (changeChannelKey_begin plat ch ?s)" using keeps_no_fault [OF dial_keeps(1)] by blast
  then show ?thesis by (auto simp: no_fault_iff changeChannel_begin_def ch)
qed

lemma input_no_fault:
  assumes "tv_inv q" and "callback (prog q) = Some (remoteControllerCallback plat)" and "tv_ok EV_KEY (Input (Some e)) q"
  shows "no_fault (inputEventTask_return EV_KEY (Some e) (prog q))"
proof (cases "key_event EV_KEY e")
  case True
  then have "no_fault (remoteControllerCallback plat (ev_code e) (ev_type e) (ev_value e) (app_of q))"
    using press_no_fault [OF assms(1), of "ev_code e"] assms(3) by simp
  then show ?thesis using True assms(2) by (auto simp: inputEventTask_return_def getKey_def call_callback_def app_of_def no_fault_iff)
qed (simp add: inputEventTask_return_def getKey_def)


text \<open>An execution on a platform where everything works, with an empty configuration file.\<close>

definition works :: "unit dfb" where
  "works c d = (False, (1280, 720), ())"

lemma works_dfb: "dfb_works works"
  by (simp add: dfb_works_def works_def)

lemma example_start:
  "\<exists>s st. main_begin ideal_platform works False (Some []) (switched_off 0 () ()) = Inr (None, s)
     \<and> streamControllerTask_begin ideal_platform (sc (rc_client s)) = Inr (Status_Lock, st)"
  "config_ok ideal_platform (Some []) (initial_state 0 () tv_start)"
proof -
  have l: "loadInitialInfo ideal_platform (Some []) (initial_state 0 () t) = Inr (SC_NO_ERROR, initial_state 0 () t)" for t :: tv_state
    by (simp add: loadInitialInfo_def loadConfigFile_def loadConfigLines.simps c_fgets_def initial_state_def)
  show "config_ok ideal_platform (Some []) (initial_state 0 () tv_start)"
    by (simp add: config_ok_def l) (simp add: initial_state_def)
  have "\<exists>s. main_begin ideal_platform works False (Some []) (switched_off 0 () ()) = Inr (None, s)"
    by (simp add: main_begin_def main_up_defs switched_off_def with_tv_def register_simps remoteControllerInit_def
        loadInitialInfo_def loadConfigFile_def loadConfigLines.simps c_fgets_def graphicsControllerInit_def dfb_out_eq works_def
        dfb_checked_def DFBCHECK_def streamControllerInit_def call_simps ideal_platform_def initial_state_def Let_def)
  then obtain s where "main_begin ideal_platform works False (Some []) (switched_off 0 () ()) = Inr (None, s)" by blast
  then show "\<exists>s st. main_begin ideal_platform works False (Some []) (switched_off 0 () ()) = Inr (None, s)
     \<and> streamControllerTask_begin ideal_platform (sc (rc_client s)) = Inr (Status_Lock, st)"
    using task_begin_ok [OF ideal_calls_succeed, of "sc (rc_client s)"] by blast
qed

lemma ideal_platform_works: "mallocs_succeed ideal_platform" "creates_streams ideal_platform"
  by (simp_all add: mallocs_succeed_def creates_streams_def ideal_platform_def)


end
