(* ===== verification/Tv_Shutdown.thy ===== *)
theory Tv_Shutdown
  imports Tv_Program Stream_Boot
begin

section \<open>Switching the program off\<close>

text \<open>
  What the executions of the whole program do at their end: in which order threads end and resources are released,
  that the EXIT key can take the program to its end, where it can get stuck, and the timer that outlives what it uses.
\<close>

subsection \<open>The order\<close>

text \<open>Each step of \<open>main\<close> takes it further, so it makes at most twelve.\<close>

lemma main_moves_forward: "main_step plat dfb q q' \<Longrightarrow> main_at q < main_at q'"
  by (cases rule: main_step.cases) (auto simp: main_to_def split: option.splits)

text \<open>
  C12. The order of the shutdown, in every execution from the initial values in an environment that keeps to its rules, on a platform
  where the allocations of the tables and the creations of streams succeed and with a configured program between 0 and 18, as long as
  \<open>main\<close> has not returned -1: as long as the render thread
  runs, the surface and the interface it draws on are live; as long as the input thread runs, \<open>main\<close> is not
  past its join; the callback is null exactly from its unregistration on. And
  when \<open>main\<close> has returned 0, both threads have ended, the graphics are released, the callback is unregistered,
  the stream controller is deinitialised with its thread ended and its tables freed, and the key
  timer is deleted.
\<close>

theorem shutdown_order:
  assumes "tv_reach plat dfb EV_KEY config_file (switched_off m d g) q"
    and "mallocs_succeed plat" and "creates_streams plat" and "config_ok plat config_file (initial_state m d tv_start)"
    and "main_at q \<noteq> Main_Returned (-1)"
  shows "(render_at q = Rendering \<longrightarrow> primary (gc (app_of q)) = Ptr () \<and> dfbInterface (gc (app_of q)) = Ptr ())
    \<and> (input_at q = Reading \<longrightarrow> main_at q \<le> Input_Join)
    \<and> (callback (prog q) = None \<longleftrightarrow> Unregistered \<le> main_at q)
    \<and> (main_at q = Main_Returned 0 \<longrightarrow> render_at q = Render_Ended \<and> input_at q \<noteq> Reading
        \<and> primary (gc (app_of q)) = Freed \<and> dfbInterface (gc (app_of q)) = Freed
        \<and> tables_freed (sc (app_of q)) \<and> \<not> isInitialized (sc (app_of q)) \<and> task_over (task_at q)
        \<and> keyTimer (tv (app_of q)) = Timer_None)"
proof -
  have inv: "order_inv plat q" using tv_reach_inv [OF assms] by blast
  then have "render_at q = Rendering \<Longrightarrow> phase (main_at q) < 6" "input_at q = Reading \<Longrightarrow> phase (main_at q) < 9"
    by (auto simp: order_inv_def not_less)
  then show ?thesis using inv by (auto simp: order_inv_def surfaces_def)
qed

theorem shutdown_order_witness:
  "\<exists>q. tv_reach ideal_platform works 1 (Some []) (switched_off 0 () ()) q \<and> render_at q = Rendering
     \<and> primary (gc (app_of q)) = Ptr () \<and> callback (prog q) \<noteq> None"
proof -
  obtain s st where b: "main_begin ideal_platform works False (Some []) (switched_off 0 () ()) = Inr (None, s)"
    "streamControllerTask_begin ideal_platform (sc (rc_client s)) = Inr (Status_Lock, st)"
    using example_start(1) by blast
  let ?q = "whole_start Status_Lock st s"
  have r: "tv_reach ideal_platform works 1 (Some []) (switched_off 0 () ()) ?q" by (rule start_reach [OF b])
  have m: "main_at ?q \<noteq> Main_Returned (-1)" "render_at ?q = Rendering" "phase (main_at ?q) = 0" by (simp_all add: whole_start_def)
  show ?thesis using shutdown_order [OF r ideal_platform_works example_start(2) m(1)] r m by (intro exI [of _ ?q]) auto
qed

subsection \<open>From the EXIT key to the end\<close>

inductive tv_run ::
  "('m, 'd) platform \<Rightarrow> 'g dfb \<Rightarrow> u16 \<Rightarrow> tv_event list \<Rightarrow> ('m, 'd, 'g) whole \<Rightarrow> ('m, 'd, 'g) whole \<Rightarrow> bool"
  for plat :: "('m, 'd) platform" and dfb :: "'g dfb" and EV_KEY :: u16 where
  tv_run_nil: "tv_run plat dfb EV_KEY [] q q"
| tv_run_cons: "tv_step plat dfb EV_KEY e q q' \<Longrightarrow> tv_run plat dfb EV_KEY es q' q'' \<Longrightarrow> tv_run plat dfb EV_KEY (e # es) q q''"

definition exit_event :: "u16 \<Rightarrow> u32 \<Rightarrow> input_event" where
  "exit_event EV_KEY v = \<lparr>ev_type = EV_KEY, ev_code = KEYCODE_EXIT, ev_value = v\<rparr>"

lemma exit_events [simp]:
  "key_event EV_KEY (exit_event EV_KEY 1)" "\<not> key_event EV_KEY (exit_event EV_KEY 0)" "ev_code (exit_event EV_KEY v) = KEYCODE_EXIT"
  by (simp_all add: key_event_def exit_event_def EV_VALUE_KEYPRESS_def EV_VALUE_AUTOREPEAT_def)

text \<open>The state as far as the shutdown depends on it.\<close>

definition down_view :: "('m, 'd, 'g) whole \<Rightarrow> main_pc \<times> input_pc \<times> gc_render \<times> task_pc" where
  "down_view q = (main_at q, input_at q, render_at q, task_at q)"

text \<open>What dialling depends on.\<close>

definition dial_view :: "('m, 'd, 'g) whole \<Rightarrow> i32 list \<times> i32 \<times> timer" where
  "dial_view q = dial_fields (tv (app_of q))"

definition stoppable :: "('m, 'd, 'g) whole \<Rightarrow> bool" where
  "stoppable q \<longleftrightarrow> isInitialized (sc (app_of q)) \<and> tables_live (sc (app_of q))"

lemma exit_pressed_step:
  assumes "order_inv plat q" and "down_view q = (Exit_Wait, Reading, Rendering, pc)"
  shows "\<exists>q'. tv_run plat dfb EV_KEY [Input (Some (exit_event EV_KEY 1)), Main_Moves, Main_Moves] q q'
    \<and> stoppable q' = stoppable q \<and> down_view q' = (Gc_Wait, Reading, Rendering, pc) \<and> dial_view q' = dial_view q
    \<and> rc_threadExit (prog q') = 0 \<and> surfaces (gc (app_of q')) = (Ptr (), Ptr (), 1, False)"
proof -
  have v: "main_at q = Exit_Wait" "input_at q = Reading" "render_at q = Rendering" "task_at q = pc"
    using assms(2) by (simp_all add: down_view_def)
  have o: "callback (prog q) = Some (remoteControllerCallback plat)" "rc_threadExit (prog q) = 0"
    "surfaces (gc (app_of q)) = (Ptr (), Ptr (), 0, False)"
    using assms(1) v(1) by (simp_all add: order_inv_def)
  let ?s1 = "(prog q)\<lparr>rc_client := with_tv (\<lambda>t. t\<lparr>deinitSignals := deinitSignals t + 1\<rparr>) (app_of q)\<rparr>"
  let ?q1 = "q\<lparr>main_at := Exit_Woken, input_at := Reading, prog := ?s1\<rparr>"
  let ?q2 = "?q1\<lparr>main_at := Gc_Stop_Set, prog := main_woken ?s1\<rparr>"
  let ?q3 = "?q2\<lparr>main_at := Gc_Wait, prog := main_waiting (main_woken ?s1)\<rparr>"
  have cb: "remoteControllerCallback plat KEYCODE_EXIT type v a = Inr (with_tv (\<lambda>t. t\<lparr>deinitSignals := deinitSignals t + 1\<rparr>) a)"
    for type v a
    by (simp add: remoteControllerCallback_def keycodes)
  have "inputEventTask_return EV_KEY (Some (exit_event EV_KEY 1)) (prog q) = Inr (None, ?s1)"
    using o by (simp add: inputEventTask_return_def getKey_def call_callback_def cb app_of_def)
  from input_returns [OF _ v(2) this, of plat dfb]
  have "tv_step plat dfb EV_KEY (Input (Some (exit_event EV_KEY 1))) q ?q1"
    using v(1) by (simp add: exit_signalled_def tv_def with_tv_def app_of_def)
  moreover have "tv_step plat dfb EV_KEY Main_Moves ?q1 ?q2"
    using stop_drawing [of ?q1 plat dfb] by (intro main_moves) simp
  moreover have "tv_step plat dfb EV_KEY Main_Moves ?q2 ?q3"
    using graphics_wait [of ?q2 plat dfb] by (intro main_moves) simp
  ultimately have "tv_run plat dfb EV_KEY [Input (Some (exit_event EV_KEY 1)), Main_Moves, Main_Moves] q ?q3"
    by (blast intro: tv_run_nil tv_run_cons)
  then show ?thesis
    using v o
    by (intro exI [of _ ?q3])
      (simp add: down_view_def dial_view_def dial_fields_def tv_def stoppable_def main_woken_def main_waiting_def with_tv_def app_of_def
        screen_defs surfaces_def tables_live_def)
qed

lemma graphics_stopped_step:
  assumes "down_view q = (Gc_Wait, Reading, Rendering, pc)" and "rc_threadExit (prog q) = 0"
    and "surfaces (gc (app_of q)) = (Ptr (), Ptr (), 1, False)" and "dfb_works dfb"
  shows "\<exists>q'. tv_run plat dfb EV_KEY [Frame, Main_Moves, Main_Moves, Main_Moves] q q'
    \<and> stoppable q' = stoppable q \<and> down_view q' = (Input_Join, Reading, Render_Ended, pc) \<and> dial_view q' = dial_view q
    \<and> callback (prog q') = None \<and> rc_threadExit (prog q') = 1"
proof -
  have v: "main_at q = Gc_Wait" "input_at q = Reading" "render_at q = Rendering" "task_at q = pc"
    using assms(1) by (simp_all add: down_view_def)
  let ?g = "graphicsControllerDeinit_wake (gc (app_of q))"
  let ?q1 = "(with_app ((app_of q)\<lparr>gc := ?g\<rparr>) q)\<lparr>main_at := Gc_Woken, render_at := Render_Ended\<rparr>"
  have "renderThread_round dfb (gc (app_of q)) = Inr (True, gc (app_of q))" "\<not> graphicsMutex (gc (app_of q))"
    using assms(3) by (simp_all add: renderThread_round_def surfaces_def)
  from last_frame_signal [OF v(3) this v(1), of plat EV_KEY]
  have 1: "tv_step plat dfb EV_KEY Frame q ?q1" .
  have p1: "prog ?q1 = (prog q)\<lparr>rc_client := (app_of q)\<lparr>gc := ?g\<rparr>\<rparr>" by (simp add: with_app_def)
  obtain g where g: "main_graphics_down dfb (prog ?q1) = Inr (None, (prog q)\<lparr>rc_client := (app_of q)\<lparr>gc := g\<rparr>\<rparr>)"
    unfolding p1 using assms(3,4)
    by (auto simp: main_graphics_down_def graphicsControllerDeinit_finish_def ERRORCHECK_eq dfb_out_eq dfb_do_eq dfb_works_def
        surfaces_def app_of_def graphicsControllerDeinit_wake_def)
  let ?s2 = "(prog q)\<lparr>rc_client := (app_of q)\<lparr>gc := g\<rparr>\<rparr>"
  let ?q2 = "?q1\<lparr>main_at := Gc_Down, prog := ?s2\<rparr>"
  let ?q3 = "?q2\<lparr>main_at := Unregistered, prog := ?s2\<lparr>callback := None\<rparr>\<rparr>"
  let ?q4 = "?q3\<lparr>main_at := Input_Join, prog := remoteControllerDeinit_begin (?s2\<lparr>callback := None\<rparr>)\<rparr>"
  have 2: "tv_step plat dfb EV_KEY Main_Moves ?q1 ?q2"
    using graphics_down [OF _ _ g, of plat] by (intro main_moves) (simp add: main_to_def)
  have "main_unregister plat (prog ?q2) = Inr (None, ?s2\<lparr>callback := None\<rparr>)"
    by (simp add: main_unregister_def unregisterRemoteControllerCallback_def ERRORCHECK_eq)
  then have 3: "tv_step plat dfb EV_KEY Main_Moves ?q2 ?q3"
    using unregister [of ?q2 plat None "?s2\<lparr>callback := None\<rparr>" dfb] by (intro main_moves) (simp add: main_to_def)
  have 4: "tv_step plat dfb EV_KEY Main_Moves ?q3 ?q4"
    using stop_input [of ?q3 plat dfb] by (intro main_moves) simp
  have "tv_run plat dfb EV_KEY [Frame, Main_Moves, Main_Moves, Main_Moves] q ?q4"
    using 1 2 3 4 by (blast intro: tv_run_nil tv_run_cons)
  then show ?thesis
    using v
    by (intro exI [of _ ?q4])
      (simp add: down_view_def dial_view_def tv_def stoppable_def remoteControllerDeinit_begin_def with_app_def app_of_def)
qed

lemma input_joined_step:
  assumes "stoppable q" and "down_view q = (Input_Join, Reading, Render_Ended, Task_Loop)"
    and "callback (prog q) = None" and "rc_threadExit (prog q) = 1"
  shows "\<exists>q'. tv_run plat dfb EV_KEY [Input (Some (exit_event EV_KEY 0)), Main_Moves, Main_Moves, Stream Task_Round] q q'
    \<and> stoppable q' \<and> main_at q' = Stream_Join \<and> task_at q' = Task_Ended \<and> dial_view q' = dial_view q"
proof -
  have v: "main_at q = Input_Join" "input_at q = Reading" "render_at q = Render_Ended" "task_at q = Task_Loop"
    using assms(2) by (simp_all add: down_view_def)
  let ?q1 = "q\<lparr>main_at := Input_Join, input_at := Input_Ended RC_NO_ERROR, prog := prog q\<rparr>"
  have "inputEventTask_return EV_KEY (Some (exit_event EV_KEY 0)) (prog q) = Inr (Some RC_NO_ERROR, prog q)"
    using assms(4) by (simp add: inputEventTask_return_def getKey_def)
  from input_returns [OF _ v(2) this, of plat dfb]
  have 1: "tv_step plat dfb EV_KEY (Input (Some (exit_event EV_KEY 0))) q ?q1" using v(1) by simp
  let ?q2 = "?q1\<lparr>main_at := Input_Joined, prog := prog q\<rparr>"
  have "main_input_down False (prog ?q1) = Inr (None, prog q)"
    using assms(4) by (simp add: main_input_down_def remoteControllerDeinit_def remoteControllerDeinit_begin_def ERRORCHECK_eq)
  then have 2: "tv_step plat dfb EV_KEY Main_Moves ?q1 ?q2"
    using join_input [of ?q1 RC_NO_ERROR None "prog q" plat dfb] by (intro main_moves) (simp add: main_to_def)
  let ?s3 = "(sc (app_of q))\<lparr>threadExit := 1\<rparr>"
  let ?p3 = "(prog q)\<lparr>rc_client := (app_of q)\<lparr>sc := ?s3\<rparr>\<rparr>"
  let ?q3 = "?q2\<lparr>main_at := Stream_Join, prog := ?p3\<rparr>"
  have "main_stream_stop (prog ?q2) = Inr (None, ?p3)"
    using assms(1) by (simp add: stoppable_def main_stream_stop_def streamControllerDeinit_begin_def app_of_def)
  then have 3: "tv_step plat dfb EV_KEY Main_Moves ?q2 ?q3"
    using stop_stream [of ?q2 None ?p3 plat dfb] by (intro main_moves) (simp add: main_to_def)
  let ?m = "(stream_of ?q3)\<lparr>task := Task_Ended, ctl := ?s3\<rparr>"
  let ?q4 = "with_stream ?m ?q3"
  have "sc_step plat Task_Round (stream_of ?q3) ?m"
    using v(4) by (intro task_round) (simp_all add: streamControllerTask_round_def with_app_def app_of_def)
  from stream_moves [OF _ _ this, of dfb EV_KEY]
  have 4: "tv_step plat dfb EV_KEY (Stream Task_Round) ?q3 ?q4" by simp
  have "tv_run plat dfb EV_KEY [Input (Some (exit_event EV_KEY 0)), Main_Moves, Main_Moves, Stream Task_Round] q ?q4"
    using 1 2 3 4 by (blast intro: tv_run_nil tv_run_cons)
  then show ?thesis
    using assms(1)
    by (intro exI [of _ ?q4])
      (simp add: stoppable_def with_stream_def with_app_def app_of_def tables_live_def dial_view_def tv_def)
qed

lemma stream_joined_step:
  assumes "stoppable q" and "main_at q = Stream_Join" and "task_at q = Task_Ended" and "calls_succeed plat"
  shows "\<exists>q'. tv_run plat dfb EV_KEY [Main_Moves] q q' \<and> main_at q' = Stream_Down \<and> tables_freed (sc (app_of q'))
    \<and> dial_view q' = dial_view q"
proof -
  have t: "tables_live (sc (app_of q))" using assms(1) by (simp add: stoppable_def)
  obtain s where s: "main_stream_join plat (prog q) = Inr (None, s)"
    using t calls_succeedD [OF assms(4)]
    by (auto simp: main_stream_join_def streamControllerDeinit_join_def streamControllerDeinit_finish_def free_tables_def tables_live_def
        call_simps ERRORCHECK_eq Let_def app_of_def)
  let ?q1 = "q\<lparr>main_at := Stream_Down, prog := s\<rparr>"
  have "tv_step plat dfb EV_KEY Main_Moves q ?q1"
    using join_stream [OF assms(2) _ s, of dfb] assms(3) by (intro main_moves) (simp add: main_to_def)
  then have "tv_run plat dfb EV_KEY [Main_Moves] q ?q1" by (blast intro: tv_run_nil tv_run_cons)
  then show ?thesis
    using stream_join_freed [OF s] t by (intro exI [of _ ?q1]) (simp add: dial_view_def tv_def app_of_def)
qed

lemma main_returned_step:
  assumes "main_at q = Stream_Down"
  shows "\<exists>q'. tv_run plat dfb EV_KEY [Main_Moves] q q' \<and> main_at q' = Main_Returned 0"
proof -
  obtain s where "main_return (prog q) = (Some 0, s)" by (simp add: main_return_def)
  then have "tv_step plat dfb EV_KEY Main_Moves q (q\<lparr>main_at := Main_Returned 0, prog := s\<rparr>)"
    using assms by (intro main_moves main_returns) simp_all
  then have "tv_run plat dfb EV_KEY [Main_Moves] q (q\<lparr>main_at := Main_Returned 0, prog := s\<rparr>)" by (blast intro: tv_run_nil tv_run_cons)
  then show ?thesis by (intro exI [of _ "q\<lparr>main_at := Main_Returned 0, prog := s\<rparr>"]) simp
qed

lemma tv_run_append: "tv_run plat dfb EV_KEY es q q' \<Longrightarrow> tv_run plat dfb EV_KEY es' q' q'' \<Longrightarrow> tv_run plat dfb EV_KEY (es @ es') q q''"
  by (induction rule: tv_run.induct) (auto intro: tv_run_cons)

text \<open>An execution of the stream controller alone is one of the whole program.\<close>

lemma stream_run:
  assumes "sc_run plat es m m'" and "list_all (\<lambda>e. \<not> from_client e) es" and "stream_of q = m" and "phase (main_at q) < 12"
  shows "tv_run plat dfb EV_KEY (map Stream es) q (with_stream m' q)"
  using assms
proof (induction arbitrary: q rule: sc_run.induct)
  case (run_nil m)
  have "with_stream (stream_of q) q = q" by (simp add: with_stream_def stream_of_def with_app_def app_of_def)
  then show ?case using run_nil by (simp add: tv_run_nil)
next
  case (run_cons e m m1 es m')
  have "tv_step plat dfb EV_KEY (Stream e) q (with_stream m1 q)"
    using run_cons by (intro stream_moves) simp_all
  moreover have "tv_run plat dfb EV_KEY (map Stream es) (with_stream m1 q) (with_stream m' (with_stream m1 q))"
    using run_cons by (intro run_cons.IH) simp_all
  moreover have "with_stream m' (with_stream m1 q) = with_stream m' q"
    by (simp add: with_stream_def with_app_def app_of_def)
  ultimately show ?case by (auto intro: tv_run_cons)
qed

lemma broadcast_not_client: "list_all (\<lambda>e. \<not> from_client e) (broadcast_events b)"
  by (simp add: broadcast_events_def table_events_def)

definition shutdown_events :: "u16 \<Rightarrow> tv_event list" where
  "shutdown_events EV_KEY = [Input (Some (exit_event EV_KEY 1)), Main_Moves, Main_Moves]
     @ [Frame, Main_Moves, Main_Moves, Main_Moves]
     @ [Input (Some (exit_event EV_KEY 0)), Main_Moves, Main_Moves, Stream Task_Round]
     @ [Main_Moves, Main_Moves]"

lemma shutdown_run:
  assumes "order_inv plat q" and "stoppable q" and "down_view q = (Exit_Wait, Reading, Rendering, Task_Loop)"
    and "dfb_works dfb" and "calls_succeed plat"
  shows "\<exists>q'. tv_run plat dfb EV_KEY (butlast (shutdown_events EV_KEY)) q q' \<and> main_at q' = Stream_Down
    \<and> tables_freed (sc (app_of q')) \<and> dial_view q' = dial_view q"
proof -
  obtain q1 where 1: "tv_run plat dfb EV_KEY [Input (Some (exit_event EV_KEY 1)), Main_Moves, Main_Moves] q q1"
    "stoppable q1" "down_view q1 = (Gc_Wait, Reading, Rendering, Task_Loop)"
    "rc_threadExit (prog q1) = 0" "surfaces (gc (app_of q1)) = (Ptr (), Ptr (), 1, False)" "dial_view q1 = dial_view q"
    using exit_pressed_step [OF assms(1,3), of dfb EV_KEY] assms(2) by blast
  obtain q2 where 2: "tv_run plat dfb EV_KEY [Frame, Main_Moves, Main_Moves, Main_Moves] q1 q2"
    "stoppable q2" "down_view q2 = (Input_Join, Reading, Render_Ended, Task_Loop)"
    "callback (prog q2) = None" "rc_threadExit (prog q2) = 1" "dial_view q2 = dial_view q1"
    using graphics_stopped_step [OF 1(3-5) assms(4), of plat EV_KEY] 1(2) by blast
  obtain q3 where 3: "tv_run plat dfb EV_KEY [Input (Some (exit_event EV_KEY 0)), Main_Moves, Main_Moves, Stream Task_Round] q2 q3"
    "stoppable q3" "main_at q3 = Stream_Join" "task_at q3 = Task_Ended" "dial_view q3 = dial_view q2"
    using input_joined_step [OF 2(2-5), of plat dfb EV_KEY] by blast
  obtain q4 where 4: "tv_run plat dfb EV_KEY [Main_Moves] q3 q4" "main_at q4 = Stream_Down" "tables_freed (sc (app_of q4))"
    "dial_view q4 = dial_view q3"
    using stream_joined_step [OF 3(2-4) assms(5), of dfb EV_KEY] by blast
  have "tv_run plat dfb EV_KEY (butlast (shutdown_events EV_KEY)) q q4"
    using tv_run_append [OF 1(1) tv_run_append [OF 2(1) tv_run_append [OF 3(1) 4(1)]]] by (simp add: shutdown_events_def)
  then show ?thesis using 1(6) 2(6) 3(5) 4(2-4) by auto
qed

text \<open>The program with a channel running and \<open>main\<close> waiting for the EXIT key.\<close>

lemma booted_run:
  assumes "calls_succeed plat" and "valid_broadcast b"
    and "main_begin plat dfb False config_file (switched_off m d g) = Inr (None, s)"
    and "config_ok plat config_file (initial_state m d tv_start)"
    and "p = sint (programNumber (sc (rc_client s)))" and "p + 1 < int (length (snd (b_pat b)))"
  shows "\<exists>st q. streamControllerTask_begin plat (sc (rc_client s)) = Inr (Status_Lock, st)
    \<and> tv_run plat dfb EV_KEY (map Stream (broadcast_events b) @ [Main_Moves]) (whole_start Status_Lock st s) q
    \<and> down_view q = (Exit_Wait, Reading, Rendering, Task_Loop) \<and> currentChannel (sc (app_of q)) = channel_of p (b_streams b)
    \<and> order_inv plat q \<and> stoppable q \<and> dial_ready (tv (app_of q))"
proof -
  have ms: "mallocs_succeed plat" "creates_streams plat"
    using assms(1) by (simp_all add: mallocs_succeed_def creates_streams_def calls_succeed_def)
  have c: "settings_ok (sc (rc_client s))" "dateRecievedCallback (sc (rc_client s)) = Some registerCurrentDate"
    "\<not> statusMutex (sc (rc_client s))" "\<not> timeTablesRecieved (sc (rc_client s))" "dial_ready (client (sc (rc_client s)))"
    using started_controller [OF assms(3,4)] by blast+
  then have p: "0 \<le> p" using assms(5) by (simp add: settings_ok_def)
  obtain st s' where b: "streamControllerTask_begin plat (sc (rc_client s)) = Inr (Status_Lock, st)"
    "sc_run plat (broadcast_events b) (machine_start Status_Lock st) (machine_start Task_Loop s')"
    "isInitialized s'" "tables_live s'" "currentChannel s' = channel_of p (b_streams b)"
    "client s' = registerCurrentDate (reported_date b) (client (sc (rc_client s)))"
    using controller_boots [OF assms(1,2) c(2-4) assms(5) p assms(6)] by blast
  let ?q = "whole_start Status_Lock st s"
  let ?q1 = "with_stream (machine_start Task_Loop s') ?q"
  let ?q2 = "?q1\<lparr>main_at := Exit_Wait\<rparr>"
  have o: "order_inv plat ?q"
    using tv_reach_inv [OF start_reach [OF assms(3) b(1)] ms assms(4)] by (simp add: whole_start_def)
  have so: "stream_of ?q = machine_start Status_Lock st" by (simp add: stream_of_def whole_start_def machine_start_def app_of_def)
  have r1: "tv_run plat dfb EV_KEY (map Stream (broadcast_events b)) ?q ?q1"
    by (rule stream_run [OF b(2) broadcast_not_client so]) (simp add: whole_start_def)
  have "tv_step plat dfb EV_KEY Main_Moves ?q1 ?q2" by (intro main_moves exit_wait) (simp add: whole_start_def)
  then have r2: "tv_run plat dfb EV_KEY (map Stream (broadcast_events b) @ [Main_Moves]) ?q ?q2"
    by (blast intro: tv_run_append [OF r1] tv_run_cons tv_run_nil)
  have ctl: "sc (app_of ?q2) = s'" "gc (app_of ?q2) = gc (app_of ?q)" by (simp_all add: machine_start_def)
  have v: "down_view ?q2 = (Exit_Wait, Reading, Rendering, Task_Loop)"
    by (simp add: down_view_def with_stream_def with_app_def whole_start_def machine_start_def)
  have "order_inv plat ?q1"
    by (rule order_frame [OF o]) (simp_all add: with_stream_def with_app_def whole_start_def app_of_def)
  then have "order_inv plat ?q2" by (auto simp: order_inv_def whole_start_def)
  moreover have "stoppable ?q2" using b(3,4) ctl(1) by (simp add: stoppable_def)
  moreover have "dial_ready (tv (app_of ?q2))" using b(6) c(5) ctl(1) by (simp add: tv_def registerCurrentDate_def dial_ready_def)
  ultimately show ?thesis using b(1,5) r2 v ctl(1) by (intro exI [of _ st] exI [of _ ?q2]) simp
qed

lemma inputChannelNumber_signals [simp]: "deinitSignals (inputChannelNumber d t) = deinitSignals t"
  by (simp add: inputChannelNumber_def Let_def)

lemma digit_pressed_step:
  assumes "order_inv plat q" and "down_view q = (Exit_Wait, Reading, Rendering, pc)" and "n < 10"
  shows "\<exists>q'. tv_run plat dfb EV_KEY [Input (Some \<lparr>ev_type = EV_KEY, ev_code = KEYCODE_digit n, ev_value = EV_VALUE_KEYPRESS\<rparr>)] q q'
    \<and> order_inv plat q' \<and> stoppable q' = stoppable q \<and> down_view q' = down_view q
    \<and> tv (app_of q') = inputChannelNumber (of_nat n) (tv (app_of q))"
proof -
  let ?e = "\<lparr>ev_type = EV_KEY, ev_code = KEYCODE_digit n, ev_value = EV_VALUE_KEYPRESS\<rparr>"
  have v: "main_at q = Exit_Wait" "input_at q = Reading" "phase (main_at q) < 12" using assms(2) by (simp_all add: down_view_def)
  have o: "callback (prog q) = Some (remoteControllerCallback plat)" "rc_threadExit (prog q) = 0"
    using assms(1) v(1) by (simp_all add: order_inv_def)
  let ?s = "(prog q)\<lparr>rc_client := with_tv (inputChannelNumber (of_nat n)) (app_of q)\<rparr>"
  let ?q = "q\<lparr>main_at := main_at q, input_at := Reading, prog := ?s\<rparr>"
  have r: "inputEventTask_return EV_KEY (Some ?e) (prog q) = Inr (None, ?s)"
    using o digit_key [OF assms(3), of plat EV_KEY EV_VALUE_KEYPRESS "app_of q"]
    by (simp add: inputEventTask_return_def getKey_def call_callback_def key_event_def app_of_def)
  from input_returns [OF v(3,2) r, of plat dfb]
  have "tv_step plat dfb EV_KEY (Input (Some ?e)) q ?q"
    using v(1) by (simp add: exit_signalled_def tv_def with_tv_def app_of_def)
  then have "tv_run plat dfb EV_KEY [Input (Some ?e)] q ?q" by (blast intro: tv_run_nil tv_run_cons)
  moreover have "order_inv plat ?q" by (rule order_input [OF assms(1) v(3,2) r]) simp
  ultimately show ?thesis
    using v by (intro exI [of _ ?q]) (simp add: stoppable_def down_view_def tv_def with_tv_def app_of_def tables_live_def)
qed

lemma example_program:
  "\<exists>s. main_begin ideal_platform works False (Some []) (switched_off 0 () ()) = Inr (None, s)
     \<and> sint (programNumber (sc (rc_client s))) + 1 < int (length (snd (b_pat example_broadcast)))"
proof -
  obtain s where b: "main_begin ideal_platform works False (Some []) (switched_off 0 () ()) = Inr (None, s)"
    using example_start(1) by blast
  have "sint (programNumber (sc (rc_client s))) \<le> 0"
    using main_begin_waits [OF b]
    by (auto simp: switched_off_def with_tv_def call_simps loadInitialInfo_def loadConfigFile_def loadConfigLines.simps c_fgets_def
        initial_state_def)
  then have "sint (programNumber (sc (rc_client s))) + 1 < int (length (snd (b_pat example_broadcast)))"
    by (simp add: example_broadcast_def pat_example_services_def)
  then show ?thesis using b by blast
qed

text \<open>
  C13. A whole life of the program. On a platform where every call succeeds and with a working
  DirectFB, when \<open>main\<close> has come up from the initial values with a configured program that the
  PAT of the broadcast lists: there is an execution in which the sections of the broadcast arrive and the controller thread
  reaches its loop; \<open>main\<close> waits for the EXIT key; the key is pressed; the render thread sees the flag
  and ends; the release of the key lets the input thread see its flag and end; the
  controller thread ends; and \<open>main\<close> returns 0.
\<close>

theorem program_comes_to_its_end:
  assumes "calls_succeed plat" and "dfb_works dfb" and "valid_broadcast b"
    and "main_begin plat dfb False config_file (switched_off m d g) = Inr (None, s)"
    and "config_ok plat config_file (initial_state m d tv_start)"
    and "p = sint (programNumber (sc (rc_client s)))" and "p + 1 < int (length (snd (b_pat b)))"
  shows "\<exists>st q q'. streamControllerTask_begin plat (sc (rc_client s)) = Inr (Status_Lock, st)
    \<and> tv_run plat dfb EV_KEY (map Stream (broadcast_events b) @ [Main_Moves]) (whole_start Status_Lock st s) q
    \<and> down_view q = (Exit_Wait, Reading, Rendering, Task_Loop) \<and> currentChannel (sc (app_of q)) = channel_of p (b_streams b)
    \<and> tv_run plat dfb EV_KEY (shutdown_events EV_KEY) q q' \<and> main_at q' = Main_Returned 0"
proof -
  obtain st q where q: "streamControllerTask_begin plat (sc (rc_client s)) = Inr (Status_Lock, st)"
    "tv_run plat dfb EV_KEY (map Stream (broadcast_events b) @ [Main_Moves]) (whole_start Status_Lock st s) q"
    "down_view q = (Exit_Wait, Reading, Rendering, Task_Loop)" "currentChannel (sc (app_of q)) = channel_of p (b_streams b)"
    "order_inv plat q" "stoppable q"
    using booted_run [OF assms(1,3-7)] by blast
  obtain q1 where 1: "tv_run plat dfb EV_KEY (butlast (shutdown_events EV_KEY)) q q1" "main_at q1 = Stream_Down"
    using shutdown_run [OF q(5,6,3) assms(2,1)] by blast
  obtain q2 where 2: "tv_run plat dfb EV_KEY [Main_Moves] q1 q2" "main_at q2 = Main_Returned 0"
    using main_returned_step [OF 1(2)] by blast
  have "tv_run plat dfb EV_KEY (shutdown_events EV_KEY) q q2"
    using tv_run_append [OF 1(1) 2(1)] by (simp add: shutdown_events_def)
  then show ?thesis using q 2(2) by blast
qed

theorem program_comes_to_its_end_witness:
  "\<exists>s st q q'. main_begin ideal_platform works False (Some []) (switched_off 0 () ()) = Inr (None, s)
     \<and> tv_run ideal_platform works 1 (map Stream (broadcast_events example_broadcast) @ [Main_Moves]) (whole_start Status_Lock st s) q
     \<and> tv_run ideal_platform works 1 (shutdown_events 1) q q' \<and> main_at q' = Main_Returned 0"
proof -
  obtain s where b: "main_begin ideal_platform works False (Some []) (switched_off 0 () ()) = Inr (None, s)"
    "sint (programNumber (sc (rc_client s))) + 1 < int (length (snd (b_pat example_broadcast)))"
    using example_program by blast
  from program_comes_to_its_end [OF ideal_calls_succeed works_dfb valid_example_broadcast b(1) example_start(2) refl b(2), of 1]
  show ?thesis using b(1) by blast
qed

subsection \<open>Where it can get stuck\<close>

text \<open>The callback signals \<open>deinitCond\<close> for the EXIT key and for no other.\<close>

lemma callback_signals:
  assumes "volume_inv a" and "remoteControllerCallback plat code type value a = Inr a'"
  shows "deinitSignals (tv a') = deinitSignals (tv a) + (if code = KEYCODE_EXIT then 1 else 0)"
proof -
  have v: "unat (sc_currentVolume (sc a)) \<le> 10" "volumeReportCallback (sc a) = Some registerCurrentVolume"
    using assms(1) by (simp_all add: volume_inv_def)
  consider "code \<in> {KEYCODE_INFO, KEYCODE_MUTE, KEYCODE_EXIT}" | "code \<in> {KEYCODE_P_PLUS, KEYCODE_P_MINUS}"
    | "code \<in> {KEYCODE_V_PLUS, KEYCODE_V_MINUS}"
    | "code \<notin> {KEYCODE_INFO, KEYCODE_P_PLUS, KEYCODE_P_MINUS, KEYCODE_V_PLUS, KEYCODE_V_MINUS, KEYCODE_MUTE, KEYCODE_EXIT}"
    by blast
  then show ?thesis
  proof cases
    case 1
    then show ?thesis
      using assms(2) by (auto simp: remoteControllerCallback_def keycodes Let_def with_tv_def tv_def volumeMute_def call_simps)
  next
    case 2
    then obtain p where "sc a' = moved_to p (sc a)"
      using assms(2) channel_key_shape [of "sc a"] by (auto simp: remoteControllerCallback_def keycodes c_bind_eq_Inr)
    then show ?thesis using 2 by (auto simp: tv_def moved_to_def keycodes)
  next
    case 3
    then show ?thesis
      using assms(2)
      by (auto simp: remoteControllerCallback_def keycodes volumeUp_sets [OF v] volumeDown_sets [OF v] volume_set_def
          registerCurrentVolume_def tv_def Let_def)
  next
    case 4
    then show ?thesis
      using assms(2) by (auto simp: remoteControllerCallback_def with_tv_def tv_def split: if_splits)
  qed
qed

definition exit_press :: "u16 \<Rightarrow> tv_event \<Rightarrow> bool" where
  "exit_press EV_KEY ev \<longleftrightarrow> (\<exists>e. ev = Input (Some e) \<and> key_event EV_KEY e \<and> ev_code e = KEYCODE_EXIT)"

lemma input_signals:
  assumes "callback (prog q) = Some (remoteControllerCallback plat)" and "volume_inv (app_of q)"
    and "inputEventTask_return EV_KEY r (prog q) = Inr (res, s)"
  shows "exit_signalled (prog q) s = exit_press EV_KEY (Input r)"
proof (cases "\<exists>e. r = Some e \<and> key_event EV_KEY e")
  case True
  then obtain e where e: "r = Some e" "key_event EV_KEY e" by blast
  then obtain a where "remoteControllerCallback plat (ev_code e) (ev_type e) (ev_value e) (app_of q) = Inr a" "rc_client s = a"
    using assms(1,3)
    by (auto simp: inputEventTask_return_def getKey_def call_callback_def app_of_def c_bind_eq_Inr split: if_splits)
  then show ?thesis using callback_signals [OF assms(2)] e by (simp add: exit_signalled_def exit_press_def app_of_def)
next
  case False
  then have "s = prog q" using assms(3) by (auto simp: inputEventTask_return_def getKey_def split: option.splits if_splits)
  then show ?thesis using False by (auto simp: exit_signalled_def exit_press_def)
qed

text \<open>Executions in which the environment keeps to its rules.\<close>

inductive tv_ok_run ::
  "('m, 'd) platform \<Rightarrow> 'g dfb \<Rightarrow> u16 \<Rightarrow> tv_event list \<Rightarrow> ('m, 'd, 'g) whole \<Rightarrow> ('m, 'd, 'g) whole \<Rightarrow> bool"
  for plat :: "('m, 'd) platform" and dfb :: "'g dfb" and EV_KEY :: u16 where
  ok_run_nil: "tv_ok_run plat dfb EV_KEY [] q q"
| ok_run_cons: "tv_ok EV_KEY e q \<Longrightarrow> tv_step plat dfb EV_KEY e q q' \<Longrightarrow> tv_ok_run plat dfb EV_KEY es q' q'' \<Longrightarrow>
    tv_ok_run plat dfb EV_KEY (e # es) q q''"

inductive_cases ok_run_consE: "tv_ok_run plat dfb EV_KEY (e # es) q q''"

text \<open>What the input thread knows while the callback is registered.\<close>

lemma reach_signals:
  assumes "tv_reach plat dfb EV_KEY config_file (switched_off m d g) q"
    and "mallocs_succeed plat" and "creates_streams plat" and "config_ok plat config_file (initial_state m d tv_start)"
    and "main_at q < Unregistered"
  shows "callback (prog q) = Some (remoteControllerCallback plat)" and "volume_inv (app_of q)"
proof -
  have "main_at q \<noteq> Main_Returned (-1)" using assms(5) by auto
  then have "order_inv plat q \<and> tv_inv q" using tv_reach_inv [OF assms(1-4)] assms(5) by auto
  then show "callback (prog q) = Some (remoteControllerCallback plat)" "volume_inv (app_of q)"
    using assms(5) by (auto simp: order_inv_def tv_inv_def app_inv_def)
qed

lemma input_moves_main:
  assumes "tv_reach plat dfb EV_KEY config_file (switched_off m d g) q"
    and "mallocs_succeed plat" and "creates_streams plat" and "config_ok plat config_file (initial_state m d tv_start)"
    and "main_at q < Unregistered" and "tv_step plat dfb EV_KEY (Input r) q q'"
  shows "main_at q' = (if exit_press EV_KEY (Input r) \<and> main_at q = Exit_Wait then Exit_Woken else main_at q)"
  using assms(6)
proof cases
  case (input_returns res s)
  then show ?thesis using input_signals [OF reach_signals [OF assms(1-5)] input_returns(4)] by simp
qed

lemma lost_press:
  assumes "tv_ok_run plat dfb EV_KEY es q q'" and "tv_reach plat dfb EV_KEY config_file (switched_off m d g) q"
    and "mallocs_succeed plat" and "creates_streams plat" and "config_ok plat config_file (initial_state m d tv_start)"
    and "main_at q \<le> Exit_Wait" and "list_all (\<lambda>ev. ev \<noteq> Main_Wakes \<and> \<not> exit_press EV_KEY ev) es"
  shows "main_at q' \<le> Exit_Wait"
  using assms(1,2,6,7)
proof (induction rule: tv_ok_run.induct)
  case (ok_run_cons e q q1 es q')
  have "main_at q1 \<le> Exit_Wait"
    using ok_run_cons(2)
  proof cases
    case main_moves
    then show ?thesis using ok_run_cons(6) by (auto elim!: main_step.cases)
  next
    case (input_returns r res s)
    have "main_at q < Unregistered" using ok_run_cons(6) by simp
    from input_moves_main [OF ok_run_cons(5) assms(3-5) this, of r q1] show ?thesis
      using ok_run_cons(2,6,7) input_returns(1) by simp
  qed (use ok_run_cons(6,7) in \<open>auto simp: with_stream_def with_app_def\<close>)
  then show ?case using ok_run_cons(4) tv_steps [OF ok_run_cons(5,1,2)] ok_run_cons(7) by simp
qed simp

text \<open>
  C33. The EXIT key needs \<open>main\<close> to be waiting. Take any reachable state, under the conditions of the executions above (the
  allocations and stream creations succeed, the configured program is between 0 and 18, the environment keeps to its
  rules), before the callback is unregistered and with the input thread reading. A press or repetition of EXIT is then always handled;
  it takes \<open>main\<close> out of the wait for the EXIT key if \<open>main\<close> is inside that wait, and leaves it where it is otherwise. If
  \<open>main\<close> has not begun to wait, the press is lost: whatever happens next, without another EXIT and without a wake-up for no
  reason \<open>main\<close> never gets past the wait.
\<close>

theorem exit_key_needs_waiter:
  assumes "tv_reach plat dfb EV_KEY config_file (switched_off m d g) q"
    and "mallocs_succeed plat" and "creates_streams plat" and "config_ok plat config_file (initial_state m d tv_start)"
    and "main_at q < Unregistered" and "input_at q = Reading" and "key_event EV_KEY e" and "ev_code e = KEYCODE_EXIT"
  shows "(\<exists>q'. tv_step plat dfb EV_KEY (Input (Some e)) q q')
    \<and> (\<forall>q'. tv_step plat dfb EV_KEY (Input (Some e)) q q' \<longrightarrow>
         main_at q' = (if main_at q = Exit_Wait then Exit_Woken else main_at q))
    \<and> (\<forall>es q'. main_at q = Main_Ready \<longrightarrow> tv_ok_run plat dfb EV_KEY (Input (Some e) # es) q q' \<longrightarrow>
         list_all (\<lambda>ev. ev \<noteq> Main_Wakes \<and> \<not> exit_press EV_KEY ev) es \<longrightarrow> main_at q' \<le> Exit_Wait)"
proof -
  have p: "exit_press EV_KEY (Input (Some e))" using assms(7,8) by (simp add: exit_press_def)
  note cb = reach_signals(1) [OF assms(1-5)]
  obtain res s where "inputEventTask_return EV_KEY (Some e) (prog q) = Inr (res, s)"
    using cb assms(7,8)
    by (simp add: inputEventTask_return_def getKey_def call_callback_def remoteControllerCallback_def keycodes)
  from input_returns [OF _ assms(6) this, of plat dfb] assms(5) have "\<exists>q'. tv_step plat dfb EV_KEY (Input (Some e)) q q'" by auto
  moreover have moves: "main_at q' = (if main_at q = Exit_Wait then Exit_Woken else main_at q)"
    if "tv_step plat dfb EV_KEY (Input (Some e)) q q'" for q'
    using input_moves_main [OF assms(1-5) that] p by simp
  moreover have "main_at q' \<le> Exit_Wait"
    if w: "main_at q = Main_Ready" "tv_ok_run plat dfb EV_KEY (Input (Some e) # es) q q'"
      "list_all (\<lambda>ev. ev \<noteq> Main_Wakes \<and> \<not> exit_press EV_KEY ev) es" for es q'
  proof -
    obtain q1 where q1: "tv_ok EV_KEY (Input (Some e)) q" "tv_step plat dfb EV_KEY (Input (Some e)) q q1"
      "tv_ok_run plat dfb EV_KEY es q1 q'"
      using w(2) by (auto elim: ok_run_consE)
    have "main_at q1 \<le> Exit_Wait" using moves [OF q1(2)] w(1) by simp
    then show ?thesis using lost_press [OF q1(3) tv_steps [OF assms(1) q1(1,2)] assms(2-4) _ w(3)] by simp
  qed
  ultimately show ?thesis by blast
qed

theorem exit_key_needs_waiter_witness:
  "\<exists>q q'. tv_reach ideal_platform works 1 (Some []) (switched_off 0 () ()) q \<and> main_at q = Exit_Wait
     \<and> tv_step ideal_platform works 1 (Input (Some (exit_event 1 1))) q q' \<and> main_at q' = Exit_Woken"
proof -
  obtain s st where b: "main_begin ideal_platform works False (Some []) (switched_off 0 () ()) = Inr (None, s)"
    "streamControllerTask_begin ideal_platform (sc (rc_client s)) = Inr (Status_Lock, st)"
    using example_start(1) by blast
  let ?q = "(whole_start Status_Lock st s)\<lparr>main_at := Exit_Wait\<rparr>"
  have "tv_step ideal_platform works 1 Main_Moves (whole_start Status_Lock st s) ?q"
    by (intro main_moves exit_wait) (simp add: whole_start_def)
  then have r: "tv_reach ideal_platform works 1 (Some []) (switched_off 0 () ()) ?q"
    using tv_steps [OF start_reach [OF b], of 1 Main_Moves ?q] by simp
  have m: "main_at ?q < Unregistered" "input_at ?q = Reading" "main_at ?q = Exit_Wait" by (simp_all add: whole_start_def)
  note w = exit_key_needs_waiter [OF r ideal_platform_works example_start(2) m(1,2) exit_events(1,3)]
  then obtain q' where "tv_step ideal_platform works 1 (Input (Some (exit_event 1 1))) ?q q'" by blast
  moreover from this have "main_at q' = Exit_Woken" using w m(3) by simp
  ultimately show ?thesis using r m(3) by blast
qed

text \<open>
  C37. The key timer outlives the tables. On a platform where every call succeeds and with a working DirectFB, from the initial
  values: there is an execution in which a channel is started, \<open>main\<close> waits for the EXIT key, a digit is pressed and then EXIT,
  and \<open>main\<close> goes through the shutdown up to the end of \<open>streamControllerDeinit\<close>. There the key timer is
  still running, since \<open>main\<close> deletes it only afterwards, and the tables are freed: if the timer expires now,
  \<open>changeChannel\<close> reads the freed PAT.
\<close>

theorem key_timer_outlives_tables:
  assumes "calls_succeed plat" and "dfb_works dfb" and "valid_broadcast b"
    and "main_begin plat dfb False config_file (switched_off m d g) = Inr (None, s)"
    and "config_ok plat config_file (initial_state m d tv_start)"
    and "sint (programNumber (sc (rc_client s))) + 1 < int (length (snd (b_pat b)))" and "n < 10"
  shows "\<exists>st q. streamControllerTask_begin plat (sc (rc_client s)) = Inr (Status_Lock, st)
    \<and> tv_run plat dfb EV_KEY (map Stream (broadcast_events b) @ [Main_Moves]
         @ [Input (Some \<lparr>ev_type = EV_KEY, ev_code = KEYCODE_digit n, ev_value = EV_VALUE_KEYPRESS\<rparr>)]
         @ butlast (shutdown_events EV_KEY)) (whole_start Status_Lock st s) q
    \<and> main_at q = Stream_Down \<and> keyTimer (tv (app_of q)) = Timer_Armed 2 \<and> tables_freed (sc (app_of q))
    \<and> changeChannel_begin plat (app_of q) = Inl Dangling_Pointer"
proof -
  let ?e = "\<lparr>ev_type = EV_KEY, ev_code = KEYCODE_digit n, ev_value = EV_VALUE_KEYPRESS\<rparr>"
  obtain st q where q: "streamControllerTask_begin plat (sc (rc_client s)) = Inr (Status_Lock, st)"
    "tv_run plat dfb EV_KEY (map Stream (broadcast_events b) @ [Main_Moves]) (whole_start Status_Lock st s) q"
    "down_view q = (Exit_Wait, Reading, Rendering, Task_Loop)" "order_inv plat q" "stoppable q" "dial_ready (tv (app_of q))"
    using booted_run [OF assms(1,3-5) refl assms(6)] by blast
  obtain q1 where 1: "tv_run plat dfb EV_KEY [Input (Some ?e)] q q1" "order_inv plat q1" "stoppable q1"
    "down_view q1 = (Exit_Wait, Reading, Rendering, Task_Loop)" "tv (app_of q1) = inputChannelNumber (of_nat n) (tv (app_of q))"
    using digit_pressed_step [OF q(4,3) assms(7), of dfb EV_KEY] q(3,5) by auto
  obtain q2 where 2: "tv_run plat dfb EV_KEY (butlast (shutdown_events EV_KEY)) q1 q2" "main_at q2 = Stream_Down"
    "tables_freed (sc (app_of q2))" "dial_view q2 = dial_view q1"
    using shutdown_run [OF 1(2-4) assms(2,1)] by blast
  have f: "dial_fields (tv (app_of q2)) = dial_fields (inputChannelNumber (of_nat n) (tv (app_of q)))"
    using 2(4) 1(5) by (simp add: dial_view_def)
  have "dialled_channel (tv (app_of q2)) = dialled_channel (inputChannelNumber (of_nat n) (tv (app_of q)))"
    using f by (simp add: dial_fields_def dialled_channel_def)
  then have ch: "dialled_channel (tv (app_of q2)) = Inr (int n)"
    using dial_short(1) [OF q(6), of "of_nat n"] dial_arith(1) [of "ucast (of_nat n :: u16)" 0 0] assms(7)
    by (simp add: uint_digit unsigned_of_nat take_bit_nat_eq_self)
  have "changeChannel_begin plat (app_of q2) = Inl Dangling_Pointer"
    using ch 2(3) by (simp add: changeChannel_begin_def changeChannelKey_begin_def tables_freed_def with_tv_def)
  moreover have "keyTimer (tv (app_of q2)) = Timer_Armed 2" using f by (simp add: dial_fields_def)
  moreover note tv_run_append [OF q(2) tv_run_append [OF 1(1) 2(1)]]
  ultimately show ?thesis using q(1) 2(2,3) by auto
qed

theorem key_timer_outlives_tables_witness:
  "\<exists>s st q. main_begin ideal_platform works False (Some []) (switched_off 0 () ()) = Inr (None, s)
     \<and> tv_run ideal_platform works 1 (map Stream (broadcast_events example_broadcast) @ [Main_Moves]
         @ [Input (Some \<lparr>ev_type = 1, ev_code = KEYCODE_digit 4, ev_value = EV_VALUE_KEYPRESS\<rparr>)]
         @ butlast (shutdown_events 1)) (whole_start Status_Lock st s) q
     \<and> changeChannel_begin ideal_platform (app_of q) = Inl Dangling_Pointer"
proof -
  obtain s where b: "main_begin ideal_platform works False (Some []) (switched_off 0 () ()) = Inr (None, s)"
    "sint (programNumber (sc (rc_client s))) + 1 < int (length (snd (b_pat example_broadcast)))"
    using example_program by blast
  have "(4 :: nat) < 10" by simp
  from key_timer_outlives_tables [OF ideal_calls_succeed works_dfb valid_example_broadcast b(1) example_start(2) b(2) this, of 1]
  show ?thesis using b(1) by blast
qed

text \<open>
  C34. The shutdown waits for an input event. In every reachable state, under the same conditions: when \<open>main\<close> joins the input thread while that thread is still inside
  \<open>read\<close>, \<open>main\<close> cannot move, and no step of another thread than the input thread changes that. If the
  next event is a key press or repetition, the thread calls the unregistered callback, a call through
  a null pointer; only an event of another kind, such as the release of a key, ends the thread.
\<close>

theorem input_join_needs_event:
  assumes "tv_reach plat dfb EV_KEY config_file (switched_off m d g) q"
    and "mallocs_succeed plat" and "creates_streams plat" and "config_ok plat config_file (initial_state m d tv_start)"
    and "main_at q = Input_Join" and "input_at q = Reading"
  shows "(\<forall>q'. \<not> main_step plat dfb q q')
    \<and> (\<forall>ev q'. tv_step plat dfb EV_KEY ev q q' \<longrightarrow> (\<forall>r. ev \<noteq> Input r) \<longrightarrow> main_at q' = Input_Join \<and> input_at q' = Reading)
    \<and> (key_event EV_KEY e \<longrightarrow> inputEventTask_return EV_KEY (Some e) (prog q) = Inl Null_Dereference)
    \<and> (\<not> key_event EV_KEY e \<longrightarrow> inputEventTask_return EV_KEY (Some e) (prog q) = Inr (Some RC_NO_ERROR, prog q))"
proof -
  have "order_inv plat q" using tv_reach_inv [OF assms(1-4)] assms(5) by simp
  then have o: "callback (prog q) = None" "rc_threadExit (prog q) = 1" using assms(5) by (simp_all add: order_inv_def)
  have stuck: "\<not> main_step plat dfb q q'" for q' using assms(5,6) by (auto elim!: main_step.cases)
  have "main_at q' = Input_Join \<and> input_at q' = Reading"
    if "tv_step plat dfb EV_KEY ev q q'" "\<forall>r. ev \<noteq> Input r" for ev q'
    using that(1) by cases (use that(2) assms(5,6) stuck in \<open>auto simp: with_stream_def with_app_def\<close>)
  then show ?thesis
    using stuck o by (simp add: inputEventTask_return_def getKey_def call_callback_def)
qed

lemma reach_run:
  assumes "tv_run plat dfb EV_KEY es q q'" and "tv_reach plat dfb EV_KEY config_file s\<^sub>0 q"
    and "\<forall>e \<in> set es. \<forall>p :: ('m, 'd, 'g) whole. tv_ok EV_KEY e p"
  shows "tv_reach plat dfb EV_KEY config_file (s\<^sub>0 :: ('m, 'd, 'g) app rc_state) q'"
  using assms by (induction rule: tv_run.induct) (auto intro: tv_steps)

theorem input_join_needs_event_witness:
  "\<exists>q. tv_reach ideal_platform works 1 (Some []) (switched_off 0 () ()) q \<and> main_at q = Input_Join \<and> input_at q = Reading
     \<and> inputEventTask_return 1 (Some (exit_event 1 1)) (prog q) = Inl Null_Dereference"
proof -
  obtain s st where b: "main_begin ideal_platform works False (Some []) (switched_off 0 () ()) = Inr (None, s)"
    "streamControllerTask_begin ideal_platform (sc (rc_client s)) = Inr (Status_Lock, st)"
    using example_start(1) by blast
  let ?q = "(whole_start Status_Lock st s)\<lparr>main_at := Exit_Wait\<rparr>"
  have "tv_step ideal_platform works 1 Main_Moves (whole_start Status_Lock st s) ?q"
    by (intro main_moves exit_wait) (simp add: whole_start_def)
  then have r: "tv_reach ideal_platform works 1 (Some []) (switched_off 0 () ()) ?q"
    using tv_steps [OF start_reach [OF b], of 1 Main_Moves ?q] by simp
  then have o: "order_inv ideal_platform ?q"
    using tv_reach_inv [OF r ideal_platform_works example_start(2)] by simp
  have v: "down_view ?q = (Exit_Wait, Reading, Rendering, Status_Lock)" by (simp add: down_view_def whole_start_def)
  obtain q1 where 1: "tv_run ideal_platform works 1 [Input (Some (exit_event 1 1)), Main_Moves, Main_Moves] ?q q1"
    "down_view q1 = (Gc_Wait, Reading, Rendering, Status_Lock)" "rc_threadExit (prog q1) = 0" "surfaces (gc (app_of q1)) = (Ptr (), Ptr (), 1, False)"
    using exit_pressed_step [OF o v, of works 1] by blast
  obtain q2 where 2: "tv_run ideal_platform works 1 [Frame, Main_Moves, Main_Moves, Main_Moves] q1 q2"
    "down_view q2 = (Input_Join, Reading, Render_Ended, Status_Lock)"
    using graphics_stopped_step [OF 1(2-4) works_dfb, of ideal_platform 1] by blast
  have "tv_ok 1 (Input (Some (exit_event 1 1))) p" for p :: "(nat, unit, unit) whole"
    by (simp add: key_ok_def key_code_def digit_codes keycodes)
  then have r2: "tv_reach ideal_platform works 1 (Some []) (switched_off 0 () ()) q2"
    by (intro reach_run [OF tv_run_append [OF 1(1) 2(1)] r]) auto
  have m: "main_at q2 = Input_Join" "input_at q2 = Reading" using 2(2) by (simp_all add: down_view_def)
  show ?thesis
    using input_join_needs_event [OF r2 ideal_platform_works example_start(2) m, of "exit_event 1 1"] r2 m by auto
qed

end
