(* ===== verification/Tv_Spec.thy ===== *)
theory Tv_Spec
  imports Tv_Safety
begin

section \<open>The television as its viewer sees it\<close>

text \<open>
  An abstract specification of the television behind its remote control: a ring of programs, a
  volume level, the digits dialled so far, the overlays on the screen. The key callback of
  the application implements it, for every sequence of keys.
\<close>

subsection \<open>The specification\<close>

datatype tv_key = Prog_Up | Prog_Down | Vol_Up | Vol_Down | Vol_Off | Show_Info | Switch_Off | Dial_Digit nat | Other_Key

definition tv_key_of :: "u16 \<Rightarrow> tv_key" where
  "tv_key_of code =
    (if code = KEYCODE_INFO then Show_Info else if code = KEYCODE_P_PLUS then Prog_Up
     else if code = KEYCODE_P_MINUS then Prog_Down else if code = KEYCODE_V_PLUS then Vol_Up
     else if code = KEYCODE_V_MINUS then Vol_Down else if code = KEYCODE_MUTE then Vol_Off
     else if code = KEYCODE_EXIT then Switch_Off else if code = KEYCODE_0 then Dial_Digit 0
     else if 2 \<le> unat code \<and> unat code \<le> 10 then Dial_Digit (unat code - 1)
     else Other_Key)"

text \<open>
  What the viewer can observe: how many programs there are and which one is selected, whether a change to
  it has been asked for, the level, the digits and whether the dialling is still open, which
  overlays are shown, the level on the volume bar, the PIDs of the running channel and those on the information
  bar, and whether the program has been told to end.
\<close>

record tv_spec =
  spec_programs :: int
  spec_program :: int
  spec_change :: bool
  spec_level :: nat
  spec_digits :: "nat list"
  spec_dialling :: bool
  spec_shown :: "overlay set"
  spec_bar :: int
  spec_pids :: "i16 \<times> i16"
  spec_info :: "i16 \<times> i16"
  spec_off :: bool

definition show_level :: "nat \<Rightarrow> tv_spec \<Rightarrow> tv_spec" where
  "show_level l t = t\<lparr>spec_level := l, spec_bar := int l, spec_shown := insert Volume_Overlay (spec_shown t)\<rparr>"

fun spec_press :: "tv_key \<Rightarrow> tv_spec \<Rightarrow> tv_spec" where
  "spec_press Prog_Up t = t\<lparr>spec_program := (spec_program t + 1) mod spec_programs t, spec_change := True,
     spec_shown := insert Program_Overlay (spec_shown t)\<rparr>"
| "spec_press Prog_Down t = t\<lparr>spec_program := (spec_program t - 1) mod spec_programs t, spec_change := True\<rparr>"
| "spec_press Vol_Up t = show_level (min 10 (spec_level t + 1)) t"
| "spec_press Vol_Down t = show_level (spec_level t - 1) t"
| "spec_press Vol_Off t = show_level 0 t"
| "spec_press Show_Info t = t\<lparr>spec_info := spec_pids t, spec_shown := insert Info_Overlay (spec_shown t)\<rparr>"
| "spec_press Switch_Off t = t\<lparr>spec_off := True\<rparr>"
| "spec_press (Dial_Digit d) t =
     t\<lparr>spec_digits := (if length (spec_digits t) < 3 then spec_digits t @ [d] else [d, 0, 0]), spec_dialling := True\<rparr>"
| "spec_press Other_Key t = t"

text \<open>The number the digits stand for.\<close>

definition spec_number :: "tv_spec \<Rightarrow> int" where
  "spec_number t = int (foldl (\<lambda>n d. 10 * n + d) 0 (spec_digits t))"

subsection \<open>Abstraction and invariant\<close>

definition dial_digits :: "tv_state \<Rightarrow> nat list" where
  "dial_digits t = map unat (take (unat (keysPressed t)) (keys t))"

definition spec_of :: "('m, 'd, 'g) app \<Rightarrow> tv_spec" where
  "spec_of a = \<lparr>spec_programs = program_count (sc a), spec_program = sint (programNumber (sc a)),
     spec_change = changeChannelFlag (sc a), spec_level = unat (sc_currentVolume (sc a)),
     spec_digits = dial_digits (tv a), spec_dialling = (keyTimer (tv a) = Timer_Armed 2),
     spec_shown = {ov. overlay_shown ov (gc a)}, spec_bar = draw_volume_level (componentsToDraw (gc a)),
     spec_pids = (channel_audioPid (currentChannel (sc a)), channel_videoPid (currentChannel (sc a))),
     spec_info = (audioPidToDraw (gc a), videoPidToDraw (gc a)), spec_off = (0 < deinitSignals (tv a))\<rparr>"

definition spec_inv :: "('m, 'd, 'g) app \<Rightarrow> bool" where
  "spec_inv a \<longleftrightarrow> volume_inv a \<and> channel_ok (sc a) \<and> dial_inv (tv a)"

text \<open>
  Refinement of a specification by operations that may fault: under the invariant every operation
  returns, keeps the invariant and does to the abstraction what the specification says. Then so does every sequence.
\<close>

locale refines =
  fixes inv :: "'c \<Rightarrow> bool" and abs :: "'c \<Rightarrow> 'a" and op :: "'e \<Rightarrow> 'c \<Rightarrow> 'c c_res" and spec :: "'e \<Rightarrow> 'a \<Rightarrow> 'a"
  assumes refine: "inv c \<Longrightarrow> \<exists>c'. op e c = Inr c' \<and> inv c' \<and> abs c' = spec e (abs c)"
begin

lemma refine_run:
  "inv c \<Longrightarrow> \<exists>c'. fold (\<lambda>e m. c_bind m (op e)) es (Inr c) = Inr c' \<and> inv c' \<and> abs c' = fold spec es (abs c)"
proof (induction es arbitrary: c)
  case (Cons e es)
  then obtain c1 where "op e c = Inr c1" "inv c1" "abs c1 = spec e (abs c)" using refine by blast
  then show ?case using Cons.IH [of c1] by simp
qed simp

end

lemma dispatch_fold:
  "dispatch f es a = fold (\<lambda>e m. c_bind m (f (ev_code e) (ev_type e) (ev_value e))) es (Inr a)"
proof (induction es arbitrary: a)
  case (Cons e es)
  have stuck: "fold (\<lambda>e m. c_bind m (f (ev_code e) (ev_type e) (ev_value e))) es (Inl x) = Inl x" for x
    by (induction es) simp_all
  show ?case using Cons stuck by (cases "f (ev_code e) (ev_type e) (ev_value e) a") simp_all
qed simp

subsection \<open>Each key\<close>

lemma dial_digits_input:
  assumes "dial_inv t" and "d < 10"
  shows "dial_digits (inputChannelNumber (of_nat d) t) =
    (if length (dial_digits t) < 3 then dial_digits t @ [d] else [d, 0, 0])"
proof -
  obtain a b c where k: "keys t = [a, b, c]" using assms(1) by (auto simp: dial_inv_def numeral_3_eq_3 length_Suc_conv)
  define w where "w = (of_nat d :: u16)"
  have u: "unat w = d" using assms(2) unat_of_nat_u16 [of d] by (simp add: w_def)
  consider "keysPressed t = 0" | "keysPressed t = 1" | "keysPressed t = 2" | "keysPressed t = 3"
    using assms(1) by (auto simp: dial_inv_def)
  then show ?thesis
    unfolding w_def [symmetric] by cases (simp_all add: dial_digits_def inputChannelNumber_def k u)
qed

lemma digits_number:
  assumes "dial_inv t" and "keysPressed t \<noteq> 0"
  shows "dialled_channel t = Inr (int (foldl (\<lambda>n d. 10 * n + d) 0 (dial_digits t)))"
proof -
  obtain a b c where k: "keys t = [a, b, c]" using assms(1) by (auto simp: dial_inv_def numeral_3_eq_3 length_Suc_conv)
  have r: "uint a \<le> 9" "uint b \<le> 9" "uint c \<le> 9"
    using assms(1) k by (simp_all add: dial_inv_def word_less_def)
  have "keysPressed t = 1 \<or> keysPressed t = 2 \<or> keysPressed t = 3" using assms by (auto simp: dial_inv_def)
  then show ?thesis
    using dial_arith [OF r] by (elim disjE)
      (simp_all add: dialled_channel_def dial_digits_def k)
qed

lemma spec_shown_insert:
  "{ov. overlay_shown ov (drawProgramNumber g)} = insert Program_Overlay {ov. overlay_shown ov g}"
  "{ov. overlay_shown ov (drawVolumeBar v g)} = insert Volume_Overlay {ov. overlay_shown ov g}"
  "{ov. overlay_shown ov (drawInfoRect m d y au vi g)} = insert Info_Overlay {ov. overlay_shown ov g}"
proof -
  have "overlay_shown ov (drawProgramNumber g) \<longleftrightarrow> ov = Program_Overlay \<or> overlay_shown ov g"
    "overlay_shown ov (drawVolumeBar v g) \<longleftrightarrow> ov = Volume_Overlay \<or> overlay_shown ov g"
    "overlay_shown ov (drawInfoRect m d y au vi g) \<longleftrightarrow> ov = Info_Overlay \<or> overlay_shown ov g" for ov
    by (cases ov; simp add: gc_op_defs Let_def)+
  then show "{ov. overlay_shown ov (drawProgramNumber g)} = insert Program_Overlay {ov. overlay_shown ov g}"
    "{ov. overlay_shown ov (drawVolumeBar v g)} = insert Volume_Overlay {ov. overlay_shown ov g}"
    "{ov. overlay_shown ov (drawInfoRect m d y au vi g)} = insert Info_Overlay {ov. overlay_shown ov g}"
    by auto
qed

lemma program_count_frame: "patTable s' = patTable s \<Longrightarrow> program_count s' = program_count s"
  by (simp add: program_count_def)

lemma channel_ok_frame: "patTable s' = patTable s \<Longrightarrow> programNumber s' = programNumber s \<Longrightarrow> channel_ok s' = channel_ok s"
  by (simp add: channel_ok_def split: heap_ptr.split)

lemma refine_program_keys:
  assumes "spec_inv a"
  shows "\<exists>a'. remoteControllerCallback plat KEYCODE_P_PLUS type value a = Inr a' \<and> spec_inv a' \<and> spec_of a' = spec_press Prog_Up (spec_of a)"
    and "\<exists>a'. remoteControllerCallback plat KEYCODE_P_MINUS type value a = Inr a' \<and> spec_inv a' \<and> spec_of a' = spec_press Prog_Down (spec_of a)"
proof -
  have inv: "volume_inv a" "channel_ok (sc a)" "dial_inv (tv a)" using assms by (simp_all add: spec_inv_def)
  have m: "spec_inv (a\<lparr>sc := moved_to p (sc a), gc := g\<rparr>) \<and> spec_programs (spec_of (a\<lparr>sc := moved_to p (sc a), gc := g\<rparr>)) = spec_programs (spec_of a)"
    if "sint p = k mod program_count (sc a)" "g = gc a \<or> g = drawProgramNumber (gc a)" for p k g
    using channel_ok_moved [OF inv(2) that(1)] channel_key_frame [OF inv(1) refl, of p] inv(3) that(2)
    by (auto simp: spec_inv_def spec_of_def tv_def moved_to_def)
  obtain p where p: "channelUp (sc a) = Inr (SC_NO_ERROR, moved_to p (sc a))" "sint p = (sint (programNumber (sc a)) + 1) mod program_count (sc a)"
    using channelUp_moves [OF inv(2)] by blast
  show "\<exists>a'. remoteControllerCallback plat KEYCODE_P_PLUS type value a = Inr a' \<and> spec_inv a' \<and> spec_of a' = spec_press Prog_Up (spec_of a)"
    using m [OF p(2), of "drawProgramNumber (gc a)"] p
    by (simp add: remoteControllerCallback_def keycodes spec_of_def spec_shown_insert)
      (simp add: moved_to_def tv_def drawProgramNumber_def)
  obtain p where p: "channelDown (sc a) = Inr (SC_NO_ERROR, moved_to p (sc a))" "sint p = (sint (programNumber (sc a)) - 1) mod program_count (sc a)"
    using channelDown_moves [OF inv(2)] by blast
  show "\<exists>a'. remoteControllerCallback plat KEYCODE_P_MINUS type value a = Inr a' \<and> spec_inv a' \<and> spec_of a' = spec_press Prog_Down (spec_of a)"
    using m [OF p(2), of "gc a"] p
    by (simp add: remoteControllerCallback_def keycodes spec_of_def) (simp add: moved_to_def tv_def)
qed

lemma refine_level:
  assumes "spec_inv a" and "n \<le> 10" and "b = a\<lparr>sc := volume_set plat n registerCurrentVolume (sc a)\<rparr>"
  defines "c \<equiv> b\<lparr>gc := drawVolumeBar (tv_currentVolume (tv b)) (gc b)\<rparr>"
  shows "spec_inv c \<and> spec_of c = show_level n (spec_of a)"
proof -
  have inv: "volume_inv a" "channel_ok (sc a)" "dial_inv (tv a)" using assms(1) by (simp_all add: spec_inv_def)
  have v: "volume_inv c"
    using volume_set_inv [OF assms(2) _ assms(3)] inv(1) by (simp add: c_def volume_inv_def)
  have f: "sc c = volume_set plat n registerCurrentVolume (sc a)" "gc c = drawVolumeBar (tv_currentVolume (tv c)) (gc a)"
    by (simp_all add: c_def assms(3) tv_def)
  have n: "unat (sc_currentVolume (sc c)) = n" using assms(2) unat_of_nat_u32 [of n] by (simp add: f(1) volume_set_def)
  have t: "tv c = (tv a)\<lparr>tv_currentVolume := ucast (of_nat n :: u32)\<rparr>"
    by (simp add: tv_def f(1) volume_set_def registerCurrentVolume_def)
  have shown: "showVolume (componentsToDraw (gc c))" by (simp add: f(2) drawVolumeBar_def)
  have "channel_ok (sc c)" using inv(2) channel_ok_frame [of "sc c" "sc a"] by (simp add: f(1) volume_set_def)
  moreover have "dial_inv (tv c)" using inv(3) by (simp add: t dial_inv_def)
  moreover have "draw_volume_level (componentsToDraw (gc c)) = uint (sc_currentVolume (sc c))"
    using v shown unfolding volume_inv_def by blast
  then have "draw_volume_level (componentsToDraw (gc c)) = int n" using n by (simp only: uint_nat)
  ultimately show ?thesis
    using v n program_count_frame [of "sc c" "sc a"] spec_shown_insert(2) [of "tv_currentVolume (tv c)" "gc a"]
    by (simp add: spec_inv_def spec_of_def show_level_def t dial_digits_def f(2))
      (simp add: f(1) volume_set_def drawVolumeBar_def)
qed

lemma refine_volume_keys:
  assumes "spec_inv a"
  shows "\<exists>a'. remoteControllerCallback plat KEYCODE_V_PLUS type value a = Inr a' \<and> spec_inv a' \<and> spec_of a' = spec_press Vol_Up (spec_of a)"
    and "\<exists>a'. remoteControllerCallback plat KEYCODE_V_MINUS type value a = Inr a' \<and> spec_inv a' \<and> spec_of a' = spec_press Vol_Down (spec_of a)"
    and "\<exists>a'. remoteControllerCallback plat KEYCODE_MUTE type value a = Inr a' \<and> spec_inv a' \<and> spec_of a' = spec_press Vol_Off (spec_of a)"
proof -
  have v: "unat (sc_currentVolume (sc a)) \<le> 10" "volumeReportCallback (sc a) = Some registerCurrentVolume"
    using assms by (simp_all add: spec_inv_def volume_inv_def)
  have l: "spec_level (spec_of a) = unat (sc_currentVolume (sc a))" by (simp add: spec_of_def)
  note lev = refine_level [OF assms _ refl, of _ plat]
  show "\<exists>a'. remoteControllerCallback plat KEYCODE_V_PLUS type value a = Inr a' \<and> spec_inv a' \<and> spec_of a' = spec_press Vol_Up (spec_of a)"
    using lev [of "min 10 (unat (sc_currentVolume (sc a)) + 1)"]
    by (simp add: remoteControllerCallback_def keycodes volumeUp_sets [OF v] Let_def l)
  show "\<exists>a'. remoteControllerCallback plat KEYCODE_V_MINUS type value a = Inr a' \<and> spec_inv a' \<and> spec_of a' = spec_press Vol_Down (spec_of a)"
    using lev [of "unat (sc_currentVolume (sc a)) - 1"] v(1)
    by (simp add: remoteControllerCallback_def keycodes volumeDown_sets [OF v] Let_def l)
  have "with_tv (\<lambda>t. t\<lparr>tv_currentVolume := 0\<rparr>) (a\<lparr>sc := volumeMute plat (sc a)\<rparr>) =
      a\<lparr>sc := volume_set plat 0 registerCurrentVolume (sc a)\<rparr>"
    by (simp add: with_tv_def volumeMute_def volume_set_def registerCurrentVolume_def call_simps)
  then show "\<exists>a'. remoteControllerCallback plat KEYCODE_MUTE type value a = Inr a' \<and> spec_inv a' \<and> spec_of a' = spec_press Vol_Off (spec_of a)"
    using lev [of 0] by (simp add: remoteControllerCallback_def keycodes Let_def)
qed

lemma tv_key_of_codes:
  "tv_key_of KEYCODE_P_PLUS = Prog_Up" "tv_key_of KEYCODE_P_MINUS = Prog_Down" "tv_key_of KEYCODE_V_PLUS = Vol_Up"
  "tv_key_of KEYCODE_V_MINUS = Vol_Down" "tv_key_of KEYCODE_MUTE = Vol_Off" "tv_key_of KEYCODE_INFO = Show_Info"
  "tv_key_of KEYCODE_EXIT = Switch_Off"
  by (simp_all add: tv_key_of_def keycodes)

lemma tv_key_of_digit: "d < 10 \<Longrightarrow> tv_key_of (KEYCODE_digit d) = Dial_Digit d"
proof -
  assume "d < 10"
  then have "d \<in> {0, 1, 2, 3, 4, 5, 6, 7, 8, 9}" by auto
  then show ?thesis by (elim insertE) (simp_all add: tv_key_of_def keycodes)
qed

lemma refine_digit:
  assumes "spec_inv a" and "d < 10"
  shows "\<exists>a'. remoteControllerCallback plat (KEYCODE_digit d) type value a = Inr a' \<and> spec_inv a'
    \<and> spec_of a' = spec_press (Dial_Digit d) (spec_of a)"
proof -
  let ?a = "with_tv (inputChannelNumber (of_nat d)) a"
  have inv: "volume_inv a" "channel_ok (sc a)" "dial_inv (tv a)" using assms(1) by (simp_all add: spec_inv_def)
  have "(of_nat d :: u16) < 10" using assms(2) by (simp add: word_less_nat_alt unat_of_nat_u16)
  then have "dial_inv (tv ?a)" using dial_inv_digit [OF inv(3)] by (simp add: tv_def with_tv_def)
  moreover have "volume_inv ?a" by (rule digit_key_frame(1) [OF inv(1)])
  moreover have "channel_ok (sc ?a)" using inv(2) channel_ok_frame [of "sc ?a" "sc a"] by (simp add: with_tv_def)
  moreover have "spec_of ?a = spec_press (Dial_Digit d) (spec_of a)"
    using dial_digits_input [OF inv(3) assms(2)] program_count_frame [of "sc ?a" "sc a"]
    by (simp add: spec_of_def with_tv_def tv_def) (simp add: inputChannelNumber_def Let_def)
  ultimately show ?thesis using digit_key [OF assms(2), of plat type "value" a] by (simp add: spec_inv_def)
qed

lemma refine_other_keys:
  assumes "spec_inv a"
  shows "\<exists>a'. remoteControllerCallback plat KEYCODE_INFO type value a = Inr a' \<and> spec_inv a' \<and> spec_of a' = spec_press Show_Info (spec_of a)"
    and "\<exists>a'. remoteControllerCallback plat KEYCODE_EXIT type value a = Inr a' \<and> spec_inv a' \<and> spec_of a' = spec_press Switch_Off (spec_of a)"
proof -
  have inv: "volume_inv a" "channel_ok (sc a)" "dial_inv (tv a)" using assms by (simp_all add: spec_inv_def)
  let ?e = "with_tv (\<lambda>t. t\<lparr>deinitSignals := deinitSignals t + 1\<rparr>) a"
  have "channel_ok (sc ?e)" "dial_inv (tv ?e)"
    using inv channel_ok_frame [of "sc ?e" "sc a"] by (simp_all add: with_tv_def tv_def dial_inv_def)
  then show "\<exists>a'. remoteControllerCallback plat KEYCODE_EXIT type value a = Inr a' \<and> spec_inv a' \<and> spec_of a' = spec_press Switch_Off (spec_of a)"
    using digit_key_frame(2) [OF inv(1)] program_count_frame [of "sc ?e" "sc a"]
    by (simp add: remoteControllerCallback_def keycodes spec_inv_def) (simp add: spec_of_def with_tv_def tv_def dial_digits_def)
  define i where "i = the (snd (getChannelInfo (Some (channelInfo (tv a))) (sc a)))"
  have i: "channel_audioPid i = channel_audioPid (currentChannel (sc a))" "channel_videoPid i = channel_videoPid (currentChannel (sc a))"
    by (simp_all add: i_def getChannelInfo_def)
  let ?b = "with_tv (\<lambda>t. t\<lparr>channelInfo := i\<rparr>) a"
  let ?c = "?b\<lparr>gc := drawInfoRect (date_tmpMonth (currentDateMain (tv ?b))) (date_day (currentDateMain (tv ?b)))
    (date_Year (currentDateMain (tv ?b))) (channel_audioPid i) (channel_videoPid i) (gc a)\<rparr>"
  have r: "remoteControllerCallback plat KEYCODE_INFO type value a = Inr ?c"
    by (simp add: remoteControllerCallback_def Let_def i_def [symmetric]) (simp add: with_tv_def tv_def)
  have "channel_ok (sc ?c)" "dial_inv (tv ?c)"
    using inv channel_ok_frame [of "sc ?c" "sc a"] by (simp_all add: with_tv_def tv_def dial_inv_def)
  then have "spec_inv ?c" using volume_key_inv [OF inv(1) r] by (simp add: spec_inv_def)
  moreover have "spec_of ?c = spec_press Show_Info (spec_of a)"
    using program_count_frame [of "sc ?c" "sc a"]
    by (simp add: spec_of_def spec_shown_insert i) (simp add: with_tv_def tv_def dial_digits_def drawInfoRect_def Let_def)
  ultimately show "\<exists>a'. remoteControllerCallback plat KEYCODE_INFO type value a = Inr a' \<and> spec_inv a' \<and> spec_of a' = spec_press Show_Info (spec_of a)"
    using r by blast
qed

lemma digit_codeI: "2 \<le> unat code \<Longrightarrow> unat code \<le> 10 \<Longrightarrow> digit_code code"
proof -
  assume "2 \<le> unat code" "unat code \<le> 10"
  then have "unat code - 1 < 10" "code = KEYCODE_digit (unat code - 1)" by (auto simp: KEYCODE_digit_def)
  then show ?thesis unfolding digit_code_def by blast
qed

lemma press_refines:
  assumes "spec_inv a"
  shows "\<exists>a'. remoteControllerCallback plat code type value a = Inr a' \<and> spec_inv a'
    \<and> spec_of a' = spec_press (tv_key_of code) (spec_of a)"
proof -
  consider "code = KEYCODE_P_PLUS" | "code = KEYCODE_P_MINUS" | "code = KEYCODE_V_PLUS" | "code = KEYCODE_V_MINUS"
    | "code = KEYCODE_MUTE" | "code = KEYCODE_INFO" | "code = KEYCODE_EXIT" | "digit_code code"
    | "code \<notin> {KEYCODE_P_PLUS, KEYCODE_P_MINUS, KEYCODE_V_PLUS, KEYCODE_V_MINUS, KEYCODE_MUTE, KEYCODE_INFO, KEYCODE_EXIT}"
      "\<not> digit_code code"
    by blast
  then show ?thesis
  proof cases
    case 8
    then obtain d where "d < 10" "code = KEYCODE_digit d" by (auto simp: digit_code_def)
    then show ?thesis using refine_digit [OF assms] tv_key_of_digit by simp
  next
    case 9
    have "code \<noteq> KEYCODE_0" using 9(2) by (auto simp: digit_codes KEYCODE_digit_def)
    then have "tv_key_of code = Other_Key" using 9 digit_codeI [of code] by (auto simp: tv_key_of_def)
    moreover have "remoteControllerCallback plat code type value a = Inr a"
      using 9 by (auto simp: remoteControllerCallback_def digit_codes)
    ultimately show ?thesis using assms by simp
  qed (use refine_program_keys [OF assms, of plat type "value"] refine_volume_keys [OF assms, of plat type "value"]
      refine_other_keys [OF assms, of plat type "value"] in \<open>simp_all only: tv_key_of_codes\<close>)
qed

interpretation television: refines spec_inv spec_of
  "\<lambda>e. remoteControllerCallback plat (ev_code e) (ev_type e) (ev_value e)" "\<lambda>e. spec_press (tv_key_of (ev_code e))" for plat
  by unfold_locales (rule press_refines)

text \<open>
  C3. The application implements the television its viewer knows. Take any state in which a PAT has
  arrived with the current program on it, the modules agree on the volume and the stored digits are
  digits. Then any sequence of key events is handled without a fault, such a state results, and what
  the viewer sees of it is what the specification says: P+ and P- go around the
  programs, the volume moves by one between 0 and 10 and the bar shows it, digits are collected (the fourth starts
  over with two zeros behind it), INFO shows the PIDs of the running channel, EXIT asks for the end, and no other key
  does anything. While the dialling is open, the channel its timer will ask for is the number of the
  digits.
\<close>

theorem keys_refine_specification:
  assumes "spec_inv a"
  shows "\<exists>a'. dispatch (remoteControllerCallback plat) es a = Inr a' \<and> spec_inv a'
    \<and> spec_of a' = fold (\<lambda>e. spec_press (tv_key_of (ev_code e))) es (spec_of a)
    \<and> (spec_dialling (spec_of a') \<longrightarrow> dialled_channel (tv a') = Inr (spec_number (spec_of a')))"
proof -
  obtain a' where a': "dispatch (remoteControllerCallback plat) es a = Inr a'" "spec_inv a'"
    "spec_of a' = fold (\<lambda>e. spec_press (tv_key_of (ev_code e))) es (spec_of a)"
    using television.refine_run [OF assms, of plat es] unfolding dispatch_fold by blast
  have "dialled_channel (tv a') = Inr (spec_number (spec_of a'))" if "spec_dialling (spec_of a')"
  proof -
    have "dial_inv (tv a')" "keysPressed (tv a') \<noteq> 0" using a'(2) that by (auto simp: spec_inv_def dial_inv_def spec_of_def)
    from digits_number [OF this] show ?thesis by (simp add: spec_of_def spec_number_def)
  qed
  then show ?thesis using a' by blast
qed

theorem keys_refine_specification_witness:
  "\<exists>a'. dispatch (remoteControllerCallback ideal_platform)
       [\<lparr>ev_type = 1, ev_code = 62, ev_value = 1\<rparr>, \<lparr>ev_type = 1, ev_code = 61, ev_value = 1\<rparr>, \<lparr>ev_type = 1, ev_code = 61, ev_value = 1\<rparr>,
        \<lparr>ev_type = 1, ev_code = 63, ev_value = 1\<rparr>, \<lparr>ev_type = 1, ev_code = 2, ev_value = 1\<rparr>, \<lparr>ev_type = 1, ev_code = 11, ev_value = 1\<rparr>]
       (app_start\<lparr>sc := (sc app_start)\<lparr>patTable := Ptr example_pat\<rparr>\<rparr>) = Inr a'
     \<and> spec_program (spec_of a') = 2 \<and> spec_level (spec_of a') = 6 \<and> dialled_channel (tv a') = Inr 10"
proof -
  let ?a = "app_start\<lparr>sc := (sc app_start)\<lparr>patTable := Ptr example_pat\<rparr>\<rparr>"
  have ok: "channel_ok (sc ?a)"
    by (simp add: channel_ok_def wf_example_pat) (simp add: app_start_def initial_state_def example_pat_def)
  have "volume_inv ?a" "dial_inv (tv ?a)"
    by (simp_all add: volume_inv_def dial_inv_def app_start_def tv_def initial_state_def tv_start_def setTimerParams_def gc_start_def)
  then have inv: "spec_inv ?a" using ok by (simp add: spec_inv_def)
  have s: "spec_programs (spec_of ?a) = 3" "spec_program (spec_of ?a) = 0" "spec_level (spec_of ?a) = 5" "spec_digits (spec_of ?a) = []"
    by (simp_all add: spec_of_def program_count_def example_pat_def dial_digits_def app_start_def initial_state_def tv_def tv_start_def)
  show ?thesis
    using keys_refine_specification [OF inv, of ideal_platform
      "[\<lparr>ev_type = 1, ev_code = 62, ev_value = 1\<rparr>, \<lparr>ev_type = 1, ev_code = 61, ev_value = 1\<rparr>, \<lparr>ev_type = 1, ev_code = 61, ev_value = 1\<rparr>,
        \<lparr>ev_type = 1, ev_code = 63, ev_value = 1\<rparr>, \<lparr>ev_type = 1, ev_code = 2, ev_value = 1\<rparr>, \<lparr>ev_type = 1, ev_code = 11, ev_value = 1\<rparr>]"]
    by (auto simp: tv_key_of_def keycodes show_level_def s spec_number_def simp del: dispatch.simps)
qed

end
