(* ===== verification/Vezba_App.thy ===== *)
theory Vezba_App
  imports Tv_Keys Stream_Boot
begin

section \<open>The earlier application (vezba\_5.c)\<close>

text \<open>
  The version of the application before the date and the volume were added. It calls
  \<open>drawInfoRect\<close> without arguments, as the graphics controller of that time declared it; that
  function is the parameter \<open>draw_info\<close>. Everything else it calls is the module of the same name.
  The names carry the prefix \<open>v5\<close> to keep them apart from those of tv\_app.c.
\<close>

subsection \<open>State\<close>

record v5_state =
  v5_channelInfo :: ChannelInfo
  v5_keysPressed :: i32
  v5_keys :: "i32 list"
  v5_keyTimer :: timer
  v5_deinitSignals :: nat

record ('m, 'd, 'g) v5_app =
  v5_sc :: "('m, 'd, v5_state) sc_state"
  v5_gc :: "'g gc_state"

definition v5 :: "('m, 'd, 'g) v5_app \<Rightarrow> v5_state" where
  "v5 a = client (v5_sc a)"

definition with_v5 :: "(v5_state \<Rightarrow> v5_state) \<Rightarrow> ('m, 'd, 'g) v5_app \<Rightarrow> ('m, 'd, 'g) v5_app" where
  "with_v5 f a = a\<lparr>v5_sc := (v5_sc a)\<lparr>client := f (client (v5_sc a))\<rparr>\<rparr>"

subsection \<open>Error checks\<close>

definition v5_textColor :: "int \<Rightarrow> int \<Rightarrow> int \<Rightarrow> string c_res" where
  "v5_textColor attr fg bg =
    c_sprintf 13 (CHR 0x1B # ''['' @ show_int attr @ '';'' @ show_int (fg + 30) @ '';'' @ show_int (bg + 40) @ ''m'')"

definition v5_ERRORCHECK :: "bool \<Rightarrow> 's \<Rightarrow> ('s \<Rightarrow> (int option \<times> 's) c_res) \<Rightarrow> (int option \<times> 's) c_res" where
  "v5_ERRORCHECK failed s rest =
    (if failed then c_bind (v5_textColor 1 1 0) (\<lambda>_. c_bind (v5_textColor 0 7 0) (\<lambda>_. Inr (Some (-1), s)))
     else rest s)"

subsection \<open>Dialling a channel number\<close>

text \<open>As in tv\_app.c, the fourth digit reaches the statement \<open>keysPressed == 1;\<close>.\<close>

definition v5_inputChannelNumber :: "u16 \<Rightarrow> v5_state \<Rightarrow> v5_state" where
  "v5_inputChannelNumber key t =
    (let t = t\<lparr>v5_keyTimer := Timer_Armed 2\<rparr> in
     if v5_keysPressed t = 0
     then t\<lparr>v5_keys := (v5_keys t)[0 := ucast key], v5_keysPressed := v5_keysPressed t + 1\<rparr>
     else if v5_keysPressed t = 1
     then t\<lparr>v5_keys := (v5_keys t)[1 := ucast key], v5_keysPressed := v5_keysPressed t + 1\<rparr>
     else if v5_keysPressed t = 2
     then t\<lparr>v5_keys := (v5_keys t)[2 := ucast key], v5_keysPressed := v5_keysPressed t + 1\<rparr>
     else if v5_keysPressed t = 3
     then t\<lparr>v5_keys := (v5_keys t)[0 := ucast key, 1 := 0, 2 := 0]\<rparr>
     else t)"

definition v5_dialled_channel :: "v5_state \<Rightarrow> int c_res" where
  "v5_dialled_channel t =
    (if v5_keysPressed t = 1 then Inr (sint (v5_keys t ! 0))
     else if v5_keysPressed t = 2 then Inr (sint (10 * v5_keys t ! 0 + v5_keys t ! 1))
     else if v5_keysPressed t = 3 then Inr (sint (100 * v5_keys t ! 0 + 10 * v5_keys t ! 1 + v5_keys t ! 2))
     else Inl Indeterminate_Value)"

text \<open>\<open>changeChannel\<close> up to the wait inside \<open>startChannel\<close>, and its end.\<close>

definition v5_changeChannel_begin ::
  "('m, 'd) platform \<Rightarrow> ('m, 'd, 'g) v5_app \<Rightarrow> (start_pc \<times> ('m, 'd, 'g) v5_app) c_res" where
  "v5_changeChannel_begin plat a =
    c_bind (v5_dialled_channel (v5 a)) (\<lambda>channel.
    c_bind (changeChannelKey_begin plat channel (v5_sc (with_v5 (\<lambda>t. t\<lparr>v5_keyTimer := Timer_Idle\<rparr>) a))) (\<lambda>(pc, s).
    Inr (pc, a\<lparr>v5_sc := s\<rparr>)))"

definition v5_changeChannel_end :: "v5_state \<Rightarrow> v5_state" where
  "v5_changeChannel_end t = t\<lparr>v5_keysPressed := 0, v5_keys := (v5_keys t)[0 := 0, 1 := 0, 2 := 0]\<rparr>"

subsection \<open>Key presses\<close>

text \<open>The volume keys have no case: they reach the default branch, which prints a hint.\<close>

definition v5_remoteControllerCallback ::
  "('g gc_state \<Rightarrow> 'g gc_state) \<Rightarrow> u16 \<Rightarrow> u16 \<Rightarrow> u32 \<Rightarrow> ('m, 'd, 'g) v5_app \<Rightarrow> ('m, 'd, 'g) v5_app c_res" where
  "v5_remoteControllerCallback draw_info code type value a =
    (if code = KEYCODE_INFO then
       let info = snd (getChannelInfo (Some (v5_channelInfo (v5 a))) (v5_sc a));
           a = with_v5 (\<lambda>t. t\<lparr>v5_channelInfo := the info\<rparr>) a
       in Inr (a\<lparr>v5_gc := draw_info (v5_gc a)\<rparr>)
     else if code = KEYCODE_P_PLUS then
       c_bind (channelUp (v5_sc a)) (\<lambda>(_, s). Inr (a\<lparr>v5_sc := s\<rparr>))
     else if code = KEYCODE_P_MINUS then
       c_bind (channelDown (v5_sc a)) (\<lambda>(_, s). Inr (a\<lparr>v5_sc := s\<rparr>))
     else if code = KEYCODE_EXIT then
       Inr (with_v5 (\<lambda>t. t\<lparr>v5_deinitSignals := v5_deinitSignals t + 1\<rparr>) a)
     else if code = KEYCODE_digit 1 then Inr (with_v5 (v5_inputChannelNumber 1) a)
     else if code = KEYCODE_digit 2 then Inr (with_v5 (v5_inputChannelNumber 2) a)
     else if code = KEYCODE_digit 3 then Inr (with_v5 (v5_inputChannelNumber 3) a)
     else if code = KEYCODE_digit 4 then Inr (with_v5 (v5_inputChannelNumber 4) a)
     else if code = KEYCODE_digit 5 then Inr (with_v5 (v5_inputChannelNumber 5) a)
     else if code = KEYCODE_digit 6 then Inr (with_v5 (v5_inputChannelNumber 6) a)
     else if code = KEYCODE_digit 7 then Inr (with_v5 (v5_inputChannelNumber 7) a)
     else if code = KEYCODE_digit 8 then Inr (with_v5 (v5_inputChannelNumber 8) a)
     else if code = KEYCODE_digit 9 then Inr (with_v5 (v5_inputChannelNumber 9) a)
     else if code = KEYCODE_digit 0 then Inr (with_v5 (v5_inputChannelNumber 0) a)
     else Inr a)"

subsection \<open>The main program\<close>

text \<open>No callback for date or volume is registered, and the graphics come up before the stream controller.\<close>

definition v5_main_begin ::
  "('m, 'd) platform \<Rightarrow> 'g dfb \<Rightarrow> ('g gc_state \<Rightarrow> 'g gc_state) \<Rightarrow> bool \<Rightarrow> char list option \<Rightarrow> ('m, 'd, 'g) v5_app rc_state
   \<Rightarrow> (int option \<times> ('m, 'd, 'g) v5_app rc_state) c_res" where
  "v5_main_begin plat dfb draw_info rc_failed config_file s =
    (let a = with_v5 (\<lambda>t. t\<lparr>v5_keyTimer := Timer_Idle\<rparr>) (rc_client s) in
     c_bind (loadInitialInfo plat config_file (v5_sc a)) (\<lambda>(rc, st).
     let s = s\<lparr>rc_client := a\<lparr>v5_sc := st\<rparr>\<rparr> in
     if rc \<noteq> SC_NO_ERROR then Inr (Some (-1), s) else
     v5_ERRORCHECK (remoteControllerInit rc_failed \<noteq> RC_NO_ERROR) s (\<lambda>s.
     case registerRemoteControllerCallback (Some (v5_remoteControllerCallback draw_info)) s of (rc, s) \<Rightarrow>
     v5_ERRORCHECK (rc \<noteq> RC_NO_ERROR) s (\<lambda>s.
     c_bind (graphicsControllerInit dfb (v5_gc (rc_client s))) (\<lambda>(rc, g).
     v5_ERRORCHECK (rc \<noteq> GC_NO_ERROR) (s\<lparr>rc_client := (rc_client s)\<lparr>v5_gc := g\<rparr>\<rparr>) (\<lambda>s.
     case streamControllerInit plat (v5_sc (rc_client s)) of (rc, st) \<Rightarrow>
     v5_ERRORCHECK (rc \<noteq> SC_NO_ERROR) (s\<lparr>rc_client := (rc_client s)\<lparr>v5_sc := st\<rparr>\<rparr>) (\<lambda>s. Inr (None, s))))))))"

text \<open>
  Behind the wait for the EXIT key the key timer goes first, then \<open>graphicsControllerDeinit\<close> sets its
  flag and waits; the rest follows its return.
\<close>

definition v5_main_woken :: "('m, 'd, 'g) v5_app rc_state \<Rightarrow> ('m, 'd, 'g) v5_app rc_state" where
  "v5_main_woken s =
    (let a = with_v5 (\<lambda>t. t\<lparr>v5_keyTimer := Timer_None\<rparr>) (rc_client s)
     in s\<lparr>rc_client := a\<lparr>v5_gc := graphicsControllerDeinit_begin (v5_gc a)\<rparr>\<rparr>)"

definition v5_main_end ::
  "('m, 'd) platform \<Rightarrow> 'g dfb \<Rightarrow> ('g gc_state \<Rightarrow> 'g gc_state) \<Rightarrow> bool \<Rightarrow> ('m, 'd, 'g) v5_app rc_state
   \<Rightarrow> (int option \<times> ('m, 'd, 'g) v5_app rc_state) c_res" where
  "v5_main_end plat dfb draw_info rc_failed s =
    c_bind (graphicsControllerDeinit_finish dfb (v5_gc (rc_client s))) (\<lambda>(rc, g).
    v5_ERRORCHECK (rc \<noteq> GC_NO_ERROR) (s\<lparr>rc_client := (rc_client s)\<lparr>v5_gc := g\<rparr>\<rparr>) (\<lambda>s.
    case unregisterRemoteControllerCallback (Some (v5_remoteControllerCallback draw_info)) s of (rc, s) \<Rightarrow>
    v5_ERRORCHECK (rc \<noteq> RC_NO_ERROR) s (\<lambda>s.
    case remoteControllerDeinit rc_failed s of (rc, s) \<Rightarrow>
    v5_ERRORCHECK (rc \<noteq> RC_NO_ERROR) s (\<lambda>s.
    c_bind (streamControllerDeinit plat (v5_sc (rc_client s))) (\<lambda>(rc, st).
    v5_ERRORCHECK (rc \<noteq> SC_NO_ERROR) (s\<lparr>rc_client := (rc_client s)\<lparr>v5_sc := st\<rparr>\<rparr>) (\<lambda>s.
    Inr (Some 0, s)))))))"

subsection \<open>The two applications agree\<close>

text \<open>What the earlier application keeps of the later one's state.\<close>

definition older :: "tv_state \<Rightarrow> v5_state" where
  "older t = \<lparr>v5_channelInfo = channelInfo t, v5_keysPressed = keysPressed t, v5_keys = keys t,
     v5_keyTimer = keyTimer t, v5_deinitSignals = deinitSignals t\<rparr>"

definition older_sc :: "('m, 'd, tv_state) sc_state \<Rightarrow> ('m, 'd, v5_state) sc_state" where
  "older_sc s = \<lparr>patTable = patTable s, pmtTable = pmtTable s, tdtTable = tdtTable s, totTable = totTable s,
     statusMutex = statusMutex s, playerHandle = playerHandle s, sourceHandle = sourceHandle s,
     streamHandleA = streamHandleA s, streamHandleV = streamHandleV s, filterHandle = filterHandle s,
     threadExit = threadExit s, changeChannelFlag = changeChannelFlag s, programNumber = programNumber s,
     currentChannel = currentChannel s, isInitialized = isInitialized s, timeTablesRecieved = timeTablesRecieved s,
     dateRecievedCallback = None, volumeReportCallback = None, configFile = configFile s,
     currentDate = currentDate s, sc_currentVolume = sc_currentVolume s, client = older (client s),
     calls = calls s, device = device s\<rparr>"

lemma older_inputChannelNumber: "v5_inputChannelNumber d (older t) = older (inputChannelNumber d t)"
  by (simp add: v5_inputChannelNumber_def inputChannelNumber_def older_def Let_def)

lemma older_dialled_channel: "v5_dialled_channel (older t) = dialled_channel t"
  by (simp add: v5_dialled_channel_def dialled_channel_def older_def)

lemma older_changeChannel_end: "v5_changeChannel_end (older t) = older (changeChannel_end t)"
  by (simp add: v5_changeChannel_end_def changeChannel_end_def older_def)

lemma older_channel_keys:
  "channelUp (older_sc s) = c_bind (channelUp s) (\<lambda>(rc, s). Inr (rc, older_sc s))"
  "channelDown (older_sc s) = c_bind (channelDown s) (\<lambda>(rc, s). Inr (rc, older_sc s))"
  by (cases "patTable s"; simp add: channelUp_def channelDown_def older_sc_def Let_def)+

lemma older_changeChannelKey_begin:
  "changeChannelKey_begin plat ch (older_sc s) = c_bind (changeChannelKey_begin plat ch s) (\<lambda>(pc, s). Inr (pc, older_sc s))"
proof (cases "patTable s")
  case (Ptr pat)
  then show ?thesis
    by (cases "service_pid pat ch")
      (simp_all add: changeChannelKey_begin_def startChannel_begin_def older_sc_def call_simps Let_def del: of_nat_unat)
qed (simp_all add: changeChannelKey_begin_def older_sc_def)

lemma older_getChannelInfo: "getChannelInfo (Some i) (older_sc s) = getChannelInfo (Some j) s"
  by (simp add: getChannelInfo_def older_sc_def)

definition volume_code :: "u16 \<Rightarrow> bool" where
  "volume_code code \<longleftrightarrow> code = KEYCODE_V_PLUS \<or> code = KEYCODE_V_MINUS \<or> code = KEYCODE_MUTE"

lemma older_with_tv:
  "v5_sc b = older_sc (sc a) \<Longrightarrow> g (older (tv a)) = older (f (tv a)) \<Longrightarrow>
     v5_sc (with_v5 g b) = older_sc (sc (with_tv f a))"
  by (simp add: with_v5_def with_tv_def older_sc_def tv_def)

lemma v5_key_agrees:
  assumes "v5_sc b = older_sc (sc a)" and "\<not> volume_code code"
  shows "c_bind (v5_remoteControllerCallback draw_info code type value b) (\<lambda>b. Inr (v5_sc b)) =
    c_bind (remoteControllerCallback plat code type value a) (\<lambda>a. Inr (older_sc (sc a)))"
proof -
  have digit: "v5_sc (with_v5 (v5_inputChannelNumber d) b) = older_sc (sc (with_tv (inputChannelNumber d) a))" for d
    by (rule older_with_tv [OF assms(1)]) (rule older_inputChannelNumber)
  have exit: "v5_sc (with_v5 (\<lambda>t. t\<lparr>v5_deinitSignals := v5_deinitSignals t + 1\<rparr>) b) =
      older_sc (sc (with_tv (\<lambda>t. t\<lparr>deinitSignals := deinitSignals t + 1\<rparr>) a))"
    by (rule older_with_tv [OF assms(1)]) (simp add: older_def)
  have info: "v5_sc (with_v5 (\<lambda>t. t\<lparr>v5_channelInfo := i\<rparr>) b) = older_sc (sc (with_tv (\<lambda>t. t\<lparr>channelInfo := i\<rparr>) a))" for i
    by (rule older_with_tv [OF assms(1)]) (simp add: older_def)
  consider "code = KEYCODE_INFO" | "code = KEYCODE_P_PLUS" | "code = KEYCODE_P_MINUS"
    | "code \<notin> {KEYCODE_INFO, KEYCODE_P_PLUS, KEYCODE_P_MINUS}" by blast
  then show ?thesis
  proof cases
    case 1
    then show ?thesis
      using info older_getChannelInfo [of _ "sc a"]
      by (simp add: v5_remoteControllerCallback_def remoteControllerCallback_def Let_def assms(1)) (metis getChannelInfo_def)
  next
    case 2
    then show ?thesis
      by (cases "channelUp (sc a)") (auto simp: v5_remoteControllerCallback_def remoteControllerCallback_def keycodes assms(1)
          older_channel_keys)
  next
    case 3
    then show ?thesis
      by (cases "channelDown (sc a)") (auto simp: v5_remoteControllerCallback_def remoteControllerCallback_def keycodes assms(1)
          older_channel_keys)
  next
    case 4
    then show ?thesis
      using assms(2) digit exit assms(1)
      by (simp add: v5_remoteControllerCallback_def remoteControllerCallback_def volume_code_def)
  qed
qed

lemma v5_dispatch_agrees:
  assumes "v5_sc b = older_sc (sc a)" and "list_all (\<lambda>e. \<not> volume_code (ev_code e)) es"
  shows "c_bind (dispatch (v5_remoteControllerCallback draw_info) es b) (\<lambda>b. Inr (v5_sc b)) =
    c_bind (dispatch (remoteControllerCallback plat) es a) (\<lambda>a. Inr (older_sc (sc a)))"
  using assms
proof (induction es arbitrary: a b)
  case (Cons e es)
  have k: "c_bind (v5_remoteControllerCallback draw_info (ev_code e) (ev_type e) (ev_value e) b) (\<lambda>b. Inr (v5_sc b)) =
      c_bind (remoteControllerCallback plat (ev_code e) (ev_type e) (ev_value e) a) (\<lambda>a. Inr (older_sc (sc a)))"
    using Cons.prems by (intro v5_key_agrees) simp_all
  show ?case
  proof (cases "remoteControllerCallback plat (ev_code e) (ev_type e) (ev_value e) a")
    case (Inl x)
    then show ?thesis using k by (simp add: c_bind_eq_Inl)
  next
    case (Inr a')
    then obtain b' where "v5_remoteControllerCallback draw_info (ev_code e) (ev_type e) (ev_value e) b = Inr b'"
      "v5_sc b' = older_sc (sc a')"
      using k by (auto simp: c_bind_eq_Inr)
    then show ?thesis using Inr Cons by simp
  qed
qed simp

text \<open>
  C35. The earlier and the current application do the same to the stream controller. Over any
  sequence of key events without volume keys, seen through what the earlier one keeps of the
  state, the earlier callback leaves the stream controller, the channel information, the digits and the
  key timer as the current one does, and it faults exactly where that one faults; then the
  expiry of the key timer starts the same channel with the same calls, and clears the same digits.
  The volume keys change nothing in it.
\<close>

theorem v5_keys_equivalent:
  assumes "v5_sc b = older_sc (sc a)" and "list_all (\<lambda>e. \<not> volume_code (ev_code e)) es"
  shows "c_bind (dispatch (v5_remoteControllerCallback draw_info) es b) (\<lambda>b. Inr (v5_sc b)) =
      c_bind (dispatch (remoteControllerCallback plat) es a) (\<lambda>a. Inr (older_sc (sc a)))
    \<and> c_bind (v5_changeChannel_begin plat b) (\<lambda>(pc, b). Inr (pc, v5_sc b)) =
      c_bind (changeChannel_begin plat a) (\<lambda>(pc, a). Inr (pc, older_sc (sc a)))
    \<and> v5_changeChannel_end (older t) = older (changeChannel_end t)
    \<and> (volume_code code \<longrightarrow> v5_remoteControllerCallback draw_info code type value b = Inr b)"
proof -
  have w: "v5_sc (with_v5 (\<lambda>t. t\<lparr>v5_keyTimer := Timer_Idle\<rparr>) b) = older_sc (sc (with_tv (\<lambda>t. t\<lparr>keyTimer := Timer_Idle\<rparr>) a))"
    by (rule older_with_tv [OF assms(1)]) (simp add: older_def)
  have c: "v5 b = older (tv a)" by (simp add: v5_def tv_def assms(1) older_sc_def)
  have "c_bind (v5_changeChannel_begin plat b) (\<lambda>(pc, b). Inr (pc, v5_sc b)) =
      c_bind (changeChannel_begin plat a) (\<lambda>(pc, a). Inr (pc, older_sc (sc a)))"
    unfolding v5_changeChannel_begin_def changeChannel_begin_def w c older_dialled_channel older_changeChannelKey_begin
    by (auto simp: c_bind_def split: sum.split)
  moreover have "volume_code code \<Longrightarrow> v5_remoteControllerCallback draw_info code type value b = Inr b"
    by (auto simp: volume_code_def v5_remoteControllerCallback_def keycodes)
  ultimately show ?thesis
    using v5_dispatch_agrees [OF assms, of draw_info plat] older_changeChannel_end [of t] by blast
qed

definition v5_start :: "(nat, unit, unit) v5_app" where
  "v5_start = \<lparr>v5_sc = older_sc (sc app_start), v5_gc = gc app_start\<rparr>"

theorem v5_keys_equivalent_witness:
  "c_bind (dispatch (v5_remoteControllerCallback id) [\<lparr>ev_type = 1, ev_code = 3, ev_value = 1\<rparr>,
       \<lparr>ev_type = 1, ev_code = 358, ev_value = 1\<rparr>] v5_start) (\<lambda>b. Inr (v5_sc b)) =
     c_bind (dispatch (remoteControllerCallback ideal_platform) [\<lparr>ev_type = 1, ev_code = 3, ev_value = 1\<rparr>,
       \<lparr>ev_type = 1, ev_code = 358, ev_value = 1\<rparr>] app_start) (\<lambda>a. Inr (older_sc (sc a)))
   \<and> v5_remoteControllerCallback id 63 1 1 v5_start = Inr v5_start"
  using v5_keys_equivalent [of v5_start app_start "[\<lparr>ev_type = 1, ev_code = 3, ev_value = 1\<rparr>,
       \<lparr>ev_type = 1, ev_code = 358, ev_value = 1\<rparr>]" id ideal_platform tv_start 63 1 1]
  by (simp add: v5_start_def volume_code_def keycodes del: dispatch.simps)

subsection \<open>Its main program\<close>

lemma v5_ERRORCHECK_eq: "v5_ERRORCHECK failed s rest = (if failed then Inr (Some (-1), s) else rest s)"
proof -
  have "v5_textColor = textColor" by (intro ext) (simp add: v5_textColor_def textColor_def)
  then show ?thesis using textColor_ok by (auto simp: v5_ERRORCHECK_def)
qed

lemma v5_main_begin_waits:
  assumes "v5_main_begin plat dfb draw_info rc_failed config_file s = Inr (None, s')"
  shows "callback s' = Some (v5_remoteControllerCallback draw_info)"
    and "dateRecievedCallback (v5_sc (rc_client s')) = dateRecievedCallback (v5_sc (rc_client s))"
    and "volumeReportCallback (v5_sc (rc_client s')) = volumeReportCallback (v5_sc (rc_client s))"
    and "statusMutex (v5_sc (rc_client s')) = statusMutex (v5_sc (rc_client s))"
    and "timeTablesRecieved (v5_sc (rc_client s')) = timeTablesRecieved (v5_sc (rc_client s))"
    and "v5_keyTimer (v5 (rc_client s')) = Timer_Idle"
    and "\<And>ov. \<not> overlay_shown ov (v5_gc (rc_client s')) \<and> overlay_timer ov (v5_gc (rc_client s')) = Timer_Idle"
proof -
  let ?a = "with_v5 (\<lambda>t. t\<lparr>v5_keyTimer := Timer_Idle\<rparr>) (rc_client s)"
  obtain rc st where l: "loadInitialInfo plat config_file (v5_sc ?a) = Inr (rc, st)"
    using assms by (auto simp: v5_main_begin_def c_bind_eq_Inr Let_def)
  have st: "client st = client (v5_sc ?a)" "dateRecievedCallback st = dateRecievedCallback (v5_sc ?a)"
    "volumeReportCallback st = volumeReportCallback (v5_sc ?a)" "statusMutex st = statusMutex (v5_sc ?a)"
    "timeTablesRecieved st = timeTablesRecieved (v5_sc ?a)"
    using l by (auto simp: loadInitialInfo_def c_bind_eq_Inr Let_def split: if_splits prod.splits)
  obtain g where g: "graphicsControllerInit dfb (v5_gc (rc_client s)) = Inr (GC_NO_ERROR, g)"
    and s': "s' = s\<lparr>callback := Some (v5_remoteControllerCallback draw_info),
        rc_client := ?a\<lparr>v5_sc := snd (streamControllerInit plat st), v5_gc := g\<rparr>\<rparr>"
    using assms l
    by (auto simp: v5_main_begin_def v5_ERRORCHECK_eq registerRemoteControllerCallback_def Let_def c_bind_eq_Inr with_v5_def
        split: if_splits prod.splits)
  have i: "client (snd (streamControllerInit plat st)) = client st"
    "dateRecievedCallback (snd (streamControllerInit plat st)) = dateRecievedCallback st"
    "volumeReportCallback (snd (streamControllerInit plat st)) = volumeReportCallback st"
    "statusMutex (snd (streamControllerInit plat st)) = statusMutex st"
    "timeTablesRecieved (snd (streamControllerInit plat st)) = timeTablesRecieved st"
    by (simp_all add: streamControllerInit_def call_simps)
  show "callback s' = Some (v5_remoteControllerCallback draw_info)"
    and "dateRecievedCallback (v5_sc (rc_client s')) = dateRecievedCallback (v5_sc (rc_client s))"
    and "volumeReportCallback (v5_sc (rc_client s')) = volumeReportCallback (v5_sc (rc_client s))"
    and "statusMutex (v5_sc (rc_client s')) = statusMutex (v5_sc (rc_client s))"
    and "timeTablesRecieved (v5_sc (rc_client s')) = timeTablesRecieved (v5_sc (rc_client s))"
    and "v5_keyTimer (v5 (rc_client s')) = Timer_Idle"
    and "\<And>ov. \<not> overlay_shown ov (v5_gc (rc_client s')) \<and> overlay_timer ov (v5_gc (rc_client s')) = Timer_Idle"
    using graphicsControllerInit_success [OF g] st i by (simp_all add: s' with_v5_def v5_def)
qed

text \<open>The end of the time tables without a callback.\<close>

lemma boot_time_without_callback:
  fixes s :: "('m, 'd, 'a) sc_state"
  assumes "calls_succeed plat" and "tdtTable s = Ptr tdt" and "totTable s = Ptr tot" and "wf_tot tot"
    and "dateRecievedCallback s = None" and "valid_broadcast b"
  shows "\<exists>m. sc_run plat (time_events b) (machine_start (First_Start Tdt_Set) s) m
    \<and> task m = First_Start Tot_Wait \<and> task_woken m \<and> task_resume plat (task m) (ctl m) = Inl Null_Dereference"
proof -
  obtain y mo d where ymd: "b_date b = (y, mo, d)" by (cases "b_date b") auto
  obtain s2 tdt' tot' where run1: "sc_run plat (table_events (tdt_section (b_len b) (of_nat (b_mjd b)) (b_utc b)))
      (machine_start (First_Start Tdt_Set) s) (machine_start (First_Start Tot_Set) s2)"
    and s2: "core s2 = core (s\<lparr>tdtTable := Ptr tdt'\<rparr>)"
    and r: "sectionReceivedCallback plat
        (Some (tot_section (b_len b) (of_nat (b_mjd b)) (b_utc b) (b_regions b) (b_crc b), 0)) s2 =
        Inr (True, s2\<lparr>totTable := Ptr tot'\<rparr>)" "wf_tot tot'"
    using boot_tdt [OF assms(1-4,6) ymd] by blast
  let ?bs = "tot_section (b_len b) (of_nat (b_mjd b)) (b_utc b) (b_regions b) (b_crc b)"
  let ?m1 = "(machine_start (First_Start Tot_Set) s2)\<lparr>task := First_Start Tot_Wait, task_woken := False\<rparr>"
  let ?m2 = "?m1\<lparr>ctl := s2\<lparr>totTable := Ptr tot'\<rparr>, task_woken := True\<rparr>"
  have "sc_step plat Task_Waits (machine_start (First_Start Tot_Set) s2) ?m1"
    by (intro task_waits) (simp add: machine_start_def)
  moreover have "sc_step plat (Section ?bs The_Task) ?m1 ?m2"
    using section_arrives [of plat ?bs ?m1 True "s2\<lparr>totTable := Ptr tot'\<rparr>" The_Task] r(1)
    by (simp add: machine_start_def task_blocked_def)
  ultimately have run2: "sc_run plat [Task_Waits, Section ?bs The_Task] (machine_start (First_Start Tot_Set) s2) ?m2"
    by (blast intro: run_cons run_nil)
  have "tdtTable s2 = Ptr tdt'" "dateRecievedCallback s2 = None" using s2 assms(5) by (simp_all add: core_defs)
  moreover have "tot_descriptor tot' 0 = Inr (descriptors tot' ! 0)" "0 < length (ltoInfo (descriptors tot' ! 0))"
    using r(2) by (auto simp: wf_tot_def wf_lto_def tot_descriptor_def tot_consts list_all_length)
  ultimately have "task_resume plat (First_Start Tot_Wait) (s2\<lparr>totTable := Ptr tot'\<rparr>) = Inl Null_Dereference"
    by (simp add: parseTimeTables_tot_def wait_over_def Let_def)
  then show ?thesis
    using run_append [OF run1 run2] by (intro exI [of _ ?m2]) (simp add: time_events_def)
qed

text \<open>
  C36. The earlier application does not work with the current stream controller. Its main program
  reaches the wait for the EXIT key with its key callback registered and the graphics up, but it
  registers no callback for the date, and the stream controller does not test for one. So on a
  platform where every call succeeds, and with the broadcast that brings the current
  application up, the controller thread gets as far as the TOT, and its next step is a call through
  a null pointer.
\<close>

theorem v5_date_report_faults:
  assumes "calls_succeed plat" and "valid_broadcast b"
    and "v5_main_begin plat dfb draw_info rc_failed config_file s = Inr (None, s')"
    and "dateRecievedCallback (v5_sc (rc_client s)) = None"
    and "\<not> statusMutex (v5_sc (rc_client s))" and "\<not> timeTablesRecieved (v5_sc (rc_client s))"
    and "p = sint (programNumber (v5_sc (rc_client s')))" and "0 \<le> p" and "p + 1 < int (length (snd (b_pat b)))"
  shows "callback s' = Some (v5_remoteControllerCallback draw_info)
    \<and> (\<forall>ov. \<not> overlay_shown ov (v5_gc (rc_client s')) \<and> overlay_timer ov (v5_gc (rc_client s')) = Timer_Idle)
    \<and> (\<exists>st m. streamControllerTask_begin plat (v5_sc (rc_client s')) = Inr (Status_Lock, st)
        \<and> sc_run plat (butlast (broadcast_events b)) (machine_start Status_Lock st) m
        \<and> task m = First_Start Tot_Wait \<and> task_woken m
        \<and> task_resume plat (task m) (ctl m) = Inl Null_Dereference)"
proof -
  note w = v5_main_begin_waits [OF assms(3)]
  obtain st s3 tdt tot where b1: "streamControllerTask_begin plat (v5_sc (rc_client s')) = Inr (Status_Lock, st)"
    and run1: "sc_run plat ([Task_Locks, Tuner_Reports]
        @ table_events (pat_section (fst (b_pat b)) (snd (b_pat b)) (b_crc b))
        @ table_events (pmt_section (fst (b_pmt b)) (fst (snd (b_pmt b))) (snd (snd (b_pmt b))) (b_crc b)))
      (machine_start Status_Lock st) (machine_start (First_Start Tdt_Set) s3)"
    and f3: "tdtTable s3 = Ptr tdt" "totTable s3 = Ptr tot" "wf_tot tot" "dateRecievedCallback s3 = None"
    using boot_to_time [OF assms(1,2), of "v5_sc (rc_client s')" p] assms(4-9) w(2,4,5) by auto
  obtain m where m: "sc_run plat (time_events b) (machine_start (First_Start Tdt_Set) s3) m"
    "task m = First_Start Tot_Wait" "task_woken m" "task_resume plat (task m) (ctl m) = Inl Null_Dereference"
    using boot_time_without_callback [OF assms(1) f3 assms(2)] by blast
  have "butlast (broadcast_events b) = ([Task_Locks, Tuner_Reports]
        @ table_events (pat_section (fst (b_pat b)) (snd (b_pat b)) (b_crc b))
        @ table_events (pmt_section (fst (b_pmt b)) (fst (snd (b_pmt b))) (snd (snd (b_pmt b))) (b_crc b))) @ time_events b"
    by (simp add: broadcast_events_def time_events_def table_events_def butlast_append)
  then show ?thesis using b1 run_append [OF run1 m(1)] m(2-4) w(1,7) by auto
qed

theorem v5_date_report_faults_witness:
  "\<exists>s' st m. v5_main_begin ideal_platform (\<lambda>_ _. (False, (1280, 720), ())) id False (Some [])
       \<lparr>rc_threadExit = 0, callback = None, rc_client = v5_start\<rparr> = Inr (None, s')
     \<and> streamControllerTask_begin ideal_platform (v5_sc (rc_client s')) = Inr (Status_Lock, st)
     \<and> sc_run ideal_platform (butlast (broadcast_events example_broadcast)) (machine_start Status_Lock st) m
     \<and> task_resume ideal_platform (task m) (ctl m) = Inl Null_Dereference"
proof -
  let ?s = "\<lparr>rc_threadExit = 0, callback = None, rc_client = v5_start\<rparr>"
  have "\<exists>s'. v5_main_begin ideal_platform (\<lambda>_ _. (False, (1280, 720), ())) id False (Some []) ?s = Inr (None, s')
      \<and> programNumber (v5_sc (rc_client s')) = 0"
    by (simp add: v5_main_begin_def v5_ERRORCHECK_eq registerRemoteControllerCallback_def remoteControllerInit_def
        loadInitialInfo_def loadConfigFile_def loadConfigLines.simps c_fgets_def graphicsControllerInit_def dfb_out_eq
        dfb_checked_def DFBCHECK_def streamControllerInit_def call_simps ideal_platform_def v5_start_def older_sc_def
        app_start_def initial_state_def with_v5_def Let_def)
  then obtain s' where s': "v5_main_begin ideal_platform (\<lambda>_ _. (False, (1280, 720), ())) id False (Some []) ?s = Inr (None, s')"
    "programNumber (v5_sc (rc_client s')) = 0" by blast
  have "dateRecievedCallback (v5_sc (rc_client ?s)) = None" "\<not> statusMutex (v5_sc (rc_client ?s))"
    "\<not> timeTablesRecieved (v5_sc (rc_client ?s))" "(0 :: int) + 1 < int (length (snd (b_pat example_broadcast)))"
    by (simp_all add: v5_start_def older_sc_def app_start_def initial_state_def example_broadcast_def pat_example_services_def)
  then show ?thesis
    using v5_date_report_faults [OF ideal_calls_succeed valid_example_broadcast s'(1)] s' by auto
qed

text \<open>
  The earlier application deletes its key timer first, before anything is released: whatever the outcome of the rest, the timer is gone.
\<close>

lemma streamControllerDeinit_client:
  assumes "streamControllerDeinit plat s = Inr (rc, s')"
  shows "client s' = client s"
  using assms
  by (auto simp: streamControllerDeinit_defs free_tables_def call_simps Let_def c_bind_eq_Inr split: if_splits)

lemma v5_timer_deleted_first:
  assumes "v5_main_end plat dfb draw_info rc_failed (v5_main_woken s) = Inr (r, s')"
  shows "v5_keyTimer (v5 (rc_client s')) = Timer_None"
  using assms
  by (auto simp: v5_main_end_def v5_main_woken_def v5_ERRORCHECK_eq unregisterRemoteControllerCallback_def remoteControllerDeinit_def
      remoteControllerDeinit_begin_def with_v5_def v5_def c_bind_eq_Inr Let_def dest!: streamControllerDeinit_client split: if_splits)

end
