(* ===== verification/Test_Program.thy ===== *)
theory Test_Program
  imports Tables_Print
begin

section \<open>The test program for dates (test.c)\<close>

text \<open>
  A stand-alone program that tries the date conversion on the Modified Julian Date 55097 and
  prints the result. Its variables are those of the TDT parser, except that the
  date is an \<open>int64_t\<close> and \<open>K\<close> a \<open>uint16_t\<close>; the date is a parameter here and
  \<open>test_main\<close> passes the program's value.
\<close>

record test_vars =
  test_Year :: u16
  test_tmpYear :: u16
  test_tmpMonth :: u16
  test_day :: u16
  test_K :: u16

text \<open>
  Lines 16 to 31, statement by statement. The sums and products that are assigned to a
  \<open>uint16_t\<close> are formed in \<open>int\<close> and reduced by the assignment; the day is
  formed in \<open>int64_t\<close>.
\<close>

definition test_convert :: "i64 \<Rightarrow> test_vars \<Rightarrow> test_vars" where
  "test_convert mjdTime v =
    (let v = v\<lparr>test_tmpYear :=
               of_int (trunc_int (to_double (to_double (of_int (sint mjdTime) - to_double 15078.2) / 365.25)))\<rparr>;
         v = v\<lparr>test_tmpMonth :=
               of_int (trunc_int (to_double
                 (to_double (to_double (of_int (sint mjdTime) - to_double 14956.1)
                    - of_int (trunc_int (to_double (of_int (uint (test_tmpYear v)) * 365.25))))
                  / to_double 30.6001)))\<rparr>;
         v = (if test_tmpMonth v = 14 \<or> test_tmpMonth v = 15 then v\<lparr>test_K := 1\<rparr> else v\<lparr>test_K := 0\<rparr>);
         v = v\<lparr>test_tmpYear := test_tmpYear v + test_K v\<rparr>;
         v = v\<lparr>test_tmpMonth := test_tmpMonth v - 1 - test_K v * 12\<rparr>;
         v = v\<lparr>test_day :=
               ucast (mjdTime - 14987 - of_int (trunc_int (to_double (of_int (uint (test_tmpYear v)) * 365.25)))
                 - of_int (trunc_int (to_double (of_int (uint (test_tmpMonth v)) * to_double 30.6001))))\<rparr>
     in v\<lparr>test_Year := test_tmpYear v + 1900\<rparr>)"

definition test_numbers :: "test_vars \<Rightarrow> string" where
  "test_numbers v = ''INFO: Time read from stream: '' @ show_nat (unat (test_Year v)) @ ''/''
     @ show_nat (unat (test_tmpMonth v)) @ ''/'' @ show_nat (unat (test_day v)) @ '' '' @ newline_char"

text \<open>What the program writes, one entry per call of \<open>printf\<close>.\<close>

definition test_output :: "test_vars \<Rightarrow> string list" where
  "test_output v =
    [''Rad na sortiranju!'', test_numbers v]
    @ (case month_name (unat (test_tmpMonth v)) of
         None \<Rightarrow> []
       | Some m \<Rightarrow> [''INFO: Time read from stream: '' @ m @ ''/'' @ show_nat (unat (test_day v))
           @ ''/'' @ show_nat (unat (test_Year v)) @ '' '' @ newline_char])
    @ [test_numbers v]"

definition test_main :: "test_vars \<Rightarrow> int \<times> string list" where
  "test_main v = (0, test_output (test_convert 55097 v))"

subsection \<open>The conversion is that of the parser\<close>

lemma sint_ucast_u16_i64: "sint (ucast (w :: u16) :: i64) = uint w"
proof -
  have "- 9223372036854775808 \<le> uint w" "uint w < 9223372036854775808" using u16_bounds [of w] by linarith+
  then show ?thesis by (simp add: sint_uint uint_ucast_u16_u64 signed_take_bit_int_eq_self_iff)
qed

lemma test_convert_fields:
  fixes w :: u16 and v :: test_vars and t :: TdtTable
  assumes "tdt_MJD t = ucast w"
  shows "test_Year (test_convert (ucast w) v) = tdt_Year (tdt_date t)"
    and "test_tmpMonth (test_convert (ucast w) v) = tdt_tmpMonth (tdt_date t)"
    and "test_day (test_convert (ucast w) v) = tdt_day (tdt_date t)"
  by (simp_all add: test_convert_def Let_def tdt_date_fields assms sint_ucast_u16_i64 tdt_first_year_def
      tdt_first_month_def year_days_def month_days_def uint_ucast_u16_u64)

lemma test_program_date:
  "test_Year (test_convert 55097 v) = 2009 \<and> test_tmpMonth (test_convert 55097 v) = 9 \<and> test_day (test_convert 55097 v) = 23"
proof -
  note v = sample_dates(1) and mjd = sample_dates(3) and s = sample_dates(5)
  have "tdt_MJD (zero_TdtTable\<lparr>tdt_MJD := ucast (of_nat (mjd_of_date 2009 9 23) :: u16)\<rparr>) = ucast (55097 :: u16)"
    by (simp add: mjd)
  note conv = test_convert_fields [OF this, of v]
  show ?thesis
    using conv tdt_date_of_date [OF v, of "zero_TdtTable\<lparr>tdt_MJD := ucast (of_nat (mjd_of_date 2009 9 23) :: u16)\<rparr>"]
    by (simp add: mjd s)
qed

text \<open>
  C40. The test program tests what the application does: for every date code its conversion
  and its line with the name of the month are those that parsing and printing a TDT section
  with that code produce; run on its own date it returns 0 after printing
  23 September 2009, which is the calendar's date.
\<close>

theorem test_program_agrees:
  "(\<exists>t' line. parseTdtTable (Some (tdt_section 5 w utc, 0)) (Some t) = Inr (TABLES_PARSE_OK, Some t')
     \<and> printTdtTable f (Some t') = Inr (TABLES_PARSE_OK,
         [banner ''TDT'', field_line ''table_id                 |      '' 0x70,
          field_line ''section_length           |      '' 5,
          ''MJD code                 |      '' @ f (ucast w) @ [NEWLINE]] @ line @ [banner ''TDT''])
     \<and> test_output (test_convert (ucast w) v) =
         [''Rad na sortiranju!'', test_numbers (test_convert (ucast w) v)] @ line
         @ [test_numbers (test_convert (ucast w) v)])
   \<and> test_main v = (0, [''Rad na sortiranju!'',
        ''INFO: Time read from stream: 2009/9/23 '' @ [NEWLINE],
        ''INFO: Time read from stream: September/23/2009 '' @ [NEWLINE],
        ''INFO: Time read from stream: 2009/9/23 '' @ [NEWLINE]])"
proof
  let ?t = "tdt_date (t\<lparr>tdt_tableId := 0x70, tdt_sectionLength := 5, tdt_MJD := ucast w\<rparr>)"
  have eq: "test_Year (test_convert (ucast w) v) = tdt_Year ?t" "test_tmpMonth (test_convert (ucast w) v) = tdt_tmpMonth ?t"
    "test_day (test_convert (ucast w) v) = tdt_day ?t"
    by (rule test_convert_fields; simp)+
  have p: "parseTdtTable (Some (tdt_section 5 w utc, 0)) (Some t) = Inr (TABLES_PARSE_OK, Some ?t)"
    by (rule parseTdtTable_section) simp
  show "\<exists>t' line. parseTdtTable (Some (tdt_section 5 w utc, 0)) (Some t) = Inr (TABLES_PARSE_OK, Some t')
     \<and> printTdtTable f (Some t') = Inr (TABLES_PARSE_OK,
         [banner ''TDT'', field_line ''table_id                 |      '' 0x70,
          field_line ''section_length           |      '' 5,
          ''MJD code                 |      '' @ f (ucast w) @ [NEWLINE]] @ line @ [banner ''TDT''])
     \<and> test_output (test_convert (ucast w) v) =
         [''Rad na sortiranju!'', test_numbers (test_convert (ucast w) v)] @ line
         @ [test_numbers (test_convert (ucast w) v)]"
    by (rule exI [of _ ?t], rule exI [of _ "case month_name (unat (tdt_tmpMonth ?t)) of
         None \<Rightarrow> [] | Some m \<Rightarrow> [''INFO: Time read from stream: '' @ m @ ''/'' @ show_nat (unat (tdt_day ?t))
           @ ''/'' @ show_nat (unat (tdt_Year ?t)) @ '' '' @ newline_char]"])
      (use p in \<open>simp only: printTdtTable_def test_output_def eq, simp\<close>)
  have "month_name 9 = Some ''September''" by code_simp
  moreover have "show_nat 2009 = ''2009''" "show_nat 9 = ''9''" "show_nat 23 = ''23''" by code_simp+
  ultimately show "test_main v = (0, [''Rad na sortiranju!'',
        ''INFO: Time read from stream: 2009/9/23 '' @ [NEWLINE],
        ''INFO: Time read from stream: September/23/2009 '' @ [NEWLINE],
        ''INFO: Time read from stream: 2009/9/23 '' @ [NEWLINE]])"
    using test_program_date [of v] by (simp add: test_main_def test_output_def test_numbers_def)
qed

end
