(* ===== verification/Spec2Isabelle.thy ===== *)
theory Spec2Isabelle
  imports Stream_Boot Stream_Types Tv_Shutdown Tv_Spec Vezba_App Test_Program
begin

text \<open>
  \<^bold>\<open>The program.\<close> A television application for a DVB-T receiver, written in C. Its parts:

  \<^item> the table parsers (src/tables.h, src/tables\_parser.c) turn the bytes of PAT, PMT, TDT and TOT sections
    into structures and print them;
  \<^item> the stream controller (src/stream\_controller.h, src/stream\_controller.c) reads the configuration file,
    runs a thread that locks the tuner, waits for the tables and starts the video and audio streams of a
    program, and offers operations for channels and volume; the demultiplexer calls it back with sections;
  \<^item> the remote controller (src/remote\_controller.h, src/remote\_controller.c) runs a thread that reads key
    events and hands them to a callback;
  \<^item> the graphics controller (src/graphics\_controller.h, src/graphics\_controller.c) draws overlays that
    timers remove again, in a thread of its own;
  \<^item> the application (src/tv\_app.c) connects the three: it turns keys into operations, collects the digits
    of a channel number until a timer expires, mirrors volume and date, and brings the modules up and down;
  \<^item> src/vezba\_5.c is an earlier version of the application, without date and volume; src/test.c tries the date
    conversion of the TDT parser.

  \<^bold>\<open>How C is modelled\<close> (theories \<open>Prelude\<close>, \<open>Heap_Ptr\<close>, \<open>C_String\<close>, \<open>Double\<close>, \<open>Printf\<close>).
  Integers are words of their width, so that arithmetic wraps where it does in C; an expression promoted to
  \<open>int\<close> is an \<open>int\<close> where it cannot overflow. A computation returns \<open>Inr\<close> of its result or \<open>Inl\<close> of the
  fault where C leaves the behaviour undefined: a null or freed pointer, a read or write outside a buffer or
  an array, an uninitialised variable, a loop that repeats itself, and the end of the program. A buffer
  is a list of bytes with an offset. A pointer to an allocated table is null, freed or live with its contents
  (\<open>heap_ptr\<close>). A \<open>double\<close> is a rational, and every operation on doubles is followed by the
  rounding of IEEE 754 binary64 (to nearest, ties to even; no overflow or subnormal occurs). \<open>printf\<close> yields
  the text it writes where the text is the purpose of the function; messages about errors and key presses are
  left out. The tuner, player and demultiplexer library, the allocator, the thread library and DirectFB are
  parameters (\<open>platform\<close>, \<open>dfb\<close>) that answer each call with success or failure, a handle, and a new state of
  their own; the calls made are recorded in order. The constants \<open>DVB_T\<close> and \<open>EV_KEY\<close> are parameters too.

  \<^bold>\<open>Threads.\<close> A function that waits on a condition variable is cut at the wait: the part before it
  ends at a program point and the part behind it is a definition of its own (for \<open>startChannel\<close>:
  \<open>startChannel_begin\<close>, \<open>startChannel_pmt\<close>, \<open>parseTimeTables_tdt\<close>, \<open>parseTimeTables_tot\<close>). \<open>Stream_Steps\<close>
  interleaves the parts of the controller thread, of any number of threads that start a dialled channel,
  of the callbacks and of the keys as a labelled step relation with signals that wake one waiting thread or
  get lost, and with wake-ups for no reason. \<open>Graphics_Frames\<close> does so for the two threads of the
  shutdown of the graphics: the wait of the main thread ends with the signal of the render thread or for no reason, and
  it releases \<open>graphicsMutex\<close> while it lasts and holds it afterwards. (The code waits on a mutex that it has not locked; the model
  takes the release of a free mutex to have no effect.) \<open>Tv_Startup\<close> has the start of the program: the statements of \<open>main\<close> one
  after the other, beside them the input thread from its creation on and the controller thread from its creation on.
  \<open>Tv_Machine\<close> puts the running program together: \<open>main\<close> from its wait for the EXIT key to its
  return, cut at its waits and joins, the input thread (one step per event it reads), the render thread (one
  step per frame), the timers of the overlays and of the dialling, and the steps of the stream controller. The callback of the
  keys counts the signals it sends to \<open>deinitCond\<close>, and \<open>main\<close> is woken by a signal that finds it waiting. A
  join is a step that is possible only when the thread joined has ended. A part runs without interruption:
  data races inside a part are not modelled. The executions of the whole program (\<open>tv_reach\<close>) pass from the start to the
  running program when \<open>main\<close> is ready to wait and the controller thread has run its first part, up to its wait for the
  tuner; before that, events that are no key events and the steps of the controller are interleaved in any way, and what a key
  would do then is the subject of a property of its own.

  \<^bold>\<open>Theories, sources and what is shown.\<close>

  \<^item> \<open>Table_Loop\<close> states the contract of a parser's loop and of an array that is filled from the front as
    locales, and proves safety and round trip once; \<open>Section_Codec\<close> has the bit layout of the sections.
  \<^item> \<open>Tables_Pat\<close>, \<open>Tables_Pmt\<close> (parsePatHeader to parsePmtTable): parsing the transmitted bytes gives
    back header and entries; no fault on any complete section; more than 20 entries are refused.
  \<^item> \<open>Tables_Tdt\<close> (parseTdtTable): the conversion of the Modified Julian Date equals exact integer arithmetic,
    and agrees with the calendar except for the day in six months. \<open>Test_Program\<close> (test.c): the same conversion.
  \<^item> \<open>Tables_Tot\<close> (parseTotTable): round trip of one descriptor; regions repeated and array overrun otherwise.
  \<^item> \<open>Tables_Print\<close> (print functions): printed tables determine their contents; every parser comes to an end.
  \<^item> \<open>Config_Loader\<close> (removeWhiteSpaces, loadConfigFile): what is read from a file of well-formed lines.
  \<^item> \<open>Stream_Controller\<close> has the definitions of stream\_controller.c. \<open>Stream_Channel\<close>: P+ and P- refine the walk
    around a ring (a locale interpreted on \<open>channelUp\<close> and \<open>channelDown\<close>), the choice of PIDs, the streams,
    the volume. \<open>Stream_Lifecycle\<close>: error paths of the thread, deinitialisation, received sections.
    \<open>Stream_Steps\<close>: in a well-behaved environment no reachable state faults; a signal before the wait is lost.
    \<open>Stream_Types\<close>: no execution whatever takes a table, the volume or an argument of a call out of its range.
    \<open>Stream_Boot\<close>: the execution that brings a channel up. \<open>Stream_Frame\<close>: what the steps leave alone, for the client.
  \<^item> \<open>Remote_Controller\<close>: the input thread is the fold of the callback over the key events; its shutdown.
  \<^item> \<open>Graphics_Controller\<close>, \<open>Graphics_Frames\<close>: overlays are shown exactly while their timers run (a locale
    interpreted for each overlay), what a frame does in every case, initialisation, the shutdown and how it can get stuck.
  \<^item> \<open>Tv_App\<close>, \<open>Tv_Keys\<close>: dialling, agreement of the three modules on the volume, the main program.
    \<open>Tv_Spec\<close>: the key callback refines an abstract television (a locale of refinement interpreted on the callback).
  \<^item> \<open>Tv_Machine\<close>, \<open>Tv_Safety\<close>, \<open>Tv_Startup\<close>, \<open>Tv_Program\<close>: the whole program as a machine, its start, its invariants, and that it
    does not fault until the end begins, on a platform where allocations and stream creations succeed and in an environment
    that keeps to the stated rules (no key before \<open>main\<close> is ready, complete sections, regular TOTs, P+ and P- after the PAT, no digit
    while a dialled channel is being started, no expiry of the key timer after the controller has given up); the keys that fault
    during the start. \<open>Tv_Shutdown\<close>: the order of the shutdown, an execution
    from switching on to the return of \<open>main\<close>, a press of EXIT that is lost, the join that waits for an input event, and the
    key timer that outlives the tables.
  \<^item> \<open>Vezba_App\<close> (vezba\_5.c): its keys do what those of tv\_app.c do; its missing date callback; the order of its shutdown.
  \<^item> This theory: from switching on to the information bar, and from the digit keys to the channel.

  \<^bold>\<open>Loops and fuel.\<close> No definition uses fuel: the loops over entries are functions with a termination
  measure (the count of entries, bounded by its array, or the counter of an 8-bit loop), the reading of key
  events recurses over the list of reads, and the endless loops of the threads are rounds of the step
  relations. The loops of the PAT and PMT parsers have a branch that would repeat for ever; it is the
  fault \<open>Endless_Loop\<close> and proved unreachable.

  \<^bold>\<open>Not modelled.\<close> src/mjd.c uses undeclared variables and does not compile; the makefile, the documents and the
  binaries contain no program text. The \<open>drawInfoRect\<close> that src/vezba\_5.c calls without arguments is not the
  one of the sources, and a parameter of its model. Unused variables and the code inside comments (the computation of the local
  time) are left out.
\<close>

section \<open>From switching on to the information bar\<close>

text \<open>
  C1. From switching on to the information bar. On a platform where every call succeeds, with
  a broadcast whose PAT, PMT, TDT and TOT sections arrive while the controller thread
  waits for them, and a configured program that the PAT lists: the thread has an execution that
  ends in its loop, initialised, with the filter set to the PID the PAT gives for the
  program. The INFO key then shows the PIDs of the first video and the first audio stream of the
  PMT, and the year, the month and the computed day of the date that was broadcast.
\<close>

theorem switched_on_shows_info:
  assumes "calls_succeed plat" and "valid_broadcast b" and "b_date b = (y, m, d)"
    and "dateRecievedCallback (sc a) = Some registerCurrentDate"
    and "\<not> statusMutex (sc a)" and "\<not> timeTablesRecieved (sc a)"
    and "p = sint (programNumber (sc a))" and "0 \<le> p" and "p + 1 < int (length (snd (b_pat b)))"
  shows "\<exists>s s' hd a'. streamControllerTask_begin plat (sc a) = Inr (Status_Lock, s)
    \<and> sc_run plat (broadcast_events b) (machine_start Status_Lock s) (machine_start Task_Loop s')
    \<and> isInitialized s' \<and> Demux_Set_Filter hd (pat_pid (snd (b_pat b) ! nat (p + 1))) 2 \<in> set (calls s')
    \<and> remoteControllerCallback plat KEYCODE_INFO type value (a\<lparr>sc := s'\<rparr>) = Inr a'
    \<and> overlay_shown Info_Overlay (gc a') \<and> timer_armed Info_Overlay (gc a')
    \<and> videoPidToDraw (gc a') = first_pid is_video_type (b_streams b)
    \<and> audioPidToDraw (gc a') = first_pid is_audio_type (b_streams b)
    \<and> YearToDraw (gc a') = of_nat y \<and> tmpMonthToDraw (gc a') = of_nat m
    \<and> dayToDraw (gc a') = of_int (int d + day_skew y m)"
proof -
  obtain s s' hd where b: "streamControllerTask_begin plat (sc a) = Inr (Status_Lock, s)"
    "sc_run plat (broadcast_events b) (machine_start Status_Lock s) (machine_start Task_Loop s')"
    "isInitialized s'" "currentChannel s' = channel_of p (b_streams b)"
    "client s' = registerCurrentDate (reported_date b) (client (sc a))"
    "Demux_Set_Filter hd (pat_pid (snd (b_pat b) ! nat (p + 1))) 2 \<in> set (calls s')"
    using controller_boots [OF assms(1,2,4-9)] by blast
  obtain a' where "remoteControllerCallback plat KEYCODE_INFO type value (a\<lparr>sc := s'\<rparr>) = Inr a'"
    and "gc a' = drawInfoRect (of_nat m) (of_int (int d + day_skew y m)) (of_nat y)
       (first_pid is_audio_type (b_streams b)) (first_pid is_video_type (b_streams b)) (gc a)"
    using b(4,5)
    by (simp add: remoteControllerCallback_def getChannelInfo_def with_tv_def tv_def registerCurrentDate_def
        reported_date_def assms(3) channel_of_def Let_def)
  then show ?thesis
    using b by (intro exI [of _ s] exI [of _ s'] exI [of _ hd] exI [of _ a'])
      (simp add: drawInfoRect_def timer_armed_def Let_def)
qed

theorem switched_on_shows_info_witness:
  "\<exists>s s' a'. streamControllerTask_begin ideal_platform (sc app_start) = Inr (Status_Lock, s)
     \<and> sc_run ideal_platform (broadcast_events example_broadcast) (machine_start Status_Lock s) (machine_start Task_Loop s')
     \<and> remoteControllerCallback ideal_platform KEYCODE_INFO 1 1 (app_start\<lparr>sc := s'\<rparr>) = Inr a'
     \<and> videoPidToDraw (gc a') = 0x101 \<and> audioPidToDraw (gc a') = 0x102
     \<and> YearToDraw (gc a') = 2009 \<and> tmpMonthToDraw (gc a') = 9 \<and> dayToDraw (gc a') = 23"
proof -
  have a: "dateRecievedCallback (sc app_start) = Some registerCurrentDate" "\<not> statusMutex (sc app_start)"
    "\<not> timeTablesRecieved (sc app_start)" "0 = sint (programNumber (sc app_start))"
    by (simp_all add: app_start_def initial_state_def)
  have b: "b_date example_broadcast = (2009, 9, 23)" "(0 :: int) + 1 < int (length (snd (b_pat example_broadcast)))"
    "first_pid is_video_type (b_streams example_broadcast) = 0x101" "first_pid is_audio_type (b_streams example_broadcast) = 0x102"
    by (simp_all add: example_broadcast_def b_streams_def pat_example_services_def pmt_example_streams_def
        is_video_type_def is_audio_type_def)
  show ?thesis
    using switched_on_shows_info [OF ideal_calls_succeed valid_example_broadcast b(1) a _ b(2), of 1 1] b(3,4) sample_dates(5) by auto
qed

section \<open>From the digit keys to the channel\<close>

definition digit_press :: "u16 \<Rightarrow> nat \<Rightarrow> input_event" where
  "digit_press EV_KEY d = \<lparr>ev_type = EV_KEY, ev_code = KEYCODE_digit d, ev_value = EV_VALUE_KEYPRESS\<rparr>"

lemma dispatch_digits:
  "list_all (\<lambda>d. d < 10) ds \<Longrightarrow> dispatch (remoteControllerCallback plat) (map (digit_press EV_KEY) ds) a =
     Inr (with_tv (fold inputChannelNumber (map of_nat ds)) a)"
proof (induction ds arbitrary: a)
  case Nil
  then show ?case by (simp add: with_tv_def)
next
  case (Cons d ds)
  then have d: "d < 10" by simp
  show ?case
    using Cons digit_key [OF d, of plat EV_KEY EV_VALUE_KEYPRESS a] by (simp add: digit_press_def with_tv_def)
qed

lemma digits_are_keys: "filter (key_event EV_KEY) (map (digit_press EV_KEY) ds) = map (digit_press EV_KEY) ds"
  by (simp add: filter_id_conv key_event_def digit_press_def)

text \<open>
  C14. From the digit keys to the channel: on an opened input device that delivers presses of one
  to three digit keys, the input thread hands them to the application, whose key timer
  is then running; when it expires, the stream controller is asked for the channel with
  that decimal number: the old filter is freed and a filter for the PMT is set on the PID of
  the service one behind that number in the PAT.
\<close>

theorem dialled_digits_start_channel:
  assumes "callback s = Some (remoteControllerCallback plat)" and "rc_threadExit s = 0" and "fd \<noteq> -1"
    and "dial_ready (tv (rc_client s))" and "ds \<noteq> []" and "length ds \<le> 3" and "list_all (\<lambda>d. d < 10) ds"
    and "patTable (sc (rc_client s)) = Ptr pat" and "wf_pat pat"
    and "n = decimal (map of_nat ds)" and "n < int (unat (serviceInfoCount pat))" and "n < 19"
    and "calls_succeed plat"
  shows "\<exists>s' a'. inputEventTask EV_KEY fd (map Some (map (digit_press EV_KEY) ds)) s = Inr (None, s')
    \<and> keyTimer (tv (rc_client s')) = Timer_Armed 2
    \<and> changeChannel_begin plat (rc_client s') = Inr (Pmt_Set n, a')
    \<and> calls (sc a') = calls (sc (rc_client s)) @
        [Demux_Free_Filter (playerHandle (sc (rc_client s))) (filterHandle (sc (rc_client s))),
         Demux_Set_Filter (playerHandle (sc (rc_client s))) (pat_pid (patServiceInfoArray pat ! nat (n + 1))) 2]"
proof -
  let ?ds = "map of_nat ds :: u16 list"
  let ?a = "with_tv (fold inputChannelNumber ?ds) (rc_client s)"
  have digits: "\<forall>d \<in> set ?ds. d < 10"
    using assms(7) by (auto simp: list_all_iff word_less_nat_alt unat_of_nat_u16)
  have run: "inputEventTask EV_KEY fd (map Some (map (digit_press EV_KEY) ds)) s = Inr (None, s\<lparr>rc_client := ?a\<rparr>)"
    using inputEventTask_loop_dispatch [OF assms(1,2), of EV_KEY "map (digit_press EV_KEY) ds"]
      dispatch_digits [OF assms(7), of plat EV_KEY "rc_client s"] assms(3) digits_are_keys [of EV_KEY ds]
    by (simp add: inputEventTask_def)
  have num: "dialled_channel (tv ?a) = Inr n" "keyTimer (tv ?a) = Timer_Armed 2"
    using dial_number [OF assms(4) _ digits] assms(5,6,10) by (simp_all add: tv_def with_tv_def)
  have "0 \<le> foldl (\<lambda>n d. 10 * n + uint d) k xs" if "0 \<le> k" for k and xs :: "u16 list"
    using that by (induction xs arbitrary: k) simp_all
  then have "0 \<le> n" by (simp add: assms(10) decimal_def)
  have pat: "patTable (sc (with_tv g ?a)) = Ptr pat" for g using assms(8) by (simp add: with_tv_def)
  have "service_pid pat n = Inr (pat_pid (patServiceInfoArray pat ! nat (n + 1)))"
    using assms(9,12) \<open>0 \<le> n\<close> by (simp add: service_pid_def wf_pat_def TABLES_MAX_NUMBER_OF_PIDS_IN_PAT_def)
  then show ?thesis
    using run num pat assms(11) \<open>0 \<le> n\<close> calls_succeedD [OF assms(13)]
    by (intro exI [of _ "s\<lparr>rc_client := ?a\<rparr>"])
      (simp add: changeChannel_begin_def changeChannelKey_begin_def startChannel_begin_def call_simps Let_def
        del: of_nat_unat, simp add: with_tv_def)
qed

theorem dialled_digits_start_channel_witness:
  "\<exists>s' a'. inputEventTask 1 3 (map Some (map (digit_press 1) [2]))
       \<lparr>rc_threadExit = 0, callback = Some (remoteControllerCallback ideal_platform),
        rc_client = app_start\<lparr>sc := (sc app_start)\<lparr>patTable := Ptr example_pat\<rparr>\<rparr>\<rparr> = Inr (None, s')
     \<and> changeChannel_begin ideal_platform (rc_client s') = Inr (Pmt_Set 2, a')
     \<and> calls (sc a') = [Demux_Free_Filter 0 0, Demux_Set_Filter 0 768 2]"
proof -
  let ?s = "\<lparr>rc_threadExit = 0, callback = Some (remoteControllerCallback ideal_platform),
        rc_client = app_start\<lparr>sc := (sc app_start)\<lparr>patTable := Ptr example_pat\<rparr>\<rparr>\<rparr>"
  have "dial_ready (tv (rc_client ?s))" by (simp add: dial_ready_def app_start_def tv_def initial_state_def tv_start_def)
  moreover have "decimal (map of_nat [2]) = 2" by (simp add: decimal_def)
  moreover have "serviceInfoCount example_pat = 4" "pat_pid (patServiceInfoArray example_pat ! nat (2 + 1)) = 768"
    by (simp_all add: example_pat_def numeral_3_eq_3)
  moreover have "calls (sc (rc_client ?s)) = []" "playerHandle (sc (rc_client ?s)) = 0" "filterHandle (sc (rc_client ?s)) = 0"
    by (simp_all add: app_start_def initial_state_def)
  ultimately show ?thesis
    using dialled_digits_start_channel [of ?s ideal_platform 3 "[2]" example_pat 2 1] wf_example_pat ideal_calls_succeed
    by auto
qed

end
